theory Spec2Isabelle
  imports Complex_Main "HOL-Library.Signed_Division" "HOL-Library.Word"
begin

section \<open>Roche: the frame orchestrator of \<^verbatim>\<open>src/game.cpp\<close>\<close>

text \<open>
  The embedding follows \<^verbatim>\<open>src/game.cpp\<close> function by function and keeps its names.
  C++ \<^verbatim>\<open>int\<close> and \<^verbatim>\<open>long\<close> values are HOL integers with C's truncating division
  (\<open>sdiv\<close>, \<open>smod\<close>) and the one narrowing conversion written out; \<^verbatim>\<open>float\<close> and
  \<^verbatim>\<open>double\<close> values are idealised as real numbers, so the theorems are about the
  exact geometry and branch structure of the code, not about rounding.
\<close>

subsection \<open>Calendar formatting (lines 453-517)\<close>

text \<open>\<^verbatim>\<open>std::to_string(int)\<close>: the decimal digits, with a minus sign when negative.\<close>

function to_string_nat :: "nat \<Rightarrow> string" where
  "to_string_nat n =
     (if n < 10 then [char_of (48 + n)]
      else to_string_nat (n div 10) @ [char_of (48 + n mod 10)])"
  by pat_completeness auto
termination
  by (relation "measure (\<lambda>n. n)") auto

definition to_string :: "int \<Rightarrow> string" where
  "to_string i = (if i < 0 then CHR ''-'' # to_string_nat (nat (- i)) else to_string_nat (nat i))"

text \<open>\<^verbatim>\<open>format\<close> (line 453): two characters, \<^verbatim>\<open>'0' + value/10\<close> and \<^verbatim>\<open>'0' + value%10\<close>,
  each narrowed to a \<^verbatim>\<open>char\<close>.\<close>

definition format :: "int \<Rightarrow> string" where
  "format v = [char_of (48 + v sdiv 10)] @ [char_of (48 + v smod 10)]"

definition isLeapYear :: "int \<Rightarrow> bool" where
  "isLeapYear year \<longleftrightarrow> ((year smod 4 = 0) \<and> (year smod 100 \<noteq> 0)) \<or> (year smod 400 = 0)"

text \<open>The narrowing of a \<^verbatim>\<open>long\<close> to a 32-bit \<^verbatim>\<open>int\<close> (line 469).\<close>

definition to_int32 :: "int \<Rightarrow> int" where
  "to_int32 k = sint (word_of_int k :: 32 word)"

text \<open>The first \<^verbatim>\<open>while (true)\<close> loop (lines 473-482), on the loop variables \<open>year\<close> and \<open>i\<close>.\<close>

function yearLoop :: "int \<Rightarrow> int \<Rightarrow> int \<Rightarrow> int \<times> int" where
  "yearLoop days year i =
     (let daysInYear = 365 + (if isLeapYear year then 1 else 0) in
      if i + daysInYear \<le> days then yearLoop days (year + 1) (i + daysInYear)
      else (year, i))"
  by pat_completeness auto
termination
  by (relation "measure (\<lambda>(days, year, i). nat (days - i))") (auto split: if_splits)

definition monthLength :: "int \<Rightarrow> int list" where
  "monthLength year =
     [31, 28 + (if isLeapYear year then 1 else 0), 31,
      30, 31, 30,
      31, 31, 30,
      31, 30, 31]"

definition monthNames :: "string list" where
  "monthNames =
     [''Jan'', ''Feb'', ''Mar'',
      ''Apr'', ''May'', ''Jun'',
      ''Jul'', ''Aug'', ''Sep'',
      ''Oct'', ''Nov'', ''Dec'']"

text \<open>The second loop (lines 494-503). Reading \<^verbatim>\<open>monthLength[month]\<close> past the end of the
  vector is undefined in C++; the model returns \<open>None\<close> there.\<close>

function monthLoop :: "int list \<Rightarrow> int \<Rightarrow> int \<Rightarrow> nat \<Rightarrow> (int \<times> nat) option" where
  "monthLoop ml remainingDays j month =
     (if month < length ml then
        (let daysInMonth = ml ! month in
         if j + daysInMonth \<le> remainingDays
         then monthLoop ml remainingDays (j + daysInMonth) (month + 1)
         else Some (j, month))
      else None)"
  by pat_completeness auto
termination
  by (relation "measure (\<lambda>(ml, remainingDays, j, month). length ml - month)") auto

definition getFormattedTime :: "int \<Rightarrow> string option" where
  "getFormattedTime epochInSeconds =
     (let seconds = to_int32 (epochInSeconds smod 60);
          minutes = to_int32 ((epochInSeconds sdiv 60) smod 60);
          hours = to_int32 ((epochInSeconds sdiv 3600) smod 24);
          days = to_int32 (epochInSeconds sdiv 86400);
          (year, i) = yearLoop days 2017 0;
          remainingDays = days - i
      in case monthLoop (monthLength year) remainingDays 0 0 of
           None \<Rightarrow> None
         | Some (j, month) \<Rightarrow>
             if month < length monthNames then
               Some (monthNames ! month @ ''. '' @
                     to_string (remainingDays - j + 1) @ '' '' @
                     to_string year @ '' '' @
                     format hours @ '':'' @
                     format minutes @ '':'' @
                     format seconds @ '' UTC'')
             else None)"

text \<open>The calendar the specification describes: the leap-year rule, the month lengths, and
  the number of days from 1 January 2017 to a date (month counted from 0, day from 1).\<close>

definition gregorian_leap :: "int \<Rightarrow> bool" where
  "gregorian_leap y \<longleftrightarrow> (4 dvd y \<and> \<not> 100 dvd y) \<or> 400 dvd y"

definition gregorian_month_lengths :: "int \<Rightarrow> int list" where
  "gregorian_month_lengths y =
     [31, if gregorian_leap y then 29 else 28, 31, 30, 31, 30, 31, 31, 30, 31, 30, 31]"

definition gregorian_year_length :: "int \<Rightarrow> int" where
  "gregorian_year_length y = (if gregorian_leap y then 366 else 365)"

definition days_since_2017 :: "int \<Rightarrow> nat \<Rightarrow> int \<Rightarrow> int" where
  "days_since_2017 y m d =
     (\<Sum>k = 2017..<y. gregorian_year_length k) + sum_list (take m (gregorian_month_lengths y)) + (d - 1)"

definition two_digits :: "nat \<Rightarrow> string" where
  "two_digits n = [''0123456789'' ! (n div 10), ''0123456789'' ! (n mod 10)]"

subsection \<open>Edge-triggered key polling (lines 432-443)\<close>

text \<open>\<open>glfwGetKey\<close> is the window's key state at the moment of the call; \<open>keysHeld\<close> is the
  table the game keeps. The result pairs the returned flag with the updated table.\<close>

definition isPressedOnce :: "(int \<Rightarrow> bool) \<Rightarrow> (int \<Rightarrow> bool) \<Rightarrow> int \<Rightarrow> bool \<times> (int \<Rightarrow> bool)" where
  "isPressedOnce glfwGetKey keysHeld key =
     (if glfwGetKey key then
        (if keysHeld key then (False, keysHeld)
         else (True, keysHeld(key := True)))
      else (False, keysHeld(key := False)))"

text \<open>A sequence of checks, each on the key state of its moment and on one key, in the
  order the game makes them; the flags returned, and the table left behind.\<close>

fun pollKeys :: "((int \<Rightarrow> bool) \<times> int) list \<Rightarrow> (int \<Rightarrow> bool) \<Rightarrow> bool list" where
  "pollKeys [] keysHeld = []"
| "pollKeys ((w, key) # es) keysHeld =
     (case isPressedOnce w keysHeld key of (r, held') \<Rightarrow> r # pollKeys es held')"

fun heldAfter :: "((int \<Rightarrow> bool) \<times> int) list \<Rightarrow> (int \<Rightarrow> bool) \<Rightarrow> (int \<Rightarrow> bool)" where
  "heldAfter [] keysHeld = keysHeld"
| "heldAfter ((w, key) # es) keysHeld = heldAfter es (snd (isPressedOnce w keysHeld key))"

subsection \<open>Vectors and matrices (the GLM types the game uses)\<close>

text \<open>\<^verbatim>\<open>vec2\<close>, \<^verbatim>\<open>vec3\<close>/\<^verbatim>\<open>dvec3\<close> and \<^verbatim>\<open>mat3\<close> (stored by columns, as GLM does), with the
  GLM operations the game calls, over the reals.\<close>

datatype vec2 = Vec2 (v2x: real) (v2y: real)

datatype vec3 = Vec3 (vx: real) (vy: real) (vz: real)

datatype mat3 = Mat3 (col0: vec3) (col1: vec3) (col2: vec3)

instantiation vec2 :: ab_group_add
begin
definition zero_vec2 :: vec2 where "zero_vec2 = Vec2 0 0"
definition plus_vec2 :: "vec2 \<Rightarrow> vec2 \<Rightarrow> vec2" where
  "plus_vec2 a b = Vec2 (v2x a + v2x b) (v2y a + v2y b)"
definition minus_vec2 :: "vec2 \<Rightarrow> vec2 \<Rightarrow> vec2" where
  "minus_vec2 a b = Vec2 (v2x a - v2x b) (v2y a - v2y b)"
definition uminus_vec2 :: "vec2 \<Rightarrow> vec2" where
  "uminus_vec2 a = Vec2 (- v2x a) (- v2y a)"
instance
  by standard (simp_all add: zero_vec2_def plus_vec2_def minus_vec2_def uminus_vec2_def vec2.expand)
end

instantiation vec3 :: ab_group_add
begin
definition zero_vec3 :: vec3 where "zero_vec3 = Vec3 0 0 0"
definition plus_vec3 :: "vec3 \<Rightarrow> vec3 \<Rightarrow> vec3" where
  "plus_vec3 a b = Vec3 (vx a + vx b) (vy a + vy b) (vz a + vz b)"
definition minus_vec3 :: "vec3 \<Rightarrow> vec3 \<Rightarrow> vec3" where
  "minus_vec3 a b = Vec3 (vx a - vx b) (vy a - vy b) (vz a - vz b)"
definition uminus_vec3 :: "vec3 \<Rightarrow> vec3" where
  "uminus_vec3 a = Vec3 (- vx a) (- vy a) (- vz a)"
instance
  by standard (simp_all add: zero_vec3_def plus_vec3_def minus_vec3_def uminus_vec3_def vec3.expand)
end

text \<open>\<^verbatim>\<open>v*s\<close>, \<^verbatim>\<open>vec2(v)\<close> of a \<^verbatim>\<open>vec3\<close>, \<^verbatim>\<open>dot\<close>, \<^verbatim>\<open>cross\<close>, \<^verbatim>\<open>length\<close>, \<^verbatim>\<open>normalize\<close>
  (GLM: \<^verbatim>\<open>v * inversesqrt(dot(v, v))\<close>), \<^verbatim>\<open>transpose\<close>.\<close>

definition smul2 :: "real \<Rightarrow> vec2 \<Rightarrow> vec2" where
  "smul2 s v = Vec2 (s * v2x v) (s * v2y v)"

definition smul :: "real \<Rightarrow> vec3 \<Rightarrow> vec3" where
  "smul s v = Vec3 (s * vx v) (s * vy v) (s * vz v)"

definition vec2_of :: "vec3 \<Rightarrow> vec2" where
  "vec2_of v = Vec2 (vx v) (vy v)"

definition dot :: "vec3 \<Rightarrow> vec3 \<Rightarrow> real" where
  "dot a b = vx a * vx b + vy a * vy b + vz a * vz b"

definition cross :: "vec3 \<Rightarrow> vec3 \<Rightarrow> vec3" where
  "cross a b = Vec3 (vy a * vz b - vy b * vz a) (vz a * vx b - vz b * vx a) (vx a * vy b - vx b * vy a)"

definition length3 :: "vec3 \<Rightarrow> real" where
  "length3 v = sqrt (dot v v)"

definition normalize :: "vec3 \<Rightarrow> vec3" where
  "normalize v = smul (1 / sqrt (dot v v)) v"

definition transpose3 :: "mat3 \<Rightarrow> mat3" where
  "transpose3 m =
     Mat3 (Vec3 (vx (col0 m)) (vx (col1 m)) (vx (col2 m)))
          (Vec3 (vy (col0 m)) (vy (col1 m)) (vy (col2 m)))
          (Vec3 (vz (col0 m)) (vz (col1 m)) (vz (col2 m)))"

text \<open>\<^verbatim>\<open>glm::lookAt(eye, center, up)\<close> (right-handed), reduced to its upper-left 3x3 block,
  which is all the game keeps (\<^verbatim>\<open>mat3(lookAt(...))\<close>): the rows are \<open>s\<close>, \<open>u\<close> and \<open>-f\<close>.\<close>

definition lookAt :: "vec3 \<Rightarrow> vec3 \<Rightarrow> vec3 \<Rightarrow> mat3" where
  "lookAt eye center up =
     (let f = normalize (center - eye);
          s = normalize (cross f up);
          u = cross s f
      in Mat3 (Vec3 (vx s) (vx u) (- vx f))
              (Vec3 (vy s) (vy u) (- vy f))
              (Vec3 (vz s) (vz u) (- vz f)))"

text \<open>\<^verbatim>\<open>atan2\<close>, \<^verbatim>\<open>fmod\<close>, \<^verbatim>\<open>pow\<close> on a non-negative base, \<^verbatim>\<open>glm::clamp\<close>.\<close>

definition atan2 :: "real \<Rightarrow> real \<Rightarrow> real" where
  "atan2 y x =
     (if 0 < x then arctan (y / x)
      else if x < 0 then (if 0 \<le> y then arctan (y / x) + pi else arctan (y / x) - pi)
      else if 0 < y then pi / 2
      else if y < 0 then - pi / 2
      else 0)"

definition fmod :: "real \<Rightarrow> real \<Rightarrow> real" where
  "fmod a b = a - b * of_int (if 0 \<le> a / b then \<lfloor>a / b\<rfloor> else \<lceil>a / b\<rceil>)"

definition clamp :: "real \<Rightarrow> real \<Rightarrow> real \<Rightarrow> real" where
  "clamp a lo hi = min (max a lo) hi"

subsection \<open>Pure helpers of the camera (lines 445-451, 805-814)\<close>

definition polarToCartesian :: "vec2 \<Rightarrow> vec3" where
  "polarToCartesian p =
     Vec3 (cos (v2x p) * cos (v2y p))
          (sin (v2x p) * cos (v2y p))
          (sin (v2y p))"

definition ease :: "real \<Rightarrow> real" where
  "ease t = 6*t*t*t*t*t - 15*t*t*t*t + 10*t*t*t"

definition ease2 :: "real \<Rightarrow> real \<Rightarrow> real" where
  "ease2 t alpha = (let a = t powr alpha in a / (a + (1 - t) powr alpha))"

subsection \<open>The entity collection\<close>

text \<open>
  Modelled from the spec: the classes \<^verbatim>\<open>Orbit\<close>, \<^verbatim>\<open>Model\<close>, \<^verbatim>\<open>Clouds\<close>, \<^verbatim>\<open>EntityParam\<close>,
  \<^verbatim>\<open>EntityState\<close>, \<^verbatim>\<open>EntityHandle\<close> and \<^verbatim>\<open>EntityCollection\<close> are declared outside
  \<^verbatim>\<open>src/\<close>. The records hold what \<^verbatim>\<open>game.cpp\<close> passes to their constructors and reads
  through their getters (fields are named after the getters); an entity is known by its
  index in load order, an \<^verbatim>\<open>EntityHandle\<close> is such an index or the handle that does not
  exist, and the parent of an entity is the handle its parent name was resolved to at
  load time.
\<close>

record Orbit =
  ecc :: real
  sma :: real
  inc :: real
  lan :: real
  arg :: real
  pr :: real
  m0 :: real

record Model =
  getRadius :: real
  getGM :: real
  getRotationPeriod :: real

record Clouds =
  getPeriod :: real

record EntityParam =
  getName :: string
  getDisplayName :: string
  getParentName :: string
  hasOrbit :: bool
  getOrbit :: Orbit
  isBody :: bool
  getModel :: Model
  hasClouds :: bool
  getClouds :: Clouds

record EntityState =
  getPosition :: vec3
  getRotationAngle :: real
  getCloudDisp :: real

type_synonym EntityHandle = "nat option"

record EntityCollection =
  params :: "EntityParam list"
  parentOf :: "nat \<Rightarrow> EntityHandle"
  stateOf :: "nat \<Rightarrow> EntityState"

definition handleExists :: "EntityHandle \<Rightarrow> bool" where
  "handleExists h \<longleftrightarrow> h \<noteq> None"

definition getParam :: "EntityCollection \<Rightarrow> EntityHandle \<Rightarrow> EntityParam" where
  "getParam ec h = params ec ! the h"

definition getState :: "EntityCollection \<Rightarrow> EntityHandle \<Rightarrow> EntityState" where
  "getState ec h = stateOf ec (the h)"

definition getParent :: "EntityCollection \<Rightarrow> EntityHandle \<Rightarrow> EntityHandle" where
  "getParent ec h =
     (case h of None \<Rightarrow> None
      | Some i \<Rightarrow> if i < length (params ec) then parentOf ec i else None)"

definition getAll :: "EntityCollection \<Rightarrow> EntityHandle list" where
  "getAll ec = map Some [0..<length (params ec)]"

definition getBodies :: "EntityCollection \<Rightarrow> EntityHandle list" where
  "getBodies ec = filter (\<lambda>h. isBody (getParam ec h)) (getAll ec)"

definition setState :: "EntityCollection \<Rightarrow> (nat \<Rightarrow> EntityState) \<Rightarrow> EntityCollection" where
  "setState ec st = ec\<lparr>stateOf := st\<rparr>"

text \<open>
  Modelled from the spec: \<^verbatim>\<open>EntityHandle::getAllParents\<close> (the ascending chain of
  ancestors, nearest first, empty for a root) and \<^verbatim>\<open>EntityHandle::getAllChildren\<close> (all
  descendants) are defined outside \<^verbatim>\<open>src/\<close>. The model follows the specification and
  the earlier version of both that \<^verbatim>\<open>game.cpp\<close> keeps in a comment (lines 912-966): a
  loop up the parent links, and the children followed by the descendants of each child.
  The loop does not return on a cyclic hierarchy (\<open>None\<close>); the recursion takes fuel.
\<close>

partial_function (option) getAllParentsLoop ::
    "EntityCollection \<Rightarrow> EntityHandle \<Rightarrow> EntityHandle list \<Rightarrow> EntityHandle list option" where
  "getAllParentsLoop ec temp parents =
     (let tempParent = getParent ec temp in
      if handleExists tempParent
      then getAllParentsLoop ec tempParent (parents @ [tempParent])
      else Some parents)"

definition getAllParents :: "EntityCollection \<Rightarrow> EntityHandle \<Rightarrow> EntityHandle list option" where
  "getAllParents ec h = getAllParentsLoop ec h []"

definition getChildren :: "EntityCollection \<Rightarrow> EntityHandle \<Rightarrow> EntityHandle list" where
  "getChildren ec h = filter (\<lambda>c. getParent ec c = h) (getAll ec)"

fun getAllChildren :: "nat \<Rightarrow> EntityCollection \<Rightarrow> EntityHandle \<Rightarrow> EntityHandle list option" where
  "getAllChildren 0 ec h = None"
| "getAllChildren (Suc fuel) ec h =
     (let c = getChildren ec h in
      case those (map (getAllChildren fuel ec) c) of
        None \<Rightarrow> None
      | Some accum \<Rightarrow> Some (c @ concat accum))"

text \<open>The hierarchy in the specification's terms: the chain of ancestors of an entity, from
  its parent up to a root (an entity has one exactly when no cycle lies above it), and
  the relation "is a proper ancestor of".\<close>

inductive ancestorChain :: "EntityCollection \<Rightarrow> EntityHandle \<Rightarrow> EntityHandle list \<Rightarrow> bool" where
  root: "getParent ec h = None \<Longrightarrow> ancestorChain ec h []"
| step: "getParent ec h = Some p \<Longrightarrow> ancestorChain ec (Some p) ps \<Longrightarrow> ancestorChain ec h (Some p # ps)"

inductive isAncestor :: "EntityCollection \<Rightarrow> EntityHandle \<Rightarrow> EntityHandle \<Rightarrow> bool" where
  parent: "getParent ec h = Some p \<Longrightarrow> isAncestor ec (Some p) h"
| above: "getParent ec h = Some p \<Longrightarrow> isAncestor ec a (Some p) \<Longrightarrow> isAncestor ec a h"

subsection \<open>Per-frame entity state (\<^verbatim>\<open>Game::update\<close>, lines 523-558)\<close>

text \<open>\<^verbatim>\<open>Orbit::computePosition\<close> is defined outside \<^verbatim>\<open>src/\<close>; it is the parameter \<open>cp\<close>.
  \<open>relativePositions\<close> is the map the first loop fills, read at a handle.\<close>

definition relativePositions ::
    "(Orbit \<Rightarrow> real \<Rightarrow> vec3) \<Rightarrow> EntityCollection \<Rightarrow> real \<Rightarrow> EntityHandle \<Rightarrow> vec3" where
  "relativePositions cp ec epoch h =
     (if \<not> handleExists (getParent ec h) \<or> \<not> hasOrbit (getParam ec h)
      then 0
      else cp (getOrbit (getParam ec h)) epoch)"

text \<open>The \<^verbatim>\<open>while (parent.exists())\<close> loop (lines 539-543).\<close>

partial_function (option) absPositionLoop ::
    "(Orbit \<Rightarrow> real \<Rightarrow> vec3) \<Rightarrow> EntityCollection \<Rightarrow> real \<Rightarrow> EntityHandle \<Rightarrow> vec3 \<Rightarrow> vec3 option" where
  "absPositionLoop cp ec epoch parent absPosition =
     (if handleExists parent
      then absPositionLoop cp ec epoch (getParent ec parent)
             (absPosition + relativePositions cp ec epoch parent)
      else Some absPosition)"

definition absPosition ::
    "(Orbit \<Rightarrow> real \<Rightarrow> vec3) \<Rightarrow> EntityCollection \<Rightarrow> real \<Rightarrow> EntityHandle \<Rightarrow> vec3 option" where
  "absPosition cp ec epoch h =
     absPositionLoop cp ec epoch (getParent ec h) (relativePositions cp ec epoch h)"

definition rotationAngle :: "EntityCollection \<Rightarrow> real \<Rightarrow> EntityHandle \<Rightarrow> real" where
  "rotationAngle ec epoch h =
     (2 * pi) * fmod (epoch / getRotationPeriod (getModel (getParam ec h))) 1"

text \<open>The cloud displacement lambda (lines 551-555).\<close>

definition cloudDisp :: "EntityCollection \<Rightarrow> real \<Rightarrow> EntityHandle \<Rightarrow> real" where
  "cloudDisp ec epoch h =
     (if hasClouds (getParam ec h) then 0
      else (let period = getPeriod (getClouds (getParam ec h)) in
            if period \<noteq> 0 then fmod (- epoch / period) 1 else 0))"

definition entityState ::
    "(Orbit \<Rightarrow> real \<Rightarrow> vec3) \<Rightarrow> EntityCollection \<Rightarrow> real \<Rightarrow> EntityHandle \<Rightarrow> EntityState option" where
  "entityState cp ec epoch h =
     (case absPosition cp ec epoch h of
        None \<Rightarrow> None
      | Some p \<Rightarrow>
          Some \<lparr>getPosition = p, getRotationAngle = rotationAngle ec epoch h,
                getCloudDisp = cloudDisp ec epoch h\<rparr>)"

text \<open>The cloud displacement as the specification words it: zero without a cloud layer or
  with a zero period, else the negated fractional part of epoch over period.\<close>

definition cloudDisp_spec :: "EntityCollection \<Rightarrow> real \<Rightarrow> EntityHandle \<Rightarrow> real" where
  "cloudDisp_spec ec epoch h =
     (if hasClouds (getParam ec h) \<and> getPeriod (getClouds (getParam ec h)) \<noteq> 0
      then - fmod (epoch / getPeriod (getClouds (getParam ec h))) 1
      else 0)"

subsection \<open>Texture-load bodies (lines 968-987)\<close>

definition getTexLoadBodies ::
    "nat \<Rightarrow> EntityCollection \<Rightarrow> EntityHandle \<Rightarrow> EntityHandle list option" where
  "getTexLoadBodies fuel ec focusedEntity =
     (case getAllParents ec focusedEntity of
        None \<Rightarrow> None
      | Some parents \<Rightarrow>
          (case getAllChildren fuel ec (getParent ec focusedEntity) of
             None \<Rightarrow> None
           | Some siblings \<Rightarrow>
               Some (filter (\<lambda>h. \<not> \<not> isBody (getParam ec h))
                       ([focusedEntity] @ parents @ siblings))))"

subsection \<open>The game state and the window\<close>

text \<open>
  Modelled from the spec: the class \<^verbatim>\<open>Game\<close> and the enum \<^verbatim>\<open>SwitchPhase\<close> are declared in
  \<^verbatim>\<open>game.hpp\<close>, outside \<^verbatim>\<open>src/\<close>. The record holds the members that the modelled
  functions of \<^verbatim>\<open>game.cpp\<close> read and write, under their names. The window is the GLFW
  state the functions poll: the keys and mouse buttons that are down; the key codes are
  those of the GLFW header.
\<close>

datatype SwitchPhase = IDLE | TRACK | MOVE

record Window =
  glfwGetKey :: "int \<Rightarrow> bool"
  glfwGetMouseButton :: "int \<Rightarrow> bool"

definition GLFW_KEY_K :: int where "GLFW_KEY_K = 75"
definition GLFW_KEY_L :: int where "GLFW_KEY_L = 76"
definition GLFW_KEY_B :: int where "GLFW_KEY_B = 66"
definition GLFW_KEY_W :: int where "GLFW_KEY_W = 87"
definition GLFW_KEY_TAB :: int where "GLFW_KEY_TAB = 258"
definition GLFW_KEY_F5 :: int where "GLFW_KEY_F5 = 294"
definition GLFW_KEY_F12 :: int where "GLFW_KEY_F12 = 301"
definition GLFW_KEY_LEFT_SHIFT :: int where "GLFW_KEY_LEFT_SHIFT = 340"
definition GLFW_MOUSE_BUTTON_1 :: int where "GLFW_MOUSE_BUTTON_1 = 0"
definition GLFW_MOUSE_BUTTON_2 :: int where "GLFW_MOUSE_BUTTON_2 = 1"

record Game =
  entityCollection :: EntityCollection
  focusedBodyId :: int
  bodyNameId :: int
  bodyNameFade :: real
  epoch :: real
  timeWarpIndex :: int
  timeWarpValues :: "real list"
  wireframe :: bool
  bloom :: bool
  viewPos :: vec3
  viewFovy :: real
  viewDir :: mat3
  viewPolar :: vec3
  viewSpeed :: vec3
  panPolar :: vec2
  maxViewSpeed :: real
  viewSmoothness :: real
  sensitivity :: real
  preMousePosX :: real
  preMousePosY :: real
  dragging :: bool
  switchPhase :: SwitchPhase
  switchTime :: real
  switchPreviousBodyId :: int
  switchPreviousViewDir :: mat3
  switchNewViewPolar :: vec3
  keysHeld :: "int \<Rightarrow> bool"

text \<open>Lines 641-663.\<close>

definition getFocusedBody :: "Game \<Rightarrow> EntityHandle" where
  "getFocusedBody g = getBodies (entityCollection g) ! nat (focusedBodyId g)"

definition getDisplayedBody :: "Game \<Rightarrow> EntityHandle" where
  "getDisplayedBody g = getBodies (entityCollection g) ! nat (bodyNameId g)"

definition getPreviousBody :: "Game \<Rightarrow> EntityHandle" where
  "getPreviousBody g = getBodies (entityCollection g) ! nat (switchPreviousBodyId g)"

definition chooseNextBody :: "bool \<Rightarrow> Game \<Rightarrow> int" where
  "chooseNextBody direction g =
     (let id = focusedBodyId g + (if direction then 1 else - 1);
          size = int (length (getBodies (entityCollection g)))
      in if id < 0 then id + size
         else if id \<ge> size then id - size
         else id)"

text \<open>The radius of a body and the position of its state, as the camera reads them.\<close>

definition bodyRadius :: "Game \<Rightarrow> EntityHandle \<Rightarrow> real" where
  "bodyRadius g h = getRadius (getModel (getParam (entityCollection g) h))"

definition bodyPosition :: "Game \<Rightarrow> EntityHandle \<Rightarrow> vec3" where
  "bodyPosition g h = getPosition (getState (entityCollection g) h)"

subsection \<open>\<^verbatim>\<open>Game::updateIdle\<close> (lines 665-803)\<close>

text \<open>The function is embedded in the order of its blocks. Lines 667-698: the mouse drag.\<close>

definition clampSpeed :: "real \<Rightarrow> real \<Rightarrow> real" where
  "clampSpeed m v = (let v1 = (if v > m then m else v) in if v1 < - m then - m else v1)"

definition dragView :: "Window \<Rightarrow> real \<Rightarrow> real \<Rightarrow> Game \<Rightarrow> Game" where
  "dragView win posX posY g =
     (let move = Vec2 (- posX + preMousePosX g) (posY - preMousePosY g);
          mouseButton1 = glfwGetMouseButton win GLFW_MOUSE_BUTTON_1;
          mouseButton2 = glfwGetMouseButton win GLFW_MOUSE_BUTTON_2;
          g1 = (if (mouseButton1 \<or> mouseButton2) \<and> \<not> dragging g then g\<lparr>dragging := True\<rparr>
                else if dragging g \<and> \<not> (mouseButton1 \<or> mouseButton2) then g\<lparr>dragging := False\<rparr>
                else g)
      in if dragging g1 then
           (if mouseButton1 then
              g1\<lparr>viewSpeed :=
                   Vec3 (clampSpeed (maxViewSpeed g1) (vx (viewSpeed g1) + v2x move * sensitivity g1))
                        (clampSpeed (maxViewSpeed g1) (vy (viewSpeed g1) + v2y move * sensitivity g1))
                        (vz (viewSpeed g1))\<rparr>
            else if mouseButton2 then
              g1\<lparr>panPolar := panPolar g1 + smul2 (sensitivity g1 * viewFovy g1) move\<rparr>
            else g1)
         else g1)"

text \<open>Lines 700-739, statement by statement: the polar position advances by the speed and
  the speed decays (702-706), the elevation is clamped from above (710-714) and from
  below (715-719), the distance from below (720), the pan from above (722-725) and from
  below (726-729), and the view position and orientation are rebuilt (731-739).
  \<open>radius\<close> is the local of line 700.\<close>

definition maxVerticalAngle :: real where
  "maxVerticalAngle = pi / 2 - 0.001"

definition advanceView :: "real \<Rightarrow> Game \<Rightarrow> Game" where
  "advanceView radius g =
     g\<lparr>viewPolar := Vec3 (vx (viewPolar g) + vx (viewSpeed g))
                         (vy (viewPolar g) + vy (viewSpeed g))
                         (vz (viewPolar g) + vz (viewSpeed g) * max 0.01 (vz (viewPolar g) - radius)),
       viewSpeed := smul (viewSmoothness g) (viewSpeed g)\<rparr>"

definition clampElevationUp :: "Game \<Rightarrow> Game" where
  "clampElevationUp g =
     (if vy (viewPolar g) > maxVerticalAngle
      then g\<lparr>viewPolar := Vec3 (vx (viewPolar g)) maxVerticalAngle (vz (viewPolar g)),
             viewSpeed := Vec3 (vx (viewSpeed g)) 0 (vz (viewSpeed g))\<rparr>
      else g)"

definition clampElevationDown :: "Game \<Rightarrow> Game" where
  "clampElevationDown g =
     (if vy (viewPolar g) < - maxVerticalAngle
      then g\<lparr>viewPolar := Vec3 (vx (viewPolar g)) (- maxVerticalAngle) (vz (viewPolar g)),
             viewSpeed := Vec3 (vx (viewSpeed g)) 0 (vz (viewSpeed g))\<rparr>
      else g)"

definition clampDistance :: "real \<Rightarrow> Game \<Rightarrow> Game" where
  "clampDistance radius g =
     (if vz (viewPolar g) < radius
      then g\<lparr>viewPolar := Vec3 (vx (viewPolar g)) (vy (viewPolar g)) radius\<rparr>
      else g)"

definition clampPanUp :: "Game \<Rightarrow> Game" where
  "clampPanUp g =
     (if vy (viewPolar g) + v2y (panPolar g) > maxVerticalAngle
      then g\<lparr>panPolar := Vec2 (v2x (panPolar g)) (maxVerticalAngle - vy (viewPolar g))\<rparr>
      else g)"

definition clampPanDown :: "Game \<Rightarrow> Game" where
  "clampPanDown g =
     (if vy (viewPolar g) + v2y (panPolar g) < - maxVerticalAngle
      then g\<lparr>panPolar := Vec2 (v2x (panPolar g)) (- maxVerticalAngle - vy (viewPolar g))\<rparr>
      else g)"

definition placeView :: "Game \<Rightarrow> Game" where
  "placeView g =
     (let relViewPos = smul (vz (viewPolar g)) (polarToCartesian (vec2_of (viewPolar g)));
          direction = - polarToCartesian (vec2_of (viewPolar g) + panPolar g)
      in g\<lparr>viewPos := relViewPos + bodyPosition g (getFocusedBody g),
           viewDir := lookAt 0 direction (Vec3 0 0 1)\<rparr>)"

definition moveView :: "real \<Rightarrow> Game \<Rightarrow> Game" where
  "moveView radius g =
     placeView (clampPanDown (clampPanUp (clampDistance radius
       (clampElevationDown (clampElevationUp (advanceView radius g))))))"

text \<open>Lines 741-749: time warping.\<close>

definition timeWarping :: "Window \<Rightarrow> Game \<Rightarrow> Game" where
  "timeWarping win g =
     (let (pressedK, held1) = isPressedOnce (glfwGetKey win) (keysHeld g) GLFW_KEY_K;
          g1 = g\<lparr>keysHeld := held1\<rparr>;
          g2 = (if pressedK then
                  (if timeWarpIndex g1 > 0 then g1\<lparr>timeWarpIndex := timeWarpIndex g1 - 1\<rparr> else g1)
                else g1);
          (pressedL, held2) = isPressedOnce (glfwGetKey win) (keysHeld g2) GLFW_KEY_L;
          g3 = g2\<lparr>keysHeld := held2\<rparr>
      in if pressedL then
           (if timeWarpIndex g3 < int (length (timeWarpValues g3)) - 1
            then g3\<lparr>timeWarpIndex := timeWarpIndex g3 + 1\<rparr> else g3)
         else g3)"

text \<open>Lines 768-801, the ray test: the polar coordinates the TRACK phase will interpolate
  to. \<open>radius\<close> and \<open>relViewPos\<close> are the locals of lines 700 and 732; \<open>target\<close> is the local
  of line 771.\<close>

definition rayTest :: "vec3 \<Rightarrow> real \<Rightarrow> vec3 \<Rightarrow> vec3 \<Rightarrow> vec3" where
  "rayTest viewPolar0 radius relViewPos target =
     (let targetDir = normalize (target - relViewPos);
          b = dot relViewPos targetDir
      in if b < 0 then
           (let closestPoint = relViewPos - smul b targetDir;
                closestDist = length3 closestPoint;
                closestMinDist = radius * 1.1
            in if closestDist < closestMinDist then
                 (let tangent = normalize closestPoint;
                      totalDist = length3 (target - relViewPos);
                      targetClosestDist = length3 (target - smul closestMinDist tangent);
                      tangentCoef = totalDist * (closestMinDist - closestDist) / targetClosestDist;
                      newRelPos = smul (vz viewPolar0) (polarToCartesian (vec2_of viewPolar0))
                                  + smul tangentCoef tangent;
                      newDist = length3 newRelPos;
                      newRelDir = - normalize newRelPos
                  in Vec3 (atan2 (- vy newRelDir) (- vx newRelDir)) (arcsin (- vz newRelDir)) newDist)
               else viewPolar0)
         else viewPolar0)"

text \<open>Lines 755-802: switching.\<close>

definition switching :: "Window \<Rightarrow> real \<Rightarrow> vec3 \<Rightarrow> Game \<Rightarrow> Game" where
  "switching win radius relViewPos g =
     (let (pressedTab, held1) = isPressedOnce (glfwGetKey win) (keysHeld g) GLFW_KEY_TAB;
          g1 = g\<lparr>keysHeld := held1\<rparr>
      in if pressedTab then
           (let g2 = g1\<lparr>switchPhase := TRACK, switchPreviousBodyId := focusedBodyId g1\<rparr>;
                direction = \<not> glfwGetKey win GLFW_KEY_LEFT_SHIFT;
                g3 = g2\<lparr>focusedBodyId := chooseNextBody direction g2\<rparr>;
                g4 = g3\<lparr>timeWarpIndex := 0, switchPreviousViewDir := viewDir g3,
                        switchNewViewPolar := viewPolar g3\<rparr>;
                target = bodyPosition g4 (getFocusedBody g4) - bodyPosition g4 (getPreviousBody g4)
            in g4\<lparr>switchNewViewPolar := rayTest (viewPolar g4) radius relViewPos target\<rparr>)
         else g1)"

definition updateIdle :: "Window \<Rightarrow> real \<Rightarrow> real \<Rightarrow> real \<Rightarrow> Game \<Rightarrow> Game" where
  "updateIdle win dt posX posY g =
     (let g1 = dragView win posX posY g;
          radius = bodyRadius g1 (getFocusedBody g1);
          g2 = moveView radius g1;
          relViewPos = smul (vz (viewPolar g2)) (polarToCartesian (vec2_of (viewPolar g2)));
          g3 = timeWarping win g2;
          g4 = g3\<lparr>bodyNameId := focusedBodyId g3, bodyNameFade := 1\<rparr>
      in switching win radius relViewPos g4)"

subsection \<open>\<^verbatim>\<open>Game::updateTrack\<close> (lines 816-869)\<close>

text \<open>The wrap of an angle difference to the shortest path (lines 828-829 with margin 0,
  lines 851-852 with margin 0.001).\<close>

definition wrapAngle :: "real \<Rightarrow> real \<Rightarrow> real" where
  "wrapAngle margin d =
     (if d < - pi + margin then d + 2 * pi
      else if d > pi - margin then d - 2 * pi
      else d)"

text \<open>The locals of lines 819-859, as functions of the state: the interpolated polar
  position, the view position, and the interpolated aim direction.\<close>

definition trackInterpPolar :: "Game \<Rightarrow> vec3" where
  "trackInterpPolar g =
     (let totalTime = 1;
          t = min 1 (switchTime g / totalTime);
          f = ease t;
          posDeltaTheta = wrapAngle 0 (vx (switchNewViewPolar g) - vx (viewPolar g))
      in smul (1 - f) (viewPolar g)
         + smul f (Vec3 (vx (viewPolar g) + posDeltaTheta)
                        (vy (switchNewViewPolar g)) (vz (switchNewViewPolar g))))"

definition trackViewPos :: "Game \<Rightarrow> vec3" where
  "trackViewPos g =
     bodyPosition g (getPreviousBody g)
     + smul (vz (trackInterpPolar g)) (polarToCartesian (vec2_of (trackInterpPolar g)))"

definition trackDir :: "Game \<Rightarrow> vec3" where
  "trackDir g =
     (let totalTime = 1;
          t = min 1 (switchTime g / totalTime);
          f = ease t;
          targetDir = normalize (bodyPosition g (getFocusedBody g) - trackViewPos g);
          targetPhi = arcsin (vz targetDir);
          targetTheta = atan2 (vy targetDir) (vx targetDir);
          sourceDir = - col2 (transpose3 (switchPreviousViewDir g));
          sourcePhi = arcsin (vz sourceDir);
          sourceTheta = atan2 (vy sourceDir) (vx sourceDir);
          deltaTheta = wrapAngle 0.001 (targetTheta - sourceTheta);
          phi = f * targetPhi + (1 - f) * sourcePhi;
          theta = f * (sourceTheta + deltaTheta) + (1 - f) * sourceTheta
      in polarToCartesian (Vec2 theta phi))"

definition updateTrack :: "real \<Rightarrow> Game \<Rightarrow> Game" where
  "updateTrack dt g =
     (let totalTime = 1;
          t = min 1 (switchTime g / totalTime);
          interpPolar = trackInterpPolar g;
          g1 = g\<lparr>bodyNameId := switchPreviousBodyId g,
                  bodyNameFade := clamp (1 - t * 2) 0 1,
                  viewPos := trackViewPos g,
                  viewDir := lookAt 0 (trackDir g) (Vec3 0 0 1),
                  switchTime := switchTime g + dt\<rparr>
      in if switchTime g1 > totalTime
         then g1\<lparr>switchPhase := MOVE, switchTime := 0, viewPolar := interpPolar\<rparr>
         else g1)"

subsection \<open>\<^verbatim>\<open>Game::updateMove\<close> (lines 871-910)\<close>

text \<open>The locals of lines 882-893, as functions of the state.\<close>

definition moveSourcePos :: "Game \<Rightarrow> vec3" where
  "moveSourcePos g =
     bodyPosition g (getPreviousBody g)
     + smul (vz (viewPolar g)) (polarToCartesian (vec2_of (viewPolar g)))"

definition moveTargetDist :: "Game \<Rightarrow> real" where
  "moveTargetDist g = max (4 * bodyRadius g (getFocusedBody g)) 1000"

definition moveDirection :: "Game \<Rightarrow> vec3" where
  "moveDirection g = normalize (bodyPosition g (getFocusedBody g) - moveSourcePos g)"

definition moveTargetPos :: "Game \<Rightarrow> vec3" where
  "moveTargetPos g =
     bodyPosition g (getFocusedBody g) - smul (moveTargetDist g) (moveDirection g)"

definition updateMove :: "real \<Rightarrow> Game \<Rightarrow> Game" where
  "updateMove dt g =
     (let totalTime = 1;
          t = min 1 (switchTime g / totalTime);
          f = ease2 t 4;
          sourcePos = moveSourcePos g;
          targetDist = moveTargetDist g;
          direction = moveDirection g;
          targetPos = moveTargetPos g;
          g1 = g\<lparr>bodyNameId := focusedBodyId g,
                  bodyNameFade := clamp ((t - 0.5) * 2) 0 1,
                  viewPos := smul f targetPos + smul (1 - f) sourcePos,
                  viewDir := lookAt 0 direction (Vec3 0 0 1),
                  switchTime := switchTime g + dt\<rparr>
      in if switchTime g1 > totalTime
         then g1\<lparr>switchPhase := IDLE, switchTime := 0,
                 viewPolar := Vec3 (atan2 (- vy direction) (- vx direction))
                                   (arcsin (- vz direction)) targetDist,
                 panPolar := 0, viewSpeed := 0\<rparr>
         else g1)"

subsection \<open>\<^verbatim>\<open>Game::update\<close> (lines 519-634)\<close>

text \<open>
  One frame: the elapsed time, the window, the cursor position, and the entity states
  that lines 523-558 compute for the new epoch (\<open>entityState\<close> above), which line 560
  hands to \<^verbatim>\<open>entityCollection.setState\<close>. \<open>update\<close> advances the epoch, installs the
  states, polls the toggle keys, runs the camera update of the current phase, records
  the cursor position and polls the screenshot and profiler keys. Rendering, the
  screenshot itself and the profiler output are outside the model. \<open>runFrames\<close> is a
  sequence of frames.
\<close>

record Frame =
  frameDt :: real
  frameWindow :: Window
  framePosX :: real
  framePosY :: real
  frameStates :: "nat \<Rightarrow> EntityState"

definition pollToggles :: "Window \<Rightarrow> Game \<Rightarrow> Game" where
  "pollToggles win g =
     (let (pressedW, heldW) = isPressedOnce (glfwGetKey win) (keysHeld g) GLFW_KEY_W;
          g1 = g\<lparr>keysHeld := heldW, wireframe := (if pressedW then \<not> wireframe g else wireframe g)\<rparr>;
          (pressedB, heldB) = isPressedOnce (glfwGetKey win) (keysHeld g1) GLFW_KEY_B
      in g1\<lparr>keysHeld := heldB, bloom := (if pressedB then \<not> bloom g1 else bloom g1)\<rparr>)"

definition pollScreenshotProfiler :: "Window \<Rightarrow> Game \<Rightarrow> Game" where
  "pollScreenshotProfiler win g =
     (let (pressedF12, heldF12) = isPressedOnce (glfwGetKey win) (keysHeld g) GLFW_KEY_F12;
          (pressedF5, heldF5) = isPressedOnce (glfwGetKey win) heldF12 GLFW_KEY_F5
      in g\<lparr>keysHeld := heldF5\<rparr>)"

text \<open>Lines 521-572: what precedes the camera update.\<close>

definition frameStart :: "Frame \<Rightarrow> Game \<Rightarrow> Game" where
  "frameStart fr g =
     pollToggles (frameWindow fr)
       (g\<lparr>epoch := epoch g + timeWarpValues g ! nat (timeWarpIndex g) * frameDt fr,
          entityCollection := setState (entityCollection g) (frameStates fr)\<rparr>)"

text \<open>Lines 578-589: the camera update of the current phase.\<close>

definition updatePhase :: "Frame \<Rightarrow> Game \<Rightarrow> Game" where
  "updatePhase fr g =
     (case switchPhase g of
        IDLE \<Rightarrow> updateIdle (frameWindow fr) (frameDt fr) (framePosX fr) (framePosY fr) g
      | TRACK \<Rightarrow> updateTrack (frameDt fr) g
      | MOVE \<Rightarrow> updateMove (frameDt fr) g)"

text \<open>Lines 591-621: what follows it.\<close>

definition frameEnd :: "Frame \<Rightarrow> Game \<Rightarrow> Game" where
  "frameEnd fr g =
     pollScreenshotProfiler (frameWindow fr)
       (g\<lparr>preMousePosX := framePosX fr, preMousePosY := framePosY fr\<rparr>)"

definition update :: "Frame \<Rightarrow> Game \<Rightarrow> Game" where
  "update fr g = frameEnd fr (updatePhase fr (frameStart fr g))"

fun runFrames :: "Frame list \<Rightarrow> Game \<Rightarrow> Game" where
  "runFrames [] g = g"
| "runFrames (fr # frs) g = runFrames frs (update fr g)"

section \<open>Auxiliary definitions and concrete inputs\<close>

text \<open>The day number of 1 January of a year, counted from 1 January 2017.\<close>

definition year_start :: "int \<Rightarrow> int" where
  "year_start y = (\<Sum>k = 2017..<y. gregorian_year_length k)"

text \<open>A trace of four checks of the TAB key: down, still down, released, down again.\<close>

definition tabTrace :: "((int \<Rightarrow> bool) \<times> int) list" where
  "tabTrace = [(\<lambda>x. x = 258, 258), (\<lambda>x. x = 258, 258), (\<lambda>x. False, 258), (\<lambda>x. x = 258, 258)]"

text \<open>A stand-in for \<^verbatim>\<open>Orbit::computePosition\<close> in concrete hierarchies: the position the
  specification's formulas give on a circular orbit in the reference plane (eccentricity
  and the three orientation angles zero), where the eccentric and the true anomaly are the
  mean anomaly.\<close>

definition circularOrbit :: "Orbit \<Rightarrow> real \<Rightarrow> vec3" where
  "circularOrbit orb t =
     (let M = m0 orb + 2 * pi * t / pr orb
      in Vec3 (sma orb * cos M) (sma orb * sin M) 0)"

definition orbitOf :: "real \<Rightarrow> real \<Rightarrow> Orbit" where
  "orbitOf a p = \<lparr>ecc = 0, sma = a, inc = 0, lan = 0, arg = 0, pr = p, m0 = 0\<rparr>"

definition entityOf :: "string \<Rightarrow> string \<Rightarrow> bool \<Rightarrow> Orbit \<Rightarrow> bool \<Rightarrow> real \<Rightarrow> bool \<Rightarrow> real \<Rightarrow> EntityParam" where
  "entityOf nm parentNm orbiting orb body r cloudy cloudPeriod =
     \<lparr>getName = nm, getDisplayName = nm, getParentName = parentNm,
      hasOrbit = orbiting, getOrbit = orb,
      isBody = body, getModel = \<lparr>getRadius = r, getGM = 1, getRotationPeriod = 86400\<rparr>,
      hasClouds = cloudy, getClouds = \<lparr>getPeriod = cloudPeriod\<rparr>\<rparr>"

definition restState :: "nat \<Rightarrow> EntityState" where
  "restState i = \<lparr>getPosition = 0, getRotationAngle = 0, getCloudDisp = 0\<rparr>"

text \<open>A body with a cloud layer of period 100 s.\<close>

definition cloudyWorld :: EntityCollection where
  "cloudyWorld =
     \<lparr>params = [entityOf ''earth'' [] False (orbitOf 0 1) True 6371 True 100],
      parentOf = (\<lambda>i. None), stateOf = restState\<rparr>"

text \<open>A root that carries an orbit of its own.\<close>

definition driftingRoot :: EntityCollection where
  "driftingRoot =
     \<lparr>params = [entityOf ''sun'' [] True (orbitOf 10 100) True 700 False 0],
      parentOf = (\<lambda>i. None), stateOf = restState\<rparr>"

text \<open>Three levels: a stationary root, A orbiting the root, B orbiting A.\<close>

definition threeLevels :: EntityCollection where
  "threeLevels =
     \<lparr>params = [entityOf ''root'' [] False (orbitOf 0 1) True 700 False 0,
                entityOf ''A'' ''root'' True (orbitOf 10 100) True 6 False 0,
                entityOf ''B'' ''A'' True (orbitOf 2 10) True 1 False 0],
      parentOf = (\<lambda>i. if i = 1 then Some 0 else if i = 2 then Some 1 else None),
      stateOf = restState\<rparr>"

text \<open>A parent with three children, the first of which is focused.\<close>

definition family :: EntityCollection where
  "family =
     \<lparr>params = [entityOf ''P'' [] False (orbitOf 0 1) True 700 False 0,
                entityOf ''F'' ''P'' True (orbitOf 10 100) True 6 False 0,
                entityOf ''S1'' ''P'' True (orbitOf 20 200) True 3 False 0,
                entityOf ''S2'' ''P'' True (orbitOf 30 300) True 4 False 0],
      parentOf = (\<lambda>i. if i = 0 then None else Some 0),
      stateOf = restState\<rparr>"

text \<open>A step that writes only the five view members of the game.\<close>

definition viewOnly :: "Game \<Rightarrow> Game \<Rightarrow> bool" where
  "viewOnly g g' \<longleftrightarrow>
     g' = g\<lparr>viewPolar := viewPolar g', viewSpeed := viewSpeed g', panPolar := panPolar g',
            viewPos := viewPos g', viewDir := viewDir g'\<rparr>"

text \<open>The geometry of the ray test, in the frame of the previously focused body (its centre
  is the origin): for a camera at \<open>rel\<close> looking at \<open>target\<close>, the parameter along the line
  of sight of the point closest to the origin (positive: in front of the camera), that
  point, its distance from the origin, and the lateral shift by similar triangles for a
  clearance \<open>rmin\<close>. \<open>cartesianToPolar\<close> is the polar form (azimuth, elevation, distance)
  of a position; \<open>forward\<close> is the aim direction of an orientation matrix.\<close>

definition closestParam :: "vec3 \<Rightarrow> vec3 \<Rightarrow> real" where
  "closestParam rel target = - dot rel (normalize (target - rel))"

definition closestPoint :: "vec3 \<Rightarrow> vec3 \<Rightarrow> vec3" where
  "closestPoint rel target = rel + smul (closestParam rel target) (normalize (target - rel))"

definition closestApproach :: "vec3 \<Rightarrow> vec3 \<Rightarrow> real" where
  "closestApproach rel target = length3 (closestPoint rel target)"

definition thalesCoef :: "vec3 \<Rightarrow> vec3 \<Rightarrow> real \<Rightarrow> real" where
  "thalesCoef rel target rmin =
     length3 (target - rel) * (rmin - closestApproach rel target)
     / length3 (target - smul rmin (normalize (closestPoint rel target)))"

definition cartesianToPolar :: "vec3 \<Rightarrow> vec3" where
  "cartesianToPolar v =
     Vec3 (atan2 (vy (normalize v)) (vx (normalize v))) (arcsin (vz (normalize v))) (length3 v)"

definition forward :: "mat3 \<Rightarrow> vec3" where
  "forward m = - col2 (transpose3 m)"

definition elapsed :: "Frame list \<Rightarrow> real" where
  "elapsed frs = sum_list (map frameDt frs)"

text \<open>Two bodies: the first, a root of radius 1, at the origin; the second, of radius 3,
  in orbit around the first, at the moment at (-11, 12, 0). The camera rests at distance
  5 on the x axis of the first body, which is focused; the line of sight to the second
  body passes the centre of the first at distance 3.\<close>

definition twoBodiesState :: "nat \<Rightarrow> EntityState" where
  "twoBodiesState i =
     \<lparr>getPosition = (if i = 1 then Vec3 (- 11) 12 0 else 0), getRotationAngle = 0, getCloudDisp = 0\<rparr>"

definition twoBodies :: EntityCollection where
  "twoBodies =
     \<lparr>params = [entityOf ''first'' [] False (orbitOf 0 1) True 1 False 0,
                entityOf ''second'' ''first'' True (orbitOf 20 100) True 3 False 0],
      parentOf = (\<lambda>i. if i = 1 then Some 0 else None), stateOf = twoBodiesState\<rparr>"

definition restGame :: Game where
  "restGame =
     \<lparr>entityCollection = twoBodies, focusedBodyId = 0, bodyNameId = 0, bodyNameFade = 1,
      epoch = 0, timeWarpIndex = 2, timeWarpValues = [1, 60, 600],
      wireframe = False, bloom = False,
      viewPos = Vec3 5 0 0, viewFovy = 1 / 2,
      viewDir = lookAt 0 (Vec3 (- 1) 0 0) (Vec3 0 0 1),
      viewPolar = Vec3 0 0 5, viewSpeed = 0, panPolar = 0,
      maxViewSpeed = 1 / 5, viewSmoothness = 17 / 20, sensitivity = 1 / 250,
      preMousePosX = 0, preMousePosY = 0, dragging = False,
      switchPhase = IDLE, switchTime = 0, switchPreviousBodyId = 0,
      switchPreviousViewDir = lookAt 0 (Vec3 (- 1) 0 0) (Vec3 0 0 1),
      switchNewViewPolar = Vec3 0 0 5,
      keysHeld = (\<lambda>k. False)\<rparr>"

text \<open>A frame of the given length with the given keys down, no mouse button, the cursor
  at the origin and the two bodies where they are.\<close>

definition frameOf :: "real \<Rightarrow> int list \<Rightarrow> Frame" where
  "frameOf d keys =
     \<lparr>frameDt = d,
      frameWindow = \<lparr>glfwGetKey = (\<lambda>k. k \<in> set keys), glfwGetMouseButton = (\<lambda>b. False)\<rparr>,
      framePosX = 0, framePosY = 0, frameStates = twoBodiesState\<rparr>"

text \<open>The position a frame gives a body.\<close>

definition framePosition :: "Frame \<Rightarrow> EntityHandle \<Rightarrow> vec3" where
  "framePosition fr h = getPosition (frameStates fr (the h))"

text \<open>The camera of \<open>restGame\<close> in the MOVE phase of a switch from the first body to the
  second, and a frame in which the second body is at (-11, -12, 0) instead.\<close>

definition moveGame :: Game where
  "moveGame = restGame\<lparr>focusedBodyId := 1, switchPhase := MOVE\<rparr>"

definition mirroredState :: "nat \<Rightarrow> EntityState" where
  "mirroredState i =
     \<lparr>getPosition = (if i = 1 then Vec3 (- 11) (- 12) 0 else 0), getRotationAngle = 0, getCloudDisp = 0\<rparr>"

definition mirroredFrame :: "real \<Rightarrow> Frame" where
  "mirroredFrame d = (frameOf d [])\<lparr>frameStates := mirroredState\<rparr>"

text \<open>The two bodies with a first body of radius 4, and the resting camera there.\<close>

definition wideBodies :: EntityCollection where
  "wideBodies =
     \<lparr>params = [entityOf ''first'' [] False (orbitOf 0 1) True 4 False 0,
                entityOf ''second'' ''first'' True (orbitOf 20 100) True 3 False 0],
      parentOf = (\<lambda>i. if i = 1 then Some 0 else None), stateOf = twoBodiesState\<rparr>"

definition wideGame :: Game where
  "wideGame = restGame\<lparr>entityCollection := wideBodies\<rparr>"

section \<open>Theorems\<close>

declare to_string_nat.simps [simp del] yearLoop.simps [simp del] monthLoop.simps [simp del]

subsection \<open>Edge-triggered key polling\<close>

lemma isPressedOnce_eq:
  "isPressedOnce w held key = (w key \<and> \<not> held key, held(key := w key))"
  by (auto simp: isPressedOnce_def fun_eq_iff)

lemma heldAfter_snoc:
  "heldAfter (es @ [(w, k)]) held = (heldAfter es held)(k := w k)"
  by (induction es arbitrary: held) (auto simp: isPressedOnce_eq)

lemma heldAfter_take_Suc:
  assumes "n < length es"
  shows "heldAfter (take (Suc n) es) held =
         (heldAfter (take n es) held)(snd (es ! n) := fst (es ! n) (snd (es ! n)))"
proof -
  have "take (Suc n) es = take n es @ [(fst (es ! n), snd (es ! n))]"
    using assms by (simp add: take_Suc_conv_app_nth)
  then show ?thesis by (simp only: heldAfter_snoc)
qed

lemma pollKeys_length: "length (pollKeys es held) = length es"
  by (induction es arbitrary: held) (auto simp: isPressedOnce_eq)

lemma pollKeys_nth:
  "n < length es \<Longrightarrow>
   pollKeys es held ! n =
     (fst (es ! n) (snd (es ! n)) \<and> \<not> heldAfter (take n es) held (snd (es ! n)))"
proof (induction es arbitrary: held n)
  case Nil
  then show ?case by simp
next
  case (Cons e es)
  obtain w k where e: "e = (w, k)" by (cases e)
  show ?case
  proof (cases n)
    case 0
    then show ?thesis by (simp add: e isPressedOnce_eq)
  next
    case (Suc m)
    with Cons.prems have "m < length es" by simp
    from Cons.IH [OF this, of "held(k := w k)"] show ?thesis
      by (simp add: e Suc isPressedOnce_eq fun_upd_def)
  qed
qed

lemma released_between:
  assumes "a \<le> b" "b \<le> length es"
    and "heldAfter (take a es) held k" "\<not> heldAfter (take b es) held k"
  shows "\<exists>m. a \<le> m \<and> m < b \<and> snd (es ! m) = k \<and> \<not> fst (es ! m) k"
  using assms
proof (induction b)
  case 0
  then show ?case by simp
next
  case (Suc b)
  show ?case
  proof (cases "a = Suc b")
    case True
    with Suc.prems show ?thesis by simp
  next
    case False
    with Suc.prems have ab: "a \<le> b" and bl: "b < length es" by simp_all
    show ?thesis
    proof (cases "heldAfter (take b es) held k")
      case True
      with Suc.prems(4) heldAfter_take_Suc [OF bl, of held]
      have "snd (es ! b) = k \<and> \<not> fst (es ! b) k"
        by (auto simp: fun_upd_def split: if_splits)
      with ab show ?thesis by (intro exI [of _ b]) simp
    next
      case False
      with Suc.IH ab bl Suc.prems(3) obtain m where
        "a \<le> m \<and> m < b \<and> snd (es ! m) = k \<and> \<not> fst (es ! m) k" by auto
      then show ?thesis by (intro exI [of _ m]) simp
    qed
  qed
qed

text \<open>
  Claim C9. For every key state, table and key, one check returns true precisely when the
  key is down and the table does not record it as held, and it leaves in the table the
  observed state of that key and changes no other entry. Hence, in any sequence of checks
  (of any keys, interleaved), the table after a check holds what that check saw, the flag
  of a check is "down now and not held according to the last earlier check of the same
  key", and whenever two checks of one key both return true, a check of that key between
  them saw it released.
\<close>

theorem isPressedOnce_edge_triggered:
  "isPressedOnce w h k = (w k \<and> \<not> h k, h(k := w k))
   \<and> length (pollKeys es held) = length es
   \<and> heldAfter (es @ [(w, k)]) held = (heldAfter es held)(k := w k)
   \<and> (\<forall>n<length es. pollKeys es held ! n =
          (fst (es ! n) (snd (es ! n)) \<and> \<not> heldAfter (take n es) held (snd (es ! n))))
   \<and> (\<forall>i j. i < j \<and> j < length es \<and> snd (es ! j) = snd (es ! i)
              \<and> pollKeys es held ! i \<and> pollKeys es held ! j \<longrightarrow>
          (\<exists>m. i < m \<and> m < j \<and> snd (es ! m) = snd (es ! i) \<and> \<not> fst (es ! m) (snd (es ! i))))"
proof -
  have rel: "\<exists>m. i < m \<and> m < j \<and> snd (es ! m) = snd (es ! i) \<and> \<not> fst (es ! m) (snd (es ! i))"
    if h: "i < j \<and> j < length es \<and> snd (es ! j) = snd (es ! i)
              \<and> pollKeys es held ! i \<and> pollKeys es held ! j" for i j
  proof -
    from h have ij: "i < j" and jl: "j < length es" and key: "snd (es ! j) = snd (es ! i)"
      and fi: "pollKeys es held ! i" and fj: "pollKeys es held ! j" by simp_all
    have il: "i < length es" using ij jl by simp
    from fi pollKeys_nth [OF il, of held] have "fst (es ! i) (snd (es ! i))" by simp
    with heldAfter_take_Suc [OF il, of held]
    have a: "heldAfter (take (Suc i) es) held (snd (es ! i))" by simp
    from fj pollKeys_nth [OF jl, of held] key
    have b: "\<not> heldAfter (take j es) held (snd (es ! i))" by simp
    from released_between [OF _ _ a b] ij jl
    obtain m where "Suc i \<le> m \<and> m < j \<and> snd (es ! m) = snd (es ! i) \<and> \<not> fst (es ! m) (snd (es ! i))"
      by auto
    then show ?thesis by (intro exI [of _ m]) simp
  qed
  show ?thesis
    using rel by (simp add: isPressedOnce_eq pollKeys_length heldAfter_snoc pollKeys_nth)
qed

text \<open>The TAB trace: the press fires once, is silent while held, and fires again only after
  the release seen by the third check.\<close>

theorem isPressedOnce_edge_triggered_witness:
  "pollKeys tabTrace (\<lambda>x. False) = [True, False, False, True]
   \<and> (\<exists>m. 0 < m \<and> m < 3 \<and> snd (tabTrace ! m) = 258 \<and> \<not> fst (tabTrace ! m) 258)"
proof -
  have p: "pollKeys tabTrace (\<lambda>x. False) = [True, False, False, True]"
    by (simp add: isPressedOnce_eq tabTrace_def)
  have "(0::nat) < 3 \<and> 3 < length tabTrace \<and> snd (tabTrace ! 3) = snd (tabTrace ! 0)
      \<and> pollKeys tabTrace (\<lambda>x. False) ! 0 \<and> pollKeys tabTrace (\<lambda>x. False) ! 3"
    unfolding p by (simp add: tabTrace_def)
  with isPressedOnce_edge_triggered [of "\<lambda>x. False" "\<lambda>x. False" 0 tabTrace "\<lambda>x. False"]
  have "\<exists>m. 0 < m \<and> m < 3 \<and> snd (tabTrace ! m) = snd (tabTrace ! 0) \<and> \<not> fst (tabTrace ! m) (snd (tabTrace ! 0))"
    by blast
  then have "\<exists>m. 0 < m \<and> m < 3 \<and> snd (tabTrace ! m) = 258 \<and> \<not> fst (tabTrace ! m) 258"
    by (simp add: tabTrace_def)
  with p show ?thesis by simp
qed

subsection \<open>Calendar formatting\<close>

lemma smod_nonneg: "0 \<le> a \<Longrightarrow> 0 < b \<Longrightarrow> (a::int) smod b = a mod b"
  by (simp add: signed_modulo_int_def sgn_if)

lemma sdiv_nonneg: "0 \<le> a \<Longrightarrow> 0 < b \<Longrightarrow> (a::int) sdiv b = a div b"
  by (simp add: signed_divide_int_def sgn_if)

lemma to_int32_id: "- (2 ^ 31) \<le> k \<Longrightarrow> k < 2 ^ 31 \<Longrightarrow> to_int32 k = k"
  by (simp add: to_int32_def int_word_sint)

lemma digit_char: "(k::nat) < 10 \<Longrightarrow> char_of (48 + int k) = ''0123456789'' ! k"
proof -
  assume "k < 10"
  then consider "k = 0" | "k = 1" | "k = 2" | "k = 3" | "k = 4" | "k = 5" | "k = 6" | "k = 7" | "k = 8" | "k = 9"
    by atomize_elim arith
  then show ?thesis
    by cases (simp_all add: char_of_def)
qed

lemma format_two_digits:
  assumes "0 \<le> v" "v < 100"
  shows "format v = two_digits (nat v)"
proof -
  have a: "nat v div 10 < 10" and b: "nat v mod 10 < 10" using assms by auto
  have c: "v sdiv 10 = int (nat v div 10)" "v smod 10 = int (nat v mod 10)"
    using assms by (simp_all add: sdiv_nonneg smod_nonneg zdiv_int zmod_int)
  show ?thesis
    unfolding format_def two_digits_def c
    using digit_char [OF a] digit_char [OF b] by simp
qed

lemma isLeapYear_gregorian: "0 \<le> y \<Longrightarrow> isLeapYear y = gregorian_leap y"
  by (simp add: isLeapYear_def gregorian_leap_def smod_nonneg dvd_eq_mod_eq_0)

lemma monthLength_gregorian: "0 \<le> y \<Longrightarrow> monthLength y = gregorian_month_lengths y"
  by (simp add: monthLength_def gregorian_month_lengths_def isLeapYear_gregorian)

lemma sum_month_lengths: "sum_list (gregorian_month_lengths y) = gregorian_year_length y"
  by (simp add: gregorian_month_lengths_def gregorian_year_length_def)

lemma month_lengths_pos: "m < 12 \<Longrightarrow> 0 < gregorian_month_lengths y ! m"
proof -
  assume "m < 12"
  then consider "m = 0" | "m = 1" | "m = 2" | "m = 3" | "m = 4" | "m = 5" | "m = 6" | "m = 7" | "m = 8" | "m = 9"
    | "m = 10" | "m = 11"
    by atomize_elim arith
  then show ?thesis
    by cases (simp_all add: gregorian_month_lengths_def)
qed

lemma year_start_next:
  "2017 \<le> y \<Longrightarrow> year_start (y + 1) = year_start y + gregorian_year_length y"
proof -
  assume "2017 \<le> y"
  then have "{2017..<y + 1} = insert y {2017..<y}" by auto
  then show ?thesis by (simp add: year_start_def)
qed

lemma yearLoop_invariant:
  "2017 \<le> year \<Longrightarrow> i = year_start year \<Longrightarrow> i \<le> days \<Longrightarrow>
   yearLoop days year i = (y', i') \<Longrightarrow>
   2017 \<le> y' \<and> i' = year_start y' \<and> i' \<le> days \<and> days < i' + gregorian_year_length y'"
proof (induction days year i rule: yearLoop.induct)
  case (1 days year i)
  have leap: "isLeapYear year = gregorian_leap year"
    using "1.prems"(1) by (simp add: isLeapYear_gregorian)
  have len: "365 + (if isLeapYear year then 1 else 0) = gregorian_year_length year"
    by (simp add: leap gregorian_year_length_def)
  show ?case
  proof (cases "i + gregorian_year_length year \<le> days")
    case True
    then have step: "yearLoop days year i = yearLoop days (year + 1) (i + gregorian_year_length year)"
      by (subst yearLoop.simps) (simp add: len)
    have "2017 \<le> year + 1" using "1.prems"(1) by simp
    moreover have "i + gregorian_year_length year = year_start (year + 1)"
      using "1.prems"(1,2) by (simp add: year_start_next)
    moreover note True
    moreover have "yearLoop days (year + 1) (i + gregorian_year_length year) = (y', i')"
      using step "1.prems"(4) by simp
    ultimately show ?thesis
      using "1.IH" [of "gregorian_year_length year"] len True by simp
  next
    case False
    then have "yearLoop days year i = (year, i)"
      by (subst yearLoop.simps) (simp add: len)
    with "1.prems" False show ?thesis by simp
  qed
qed

lemma monthLoop_invariant:
  "length ml = 12 \<Longrightarrow> j = sum_list (take month ml) \<Longrightarrow> j \<le> r \<Longrightarrow> r < sum_list ml \<Longrightarrow>
   \<exists>j' m'. monthLoop ml r j month = Some (j', m') \<and> m' < 12 \<and> j' = sum_list (take m' ml)
          \<and> j' \<le> r \<and> r < j' + ml ! m'"
proof (induction ml r j month rule: monthLoop.induct)
  case (1 ml r j month)
  have lt: "month < 12"
  proof (rule ccontr)
    assume "\<not> month < 12"
    then have "take month ml = ml" using "1.prems"(1) by simp
    with "1.prems" show False by simp
  qed
  then have inl: "month < length ml" using "1.prems"(1) by simp
  have nxt: "sum_list (take (month + 1) ml) = j + ml ! month"
    using inl "1.prems"(2) by (simp add: take_Suc_conv_app_nth)
  show ?case
  proof (cases "j + ml ! month \<le> r")
    case True
    then have step: "monthLoop ml r j month = monthLoop ml r (j + ml ! month) (month + 1)"
      using inl by (subst monthLoop.simps) simp
    from "1.IH" [OF inl refl True "1.prems"(1) nxt [symmetric] True "1.prems"(4)]
    show ?thesis by (simp only: step)
  next
    case False
    then have "monthLoop ml r j month = Some (j, month)"
      using inl by (subst monthLoop.simps) simp
    with False lt "1.prems" show ?thesis by simp
  qed
qed

lemma getFormattedTime_examples:
  "getFormattedTime 0 = Some ''Jan. 1 2017 00:00:00 UTC''"
  "getFormattedTime (365 * 86400) = Some ''Jan. 1 2018 00:00:00 UTC''"
  "getFormattedTime (1154 * 86400) = Some ''Feb. 29 2020 00:00:00 UTC''"
  "getFormattedTime (1155 * 86400) = Some ''Mar. 1 2020 00:00:00 UTC''"
  by code_simp+

text \<open>
  Claim C7, as amended. For an epoch from the reference instant on (and below the day
  count at which the 32-bit day arithmetic of the code would overflow), the string is
  \<^verbatim>\<open><Mon>. <day> <year> HH:MM:SS UTC\<close>, where year, month and day are a valid date of the
  Gregorian calendar from 2017 on whose day number, counted from 1 January 2017 with
  the leap-year rule and the twelve month lengths, is the epoch's day count, and hour,
  minute and second are zero-padded to two digits. Epoch 0 is 1 January 2017, 365 days
  later is 1 January 2018, and day 1154 is 29 February 2020, followed by 1 March.
\<close>

theorem getFormattedTime_calendar:
  assumes "0 \<le> e" and "e < 86400 * (2 ^ 31 - 366)"
  shows "(\<exists>y m d. 2017 \<le> y \<and> m < 12 \<and> 1 \<le> d \<and> d \<le> gregorian_month_lengths y ! m
            \<and> days_since_2017 y m d = e div 86400
            \<and> getFormattedTime e =
                Some (monthNames ! m @ ''. '' @ to_string d @ '' '' @ to_string y @ '' '' @
                      two_digits (nat ((e div 3600) mod 24)) @ '':'' @
                      two_digits (nat ((e div 60) mod 60)) @ '':'' @
                      two_digits (nat (e mod 60)) @ '' UTC''))
       \<and> getFormattedTime 0 = Some ''Jan. 1 2017 00:00:00 UTC''
       \<and> getFormattedTime (365 * 86400) = Some ''Jan. 1 2018 00:00:00 UTC''
       \<and> getFormattedTime (1154 * 86400) = Some ''Feb. 29 2020 00:00:00 UTC''
       \<and> getFormattedTime (1155 * 86400) = Some ''Mar. 1 2020 00:00:00 UTC''"
proof -
  define days where "days = e div 86400"
  have days0: "0 \<le> days" and daysB: "days < 2 ^ 31 - 366"
    using assms by (simp_all add: days_def div_less_iff_less_mult pos_imp_zdiv_nonneg_iff)
  have sec: "to_int32 (e smod 60) = e mod 60"
    using assms(1) by (simp add: smod_nonneg to_int32_id)
  have mins: "to_int32 ((e sdiv 60) smod 60) = (e div 60) mod 60"
    using assms(1) by (simp add: smod_nonneg sdiv_nonneg to_int32_id pos_imp_zdiv_nonneg_iff)
  have hrs: "to_int32 ((e sdiv 3600) smod 24) = (e div 3600) mod 24"
    using assms(1) by (simp add: smod_nonneg sdiv_nonneg to_int32_id pos_imp_zdiv_nonneg_iff)
  have dys: "to_int32 (e sdiv 86400) = days"
    using assms(1) days0 daysB by (simp add: sdiv_nonneg to_int32_id days_def)
  obtain y i where yl: "yearLoop days 2017 0 = (y, i)" by (cases "yearLoop days 2017 0")
  have "2017 \<le> y \<and> i = year_start y \<and> i \<le> days \<and> days < i + gregorian_year_length y"
    using yearLoop_invariant [OF _ _ days0 yl] by (simp add: year_start_def)
  then have y17: "2017 \<le> y" and i: "i = year_start y" and ile: "i \<le> days"
    and dlt: "days < i + gregorian_year_length y" by simp_all
  have ml: "monthLength y = gregorian_month_lengths y"
    using y17 by (simp add: monthLength_gregorian)
  have len: "length (gregorian_month_lengths y) = 12"
    by (simp add: gregorian_month_lengths_def)
  obtain j m where mo: "monthLoop (gregorian_month_lengths y) (days - i) 0 0 = Some (j, m)"
    and m12: "m < 12" and j: "j = sum_list (take m (gregorian_month_lengths y))"
    and jle: "j \<le> days - i" and rlt: "days - i < j + gregorian_month_lengths y ! m"
    using monthLoop_invariant [OF len, of 0 0 "days - i"] ile dlt
    by (auto simp: sum_month_lengths)
  define d where "d = days - i - j + 1"
  have "days_since_2017 y m d = days"
    by (simp add: days_since_2017_def d_def i j year_start_def)
  moreover have "1 \<le> d" "d \<le> gregorian_month_lengths y ! m"
    using jle rlt by (simp_all add: d_def)
  moreover have "getFormattedTime e =
      Some (monthNames ! m @ ''. '' @ to_string d @ '' '' @ to_string y @ '' '' @
            two_digits (nat ((e div 3600) mod 24)) @ '':'' @
            two_digits (nat ((e div 60) mod 60)) @ '':'' @
            two_digits (nat (e mod 60)) @ '' UTC'')"
    using m12
    by (simp add: getFormattedTime_def sec mins hrs dys yl ml mo d_def format_two_digits
        monthNames_def)
  ultimately show ?thesis
    using y17 m12 getFormattedTime_examples unfolding days_def by blast
qed

text \<open>At 01:02:03 on day 1154.\<close>

theorem getFormattedTime_calendar_witness:
  "getFormattedTime 99709323 = Some ''Feb. 29 2020 01:02:03 UTC''
   \<and> (\<exists>y m d. 2017 \<le> y \<and> m < 12 \<and> 1 \<le> d \<and> d \<le> gregorian_month_lengths y ! m
            \<and> days_since_2017 y m d = 1154
            \<and> getFormattedTime 99709323 =
                Some (monthNames ! m @ ''. '' @ to_string d @ '' '' @ to_string y @ '' '' @
                      two_digits 1 @ '':'' @ two_digits 2 @ '':'' @ two_digits 3 @ '' UTC''))"
proof -
  have a: "getFormattedTime 99709323 = Some ''Feb. 29 2020 01:02:03 UTC''" by code_simp
  from getFormattedTime_calendar [of 99709323] a show ?thesis by simp
qed

text \<open>
  Claim C7 as stated, for every epoch, fails one second before the reference instant: C's
  remainder is negative there, the seconds field is the characters \<^verbatim>\<open>0/\<close> instead of
  \<^verbatim>\<open>59\<close>, and the date stays 1 January 2017.
\<close>

theorem getFormattedTime_negative_epoch:
  "getFormattedTime (- 1) = Some ''Jan. 1 2017 00:00:0/ UTC''
   \<and> format (- 1) = ''0/'' \<and> format (- 1) \<noteq> two_digits 59"
  by code_simp

subsection \<open>Entity state\<close>

lemma getParent_None [simp]: "getParent ec None = None"
  by (simp add: getParent_def)

lemma getAllParentsLoop_chain:
  "ancestorChain ec h ps \<Longrightarrow> getAllParentsLoop ec h acc = Some (acc @ ps)"
proof (induction arbitrary: acc rule: ancestorChain.induct)
  case (root ec h)
  then show ?case
    by (subst getAllParentsLoop.simps) (simp add: handleExists_def)
next
  case (step ec h p ps)
  have "getAllParentsLoop ec h acc = getAllParentsLoop ec (Some p) (acc @ [Some p])"
    using step.hyps(1) by (subst getAllParentsLoop.simps) (simp add: handleExists_def Let_def)
  with step.IH [of "acc @ [Some p]"] show ?case by simp
qed

lemma getAllParents_chain: "ancestorChain ec h ps \<Longrightarrow> getAllParents ec h = Some ps"
  by (simp add: getAllParents_def getAllParentsLoop_chain)

lemma absPositionLoop_chain:
  "ancestorChain ec h ps \<Longrightarrow>
   absPositionLoop cp ec t (getParent ec h) a =
     Some (a + sum_list (map (relativePositions cp ec t) ps))"
proof (induction arbitrary: a rule: ancestorChain.induct)
  case (root ec h)
  then show ?case
    by (subst absPositionLoop.simps) (simp add: handleExists_def)
next
  case (step ec h p ps)
  have "absPositionLoop cp ec t (getParent ec h) a =
        absPositionLoop cp ec t (getParent ec (Some p)) (a + relativePositions cp ec t (Some p))"
    using step.hyps(1) by (subst absPositionLoop.simps) (simp add: handleExists_def)
  with step.IH [of "a + relativePositions cp ec t (Some p)"] show ?case
    by (simp add: add.assoc)
qed

lemma ancestorChain_parent:
  "ancestorChain ec h ps \<Longrightarrow> getParent ec h = Some p \<Longrightarrow>
   \<exists>qs. ps = Some p # qs \<and> ancestorChain ec (Some p) qs"
  by (induction rule: ancestorChain.induct) auto

text \<open>
  Claim C8, as amended. In the state update of a frame, the relative position of an
  entity is \<^verbatim>\<open>computePosition(epoch)\<close> of its orbit if it has a parent and an orbit, and the
  zero vector otherwise; for an entity with a finite chain of ancestors the loop returns,
  and the absolute position is the relative position plus the sum of the relative
  positions of all ancestors up to the root; hence the absolute position of an entity
  with a parent is the parent's absolute position plus its own relative position, at
  every epoch (B against A in a hierarchy root, A, B).
\<close>

theorem absPosition_accumulates:
  assumes "ancestorChain ec h ps"
  shows "relativePositions cp ec t h =
           (if handleExists (getParent ec h) \<and> hasOrbit (getParam ec h)
            then cp (getOrbit (getParam ec h)) t else 0)
       \<and> absPosition cp ec t h =
           Some (relativePositions cp ec t h + sum_list (map (relativePositions cp ec t) ps))
       \<and> (\<forall>p. getParent ec h = Some p \<longrightarrow>
            (\<exists>a. absPosition cp ec t (Some p) = Some a
                \<and> absPosition cp ec t h = Some (a + relativePositions cp ec t h)))"
proof -
  have one: "relativePositions cp ec t h =
           (if handleExists (getParent ec h) \<and> hasOrbit (getParam ec h)
            then cp (getOrbit (getParam ec h)) t else 0)"
    by (simp add: relativePositions_def)
  have two: "absPosition cp ec t h =
           Some (relativePositions cp ec t h + sum_list (map (relativePositions cp ec t) ps))"
    using absPositionLoop_chain [OF assms] by (simp add: absPosition_def)
  have three: "\<exists>a. absPosition cp ec t (Some p) = Some a
                \<and> absPosition cp ec t h = Some (a + relativePositions cp ec t h)"
    if "getParent ec h = Some p" for p
  proof -
    from ancestorChain_parent [OF assms that] obtain qs where
      ps: "ps = Some p # qs" and ch: "ancestorChain ec (Some p) qs" by blast
    have "absPosition cp ec t (Some p) =
        Some (relativePositions cp ec t (Some p) + sum_list (map (relativePositions cp ec t) qs))"
      using absPositionLoop_chain [OF ch] by (simp add: absPosition_def)
    with two ps show ?thesis by (simp add: add.commute add.left_commute)
  qed
  from one two three show ?thesis by blast
qed

lemma threeLevels_chain: "ancestorChain threeLevels (Some 2) [Some 1, Some 0]"
  by (intro ancestorChain.intros) (simp_all add: getParent_def threeLevels_def)

text \<open>The three-level hierarchy at epoch 0, with A at distance 10 from the root and B at
  distance 2 from A.\<close>

theorem absPosition_accumulates_witness:
  "ancestorChain threeLevels (Some 2) [Some 1, Some 0]
   \<and> relativePositions circularOrbit threeLevels 0 (Some 2) = Vec3 2 0 0
   \<and> absPosition circularOrbit threeLevels 0 (Some 1) = Some (Vec3 10 0 0)
   \<and> absPosition circularOrbit threeLevels 0 (Some 2) = Some (Vec3 12 0 0)"
proof -
  have r0: "relativePositions circularOrbit threeLevels 0 (Some 0) = Vec3 0 0 0"
    by (simp add: relativePositions_def getParent_def threeLevels_def handleExists_def zero_vec3_def)
  have r1: "relativePositions circularOrbit threeLevels 0 (Some 1) = Vec3 10 0 0"
    by (simp add: relativePositions_def getParent_def getParam_def threeLevels_def handleExists_def
        entityOf_def orbitOf_def circularOrbit_def)
  have r2: "relativePositions circularOrbit threeLevels 0 (Some 2) = Vec3 2 0 0"
    by (simp add: relativePositions_def getParent_def getParam_def threeLevels_def handleExists_def
        entityOf_def orbitOf_def circularOrbit_def)
  have c1: "ancestorChain threeLevels (Some 1) [Some 0]"
    by (intro ancestorChain.intros) (simp_all add: getParent_def threeLevels_def)
  have a1: "absPosition circularOrbit threeLevels 0 (Some 1) = Some (Vec3 10 0 0)"
    using absPosition_accumulates [OF c1, of circularOrbit 0, THEN conjunct2, THEN conjunct1]
    by (simp only: list.map sum_list.Cons sum_list.Nil r0 r1) (simp add: plus_vec3_def zero_vec3_def)
  have a2: "absPosition circularOrbit threeLevels 0 (Some 2) = Some (Vec3 12 0 0)"
    using absPosition_accumulates [OF threeLevels_chain, of circularOrbit 0, THEN conjunct2, THEN conjunct1]
    by (simp only: list.map sum_list.Cons sum_list.Nil r0 r1 r2) (simp add: plus_vec3_def zero_vec3_def)
  from threeLevels_chain r2 a1 a2 show ?thesis by (intro conjI)
qed

text \<open>
  Claim C8 as stated fails for a root that carries an orbit: the guard of line 527 gives
  it the zero vector, not the position of its orbit.
\<close>

theorem relativePositions_root_with_orbit:
  "hasOrbit (getParam driftingRoot (Some 0))
   \<and> circularOrbit (getOrbit (getParam driftingRoot (Some 0))) 0 = Vec3 10 0 0
   \<and> relativePositions circularOrbit driftingRoot 0 (Some 0) = Vec3 0 0 0"
  by (simp add: relativePositions_def getParent_def getParam_def driftingRoot_def handleExists_def
        entityOf_def orbitOf_def circularOrbit_def zero_vec3_def)

text \<open>
  Claim C1 at an entity with a cloud layer of period 100 s, at epoch 50 s: the test of
  line 552 returns 0 because the entity has clouds, where the specification asks for the
  negated fractional part of 50/100.
\<close>

theorem cloudDisp_with_clouds:
  "hasClouds (getParam cloudyWorld (Some 0))
   \<and> getPeriod (getClouds (getParam cloudyWorld (Some 0))) = 100
   \<and> cloudDisp cloudyWorld 50 (Some 0) = 0
   \<and> cloudDisp_spec cloudyWorld 50 (Some 0) = - (1 / 2)"
  by (simp add: cloudDisp_def cloudDisp_spec_def getParam_def cloudyWorld_def entityOf_def fmod_def)

subsection \<open>Texture-load bodies\<close>

lemma those_map_Some_iff:
  "those (map f xs) = Some ys \<longleftrightarrow> (\<forall>x\<in>set xs. f x \<noteq> None) \<and> ys = map (\<lambda>x. the (f x)) xs"
proof (induction xs arbitrary: ys)
  case Nil
  then show ?case by auto
next
  case (Cons x xs)
  then show ?case by (cases "f x"; cases "those (map f xs)") auto
qed

lemma those_map_None_iff:
  "those (map f xs) = None \<longleftrightarrow> (\<exists>x\<in>set xs. f x = None)"
proof (cases "those (map f xs)")
  case None
  with those_map_Some_iff [of f xs "map (\<lambda>x. the (f x)) xs"] show ?thesis by auto
next
  case (Some ys)
  with those_map_Some_iff [of f xs ys] show ?thesis by auto
qed

lemma getParent_Some_valid: "getParent ec h = Some p \<Longrightarrow> h \<in> set (getAll ec)"
  by (auto simp: getParent_def getAll_def split: option.splits if_splits)

lemma getChildren_iff: "c \<in> set (getChildren ec (Some p)) \<longleftrightarrow> getParent ec c = Some p"
  using getParent_Some_valid [of ec c p] by (auto simp: getChildren_def)

lemma getAllChildren_Suc:
  "getAllChildren (Suc fuel) ec h = Some cs \<longleftrightarrow>
     (\<forall>c\<in>set (getChildren ec h). getAllChildren fuel ec c \<noteq> None)
     \<and> cs = getChildren ec h @ concat (map (\<lambda>c. the (getAllChildren fuel ec c)) (getChildren ec h))"
  by (auto simp: getAllChildren.simps Let_def those_map_Some_iff those_map_None_iff split: option.splits)

declare getAllChildren.simps [simp del]

lemma getAllChildren_more_fuel:
  "getAllChildren fuel ec h = Some cs \<Longrightarrow> getAllChildren (Suc fuel) ec h = Some cs"
proof (induction fuel arbitrary: h cs)
  case 0
  then show ?case by (simp add: getAllChildren.simps)
next
  case (Suc fuel)
  from Suc.prems [unfolded getAllChildren_Suc]
  have a: "\<forall>c\<in>set (getChildren ec h). getAllChildren fuel ec c \<noteq> None"
    and b: "cs = getChildren ec h @ concat (map (\<lambda>c. the (getAllChildren fuel ec c)) (getChildren ec h))"
    by blast+
  have c: "getAllChildren (Suc fuel) ec c = getAllChildren fuel ec c" if "c \<in> set (getChildren ec h)" for c
    using a that Suc.IH [of c] by (cases "getAllChildren fuel ec c") auto
  have m: "map (\<lambda>c. the (getAllChildren (Suc fuel) ec c)) (getChildren ec h)
      = map (\<lambda>c. the (getAllChildren fuel ec c)) (getChildren ec h)"
    using c by (intro map_cong) simp_all
  have "\<forall>c\<in>set (getChildren ec h). getAllChildren (Suc fuel) ec c \<noteq> None"
    using a c by simp
  with b m show ?case
    by (subst getAllChildren_Suc) (simp only: simp_thms)
qed

lemma getAllChildren_fuel_mono:
  "fuel \<le> fuel' \<Longrightarrow> getAllChildren fuel ec h = Some cs \<Longrightarrow> getAllChildren fuel' ec h = Some cs"
  by (induction rule: dec_induct) (simp_all add: getAllChildren_more_fuel)

lemma isAncestor_below:
  "isAncestor ec c x \<Longrightarrow> getParent ec c = Some p \<Longrightarrow> isAncestor ec (Some p) x"
proof (induction rule: isAncestor.induct)
  case (parent ec h q)
  then show ?case by (blast intro: isAncestor.intros)
next
  case (above ec h q a)
  then show ?case by (blast intro: isAncestor.intros)
qed

lemma isAncestor_via_child:
  "isAncestor ec (Some p) x \<Longrightarrow>
   getParent ec x = Some p \<or> (\<exists>c. getParent ec c = Some p \<and> isAncestor ec c x)"
proof (induction ec "Some p :: nat option" x rule: isAncestor.induct)
  case (parent ec h)
  then show ?case by blast
next
  case (above ec h q)
  then show ?case by (metis isAncestor.intros)
qed

lemma getAllChildren_descendants:
  "getAllChildren fuel ec (Some p) = Some cs \<Longrightarrow> set cs = {c. isAncestor ec (Some p) c}"
proof (induction fuel arbitrary: p cs)
  case 0
  then show ?case by (simp add: getAllChildren.simps)
next
  case (Suc fuel)
  let ?ch = "getChildren ec (Some p)"
  from Suc.prems [unfolded getAllChildren_Suc]
  have a: "\<forall>c\<in>set ?ch. getAllChildren fuel ec c \<noteq> None"
    and b: "cs = ?ch @ concat (map (\<lambda>c. the (getAllChildren fuel ec c)) ?ch)"
    by blast+
  have d: "set (the (getAllChildren fuel ec c)) = {x. isAncestor ec c x}" if "c \<in> set ?ch" for c
  proof -
    from that have "c \<in> set (getAll ec)" by (simp add: getChildren_def)
    then obtain i where c: "c = Some i" by (auto simp: getAll_def)
    from a that obtain ds where "getAllChildren fuel ec c = Some ds" by auto
    with Suc.IH [of i ds] c show ?thesis by simp
  qed
  have "set cs = set ?ch \<union> (\<Union>c\<in>set ?ch. {x. isAncestor ec c x})"
    using d by (auto simp: b)
  also have "\<dots> = {c. isAncestor ec (Some p) c}"
  proof (intro set_eqI iffI)
    fix x assume "x \<in> set ?ch \<union> (\<Union>c\<in>set ?ch. {x. isAncestor ec c x})"
    then show "x \<in> {c. isAncestor ec (Some p) c}"
      by (auto simp: getChildren_iff intro: isAncestor.parent isAncestor_below)
  next
    fix x assume "x \<in> {c. isAncestor ec (Some p) c}"
    then have "isAncestor ec (Some p) x" by simp
    from isAncestor_via_child [OF this]
    show "x \<in> set ?ch \<union> (\<Union>c\<in>set ?ch. {x. isAncestor ec c x})"
      by (auto simp: getChildren_iff)
  qed
  finally show ?case .
qed

lemma ancestorChain_unique:
  "ancestorChain ec h ps \<Longrightarrow> ancestorChain ec h qs \<Longrightarrow> ps = qs"
proof (induction arbitrary: qs rule: ancestorChain.induct)
  case (root ec h)
  then show ?case by (auto elim: ancestorChain.cases)
next
  case (step ec h p ps)
  from step.prems step.hyps(1) obtain qs' where "qs = Some p # qs'" "ancestorChain ec (Some p) qs'"
    by (auto elim: ancestorChain.cases)
  with step.IH show ?case by simp
qed

lemma ancestorChain_ancestors:
  "ancestorChain ec h ps \<Longrightarrow> set ps = {a. isAncestor ec a h}"
proof (induction rule: ancestorChain.induct)
  case (root ec h)
  then show ?case by (auto elim: isAncestor.cases)
next
  case (step ec h p ps)
  have "isAncestor ec a h \<longleftrightarrow> a = Some p \<or> isAncestor ec a (Some p)" for a
    using step.hyps(1) by (auto elim: isAncestor.cases intro: isAncestor.intros)
  with step.IH show ?case by auto
qed

lemma getAllChildren_enough_fuel:
  assumes forest: "\<forall>i<length (params ec). \<exists>ps. ancestorChain ec (Some i) ps"
    and bound: "\<forall>i<length (params ec). \<forall>ps. ancestorChain ec (Some i) ps \<longrightarrow> length ps \<le> D"
  shows "ancestorChain ec (Some p) ps \<Longrightarrow> D < length ps + m \<Longrightarrow> getAllChildren m ec (Some p) \<noteq> None"
proof (induction m arbitrary: p ps)
  case 0
  show ?case
  proof (cases "p < length (params ec)")
    case True
    with bound "0.prems"(1) have "length ps \<le> D" by blast
    with "0.prems"(2) show ?thesis by simp
  next
    case False
    then have "getParent ec (Some p) = None" by (simp add: getParent_def)
    with "0.prems"(1) have "ps = []" by (auto elim: ancestorChain.cases)
    with "0.prems"(2) show ?thesis by simp
  qed
next
  case (Suc m)
  have "getAllChildren m ec c \<noteq> None" if "c \<in> set (getChildren ec (Some p))" for c
  proof -
    from that have par: "getParent ec c = Some p" by (simp add: getChildren_iff)
    then obtain i where c: "c = Some i" and i: "i < length (params ec)"
      by (auto simp: getParent_def split: option.splits if_splits)
    from forest i obtain qs where qs: "ancestorChain ec (Some i) qs" by blast
    from qs par c obtain qs' where "qs = Some p # qs'" "ancestorChain ec (Some p) qs'"
      by (auto elim: ancestorChain.cases)
    with ancestorChain_unique [OF Suc.prems(1)] have "length qs = Suc (length ps)" by auto
    with Suc.prems(2) have "D < length qs + m" by simp
    from Suc.IH [OF qs this] c show ?thesis by simp
  qed
  then show ?case
    by (auto simp: getAllChildren.simps Let_def those_map_None_iff split: option.splits)
qed

lemma chain_bound_exists:
  "\<exists>D. \<forall>i<n. \<forall>ps. ancestorChain ec (Some i) ps \<longrightarrow> length ps \<le> (D::nat)"
proof (induction n)
  case 0
  then show ?case by simp
next
  case (Suc n)
  then obtain D where D: "\<forall>i<n. \<forall>ps. ancestorChain ec (Some i) ps \<longrightarrow> length ps \<le> D" by blast
  show ?case
  proof (cases "\<exists>ps. ancestorChain ec (Some n) ps")
    case True
    then obtain ps where ps: "ancestorChain ec (Some n) ps" by blast
    have "\<forall>i<Suc n. \<forall>qs. ancestorChain ec (Some i) qs \<longrightarrow> length qs \<le> max D (length ps)"
      using D ancestorChain_unique [OF ps] by (auto simp: less_Suc_eq le_max_iff_disj)
    then show ?thesis by blast
  next
    case False
    with D have "\<forall>i<Suc n. \<forall>qs. ancestorChain ec (Some i) qs \<longrightarrow> length qs \<le> D"
      by (auto simp: less_Suc_eq)
    then show ?thesis by blast
  qed
qed

text \<open>
  What the function returns in general, for a focused entity that has a parent in a
  hierarchy without cycles: with enough fuel for the recursion (and from then on for every
  fuel), the focused entity, its ancestors, and the descendants of its parent, filtered
  to the entities that carry a Model; the focused entity is one of these descendants.
\<close>

lemma getTexLoadBodies_contents:
  assumes forest: "\<forall>i<length (params ec). \<exists>ps. ancestorChain ec (Some i) ps"
    and par: "getParent ec (Some i) = Some p"
  shows "\<exists>fuel0 ps cs.
           (\<forall>fuel\<ge>fuel0. getTexLoadBodies fuel ec (Some i) =
               Some (filter (\<lambda>h. isBody (getParam ec h)) ([Some i] @ ps @ cs)))
         \<and> set ps = {a. isAncestor ec a (Some i)}
         \<and> set cs = {c. isAncestor ec (Some p) c}
         \<and> Some i \<in> set cs
         \<and> (isBody (getParam ec (Some i)) \<longrightarrow>
              \<not> distinct (filter (\<lambda>h. isBody (getParam ec h)) ([Some i] @ ps @ cs)))"
proof -
  from par have i: "i < length (params ec)"
    by (auto simp: getParent_def split: if_splits)
  with forest obtain ps where ps: "ancestorChain ec (Some i) ps" by blast
  from ancestorChain_parent [OF ps par] obtain qs where
    qs: "ancestorChain ec (Some p) qs" by blast
  obtain D where D: "\<forall>i<length (params ec). \<forall>ps. ancestorChain ec (Some i) ps \<longrightarrow> length ps \<le> D"
    using chain_bound_exists [of "length (params ec)" ec] by blast
  have "getAllChildren (Suc D) ec (Some p) \<noteq> None"
    using getAllChildren_enough_fuel [OF forest D qs, of "Suc D"] by simp
  then obtain cs where cs: "getAllChildren (Suc D) ec (Some p) = Some cs" by blast
  have run: "getTexLoadBodies fuel ec (Some i) =
               Some (filter (\<lambda>h. isBody (getParam ec h)) ([Some i] @ ps @ cs))"
    if "Suc D \<le> fuel" for fuel
    using getAllChildren_fuel_mono [OF that cs] getAllParents_chain [OF ps] par
    by (simp add: getTexLoadBodies_def)
  have desc: "set cs = {c. isAncestor ec (Some p) c}"
    using getAllChildren_descendants [OF cs] .
  have mem: "Some i \<in> set cs"
    using par by (simp add: desc isAncestor.parent)
  have dup: "\<not> distinct (filter (\<lambda>h. isBody (getParam ec h)) ([Some i] @ ps @ cs))"
    if "isBody (getParam ec (Some i))"
    using that mem by simp
  from run ancestorChain_ancestors [OF ps] desc mem dup show ?thesis by blast
qed

lemma family_forest: "\<forall>i<length (params family). \<exists>ps. ancestorChain family (Some i) ps"
proof (intro allI impI)
  fix i assume "i < length (params family)"
  then have i4: "i < 4" by (simp add: family_def)
  show "\<exists>ps. ancestorChain family (Some i) ps"
  proof (cases "i = 0")
    case True
    have "ancestorChain family (Some 0) []"
      by (rule ancestorChain.root) (simp add: getParent_def family_def)
    with True show ?thesis by blast
  next
    case False
    have "ancestorChain family (Some 0) []"
      by (rule ancestorChain.root) (simp add: getParent_def family_def)
    moreover have "getParent family (Some i) = Some 0"
      using False i4 by (simp add: getParent_def family_def)
    ultimately have "ancestorChain family (Some i) [Some 0]"
      by (rule ancestorChain.step [rotated])
    then show ?thesis by blast
  qed
qed

lemma family_children: "getAllChildren 2 family (Some 0) = Some [Some 1, Some 2, Some 3]"
  by code_simp

lemma family_parents: "getAllParents family (Some 1) = Some [Some 0]"
proof -
  have "ancestorChain family (Some 0) []"
    by (rule ancestorChain.root) (simp add: getParent_def family_def)
  moreover have "getParent family (Some 1) = Some 0"
    by (simp add: getParent_def family_def)
  ultimately have "ancestorChain family (Some 1) [Some 0]"
    by (rule ancestorChain.step [rotated])
  then show ?thesis by (rule getAllParents_chain)
qed

lemma family_bodies: "filter (\<lambda>h. isBody (getParam family h)) [Some 1, Some 0, Some 1, Some 2, Some 3]
    = [Some 1, Some 0, Some 1, Some 2, Some 3]"
  by (simp add: getParam_def family_def entityOf_def)

text \<open>
  Claim C3 at a focused body with one parent and two siblings (all four carry a Model):
  the list holds the focused body twice, first as itself (line 971) and again among the
  children of its parent (lines 978-979), where the claim and the comments of lines
  970-977 (itself, parents, siblings) ask for no duplicate. In the three-level hierarchy
  with the middle body focused, the list also holds the child of the focused body, which
  is neither the focused body, nor an ancestor, nor a sibling.
\<close>

theorem getTexLoadBodies_duplicate:
  "getTexLoadBodies 2 family (Some 1) = Some [Some 1, Some 0, Some 1, Some 2, Some 3]
   \<and> \<not> distinct [Some 1, Some 0, Some 1, Some 2, Some (3::nat)]
   \<and> getTexLoadBodies 3 threeLevels (Some 1) = Some [Some 1, Some 0, Some 1, Some 2]
   \<and> getParent threeLevels (Some 2) = Some 1"
proof -
  have "getParent family (Some 1) = Some 0"
    by (simp add: getParent_def family_def)
  then have a: "getTexLoadBodies 2 family (Some 1) = Some [Some 1, Some 0, Some 1, Some 2, Some 3]"
    unfolding getTexLoadBodies_def
    by (simp only: family_parents family_children option.case append.simps family_bodies not_not)
  have c1: "ancestorChain threeLevels (Some 1) [Some 0]"
    by (intro ancestorChain.intros) (simp_all add: getParent_def threeLevels_def)
  have p: "getAllParents threeLevels (Some 1) = Some [Some 0]"
    using c1 by (rule getAllParents_chain)
  have q: "getParent threeLevels (Some 1) = Some 0" "getParent threeLevels (Some 2) = Some 1"
    by (simp_all add: getParent_def threeLevels_def)
  have ch: "getAllChildren 3 threeLevels (Some 0) = Some [Some 1, Some 2]"
    by code_simp
  have f: "filter (\<lambda>h. isBody (getParam threeLevels h)) [Some 1, Some 0, Some 1, Some 2]
    = [Some 1, Some 0, Some 1, Some 2]"
    by (simp add: getParam_def threeLevels_def entityOf_def)
  have b: "getTexLoadBodies 3 threeLevels (Some 1) = Some [Some 1, Some 0, Some 1, Some 2]"
    unfolding getTexLoadBodies_def q
    by (simp only: p ch option.case append.simps f not_not)
  from a b q show ?thesis by simp
qed

subsection \<open>Vector geometry\<close>

lemma vec3_sel [simp]:
  "vx (a + b) = vx a + vx b" "vy (a + b) = vy a + vy b" "vz (a + b) = vz a + vz b"
  "vx (a - b) = vx a - vx b" "vy (a - b) = vy a - vy b" "vz (a - b) = vz a - vz b"
  "vx (- a) = - vx a" "vy (- a) = - vy a" "vz (- a) = - vz a"
  "vx (0::vec3) = 0" "vy (0::vec3) = 0" "vz (0::vec3) = 0"
  "vx (smul s a) = s * vx a" "vy (smul s a) = s * vy a" "vz (smul s a) = s * vz a"
  by (simp_all add: plus_vec3_def minus_vec3_def uminus_vec3_def zero_vec3_def smul_def)

lemma vec2_sel [simp]:
  "v2x (p + q) = v2x p + v2x q" "v2y (p + q) = v2y p + v2y q"
  "v2x (0::vec2) = 0" "v2y (0::vec2) = 0"
  "v2x (vec2_of a) = vx a" "v2y (vec2_of a) = vy a"
  by (simp_all add: plus_vec2_def zero_vec2_def vec2_of_def)

lemma dot_self_nonneg: "0 \<le> dot v v"
  by (simp add: dot_def)

lemma dot_self_zero: "dot v v = 0 \<longleftrightarrow> v = 0"
proof
  assume "dot v v = 0"
  then have "vx v * vx v + vy v * vy v + vz v * vz v = 0" by (simp add: dot_def)
  moreover have "0 \<le> vx v * vx v" "0 \<le> vy v * vy v" "0 \<le> vz v * vz v" by simp_all
  ultimately have "vx v * vx v = 0 \<and> vy v * vy v = 0 \<and> vz v * vz v = 0" by linarith
  then have "vx v = 0 \<and> vy v = 0 \<and> vz v = 0" by simp
  then show "v = 0" by (simp add: vec3.expand)
qed (simp add: dot_def)

lemma length3_pos: "v \<noteq> 0 \<Longrightarrow> 0 < length3 v"
  using dot_self_nonneg [of v] dot_self_zero [of v] by (simp add: length3_def less_le)

lemma normalize_eq: "normalize v = smul (1 / length3 v) v"
  by (simp add: normalize_def length3_def)

lemma dot_smul [simp]: "dot (smul s a) b = s * dot a b" "dot a (smul s b) = s * dot a b"
  by (simp_all add: dot_def algebra_simps)

lemma dot_normalize_self: "v \<noteq> 0 \<Longrightarrow> dot (normalize v) (normalize v) = 1"
proof -
  assume "v \<noteq> 0"
  then have p: "0 < dot v v" using dot_self_nonneg [of v] dot_self_zero [of v] by (simp add: less_le)
  have "dot (normalize v) (normalize v) = (1 / sqrt (dot v v)) * (1 / sqrt (dot v v)) * dot v v"
    by (simp add: normalize_def)
  also have "\<dots> = 1" using p by (simp add: field_simps)
  finally show ?thesis .
qed

lemma unit_product:
  fixes a b c d :: real
  assumes "a * a + b * b = 1" "c * c + d * d = 1"
  shows "(a * c) * (a * c) + (b * c) * (b * c) + d * d = 1"
proof -
  have "(a * c) * (a * c) + (b * c) * (b * c) + d * d = (a * a + b * b) * (c * c) + d * d"
    by (simp add: algebra_simps)
  with assms show ?thesis by simp
qed

lemma polarToCartesian_unit: "dot (polarToCartesian p) (polarToCartesian p) = 1"
  unfolding dot_def polarToCartesian_def vec3.sel
  by (rule unit_product) (simp_all add: sin_cos_squared_add3)

lemma length3_smul_polar: "length3 (smul s (polarToCartesian p)) = \<bar>s\<bar>"
  by (simp add: length3_def polarToCartesian_unit real_sqrt_mult)

lemma closestApproach_minimal:
  assumes "target \<noteq> rel"
  shows "closestApproach rel target \<le> length3 (rel + smul t (normalize (target - rel)))"
proof -
  let ?d = "normalize (target - rel)"
  have u: "dot ?d ?d = 1" using assms by (simp add: dot_normalize_self)
  have expand: "dot (rel + smul s ?d) (rel + smul s ?d) = dot rel rel + 2 * s * dot rel ?d + s * s"
    for s
  proof -
    have "dot (rel + smul s ?d) (rel + smul s ?d)
        = dot rel rel + 2 * s * dot rel ?d + s * s * dot ?d ?d"
      by (simp add: dot_def algebra_simps)
    then show ?thesis by (simp add: u)
  qed
  have "dot (closestPoint rel target) (closestPoint rel target)
      \<le> dot (rel + smul t ?d) (rel + smul t ?d)"
  proof -
    have "dot (rel + smul t ?d) (rel + smul t ?d)
          - dot (closestPoint rel target) (closestPoint rel target) = (t + dot rel ?d)\<^sup>2"
      unfolding closestPoint_def closestParam_def expand
      by (simp add: power2_eq_square algebra_simps)
    then show ?thesis using zero_le_power2 [of "t + dot rel ?d"] by linarith
  qed
  then show ?thesis by (simp add: closestApproach_def length3_def)
qed

lemma cos_sin_arctan_div:
  assumes "0 < x"
  shows "cos (arctan (y / x)) = x / sqrt (x\<^sup>2 + y\<^sup>2)" "sin (arctan (y / x)) = y / sqrt (x\<^sup>2 + y\<^sup>2)"
proof -
  have "1 + (y / x)\<^sup>2 = (x\<^sup>2 + y\<^sup>2) / x\<^sup>2"
    using assms by (simp add: field_simps power2_eq_square)
  then have s: "sqrt (1 + (y / x)\<^sup>2) = sqrt (x\<^sup>2 + y\<^sup>2) / x"
    using assms by (simp add: real_sqrt_divide)
  show "cos (arctan (y / x)) = x / sqrt (x\<^sup>2 + y\<^sup>2)"
    by (simp add: cos_arctan s)
  show "sin (arctan (y / x)) = y / sqrt (x\<^sup>2 + y\<^sup>2)"
    using assms by (simp add: sin_arctan s)
qed

lemma cos_sin_arctan_div_neg:
  assumes "x < 0"
  shows "cos (arctan (y / x)) = - x / sqrt (x\<^sup>2 + y\<^sup>2)" "sin (arctan (y / x)) = - y / sqrt (x\<^sup>2 + y\<^sup>2)"
proof -
  have e: "(- y) / (- x) = y / x" by simp
  have p: "0 < - x" using assms by simp
  show "cos (arctan (y / x)) = - x / sqrt (x\<^sup>2 + y\<^sup>2)"
    using cos_sin_arctan_div(1) [OF p, of "- y"] unfolding e by simp
  show "sin (arctan (y / x)) = - y / sqrt (x\<^sup>2 + y\<^sup>2)"
    using cos_sin_arctan_div(2) [OF p, of "- y"] unfolding e by simp
qed

lemma cos_sin_atan2:
  "cos (atan2 y x) * sqrt (x\<^sup>2 + y\<^sup>2) = x" "sin (atan2 y x) * sqrt (x\<^sup>2 + y\<^sup>2) = y"
proof -
  consider "0 < x" | "x < 0" "0 \<le> y" | "x < 0" "y < 0" | "x = 0" "0 < y" | "x = 0" "y < 0" | "x = 0" "y = 0"
    by linarith
  then have "cos (atan2 y x) * sqrt (x\<^sup>2 + y\<^sup>2) = x \<and> sin (atan2 y x) * sqrt (x\<^sup>2 + y\<^sup>2) = y"
  proof cases
    case 1
    then have "0 < sqrt (x\<^sup>2 + y\<^sup>2)" by (simp add: sum_power2_gt_zero_iff)
    with 1 show ?thesis by (simp add: atan2_def cos_sin_arctan_div)
  next
    case 2
    then have "0 < sqrt (x\<^sup>2 + y\<^sup>2)" by (simp add: sum_power2_gt_zero_iff)
    with 2 show ?thesis by (simp add: atan2_def cos_sin_arctan_div_neg)
  next
    case 3
    then have "0 < sqrt (x\<^sup>2 + y\<^sup>2)" by (simp add: sum_power2_gt_zero_iff)
    with 3 show ?thesis by (simp add: atan2_def cos_sin_arctan_div_neg)
  next
    case 4
    then show ?thesis by (simp add: atan2_def)
  next
    case 5
    then show ?thesis by (simp add: atan2_def)
  next
    case 6
    then show ?thesis by (simp add: atan2_def)
  qed
  then show "cos (atan2 y x) * sqrt (x\<^sup>2 + y\<^sup>2) = x" "sin (atan2 y x) * sqrt (x\<^sup>2 + y\<^sup>2) = y"
    by simp_all
qed

lemma polar_of_unit:
  assumes "dot u u = 1"
  shows "polarToCartesian (Vec2 (atan2 (vy u) (vx u)) (arcsin (vz u))) = u"
proof -
  have sq: "(vx u)\<^sup>2 + (vy u)\<^sup>2 + (vz u)\<^sup>2 = 1"
    using assms by (simp add: dot_def power2_eq_square)
  then have "(vz u)\<^sup>2 \<le> 1"
    using zero_le_power2 [of "vx u"] zero_le_power2 [of "vy u"] by linarith
  then have "\<bar>vz u\<bar> \<le> 1" by (simp add: abs_square_le_1)
  then have z: "- 1 \<le> vz u" "vz u \<le> 1" by (simp_all add: abs_le_iff)
  have c: "cos (arcsin (vz u)) = sqrt ((vx u)\<^sup>2 + (vy u)\<^sup>2)"
    using z sq by (simp add: cos_arcsin)
  have "vx (polarToCartesian (Vec2 (atan2 (vy u) (vx u)) (arcsin (vz u)))) = vx u"
    by (simp add: polarToCartesian_def c cos_sin_atan2)
  moreover have "vy (polarToCartesian (Vec2 (atan2 (vy u) (vx u)) (arcsin (vz u)))) = vy u"
    by (simp add: polarToCartesian_def c cos_sin_atan2)
  moreover have "vz (polarToCartesian (Vec2 (atan2 (vy u) (vx u)) (arcsin (vz u)))) = vz u"
    using z by (simp add: polarToCartesian_def)
  ultimately show ?thesis by (simp add: vec3.expand)
qed

lemma forward_lookAt: "forward (lookAt 0 d up) = normalize d"
  by (simp add: forward_def lookAt_def transpose3_def Let_def vec3.expand uminus_vec3_def)

subsection \<open>The camera: what each block changes\<close>

text \<open>What each block leaves alone.\<close>

lemma dragView_frame [simp]:
  "entityCollection (dragView win posX posY g) = entityCollection g"
  "focusedBodyId (dragView win posX posY g) = focusedBodyId g"
  "bodyNameId (dragView win posX posY g) = bodyNameId g"
  "bodyNameFade (dragView win posX posY g) = bodyNameFade g"
  "epoch (dragView win posX posY g) = epoch g"
  "timeWarpIndex (dragView win posX posY g) = timeWarpIndex g"
  "timeWarpValues (dragView win posX posY g) = timeWarpValues g"
  "wireframe (dragView win posX posY g) = wireframe g"
  "bloom (dragView win posX posY g) = bloom g"
  "viewPos (dragView win posX posY g) = viewPos g"
  "viewFovy (dragView win posX posY g) = viewFovy g"
  "viewDir (dragView win posX posY g) = viewDir g"
  "viewPolar (dragView win posX posY g) = viewPolar g"
  "maxViewSpeed (dragView win posX posY g) = maxViewSpeed g"
  "viewSmoothness (dragView win posX posY g) = viewSmoothness g"
  "sensitivity (dragView win posX posY g) = sensitivity g"
  "preMousePosX (dragView win posX posY g) = preMousePosX g"
  "preMousePosY (dragView win posX posY g) = preMousePosY g"
  "switchPhase (dragView win posX posY g) = switchPhase g"
  "switchTime (dragView win posX posY g) = switchTime g"
  "switchPreviousBodyId (dragView win posX posY g) = switchPreviousBodyId g"
  "switchPreviousViewDir (dragView win posX posY g) = switchPreviousViewDir g"
  "switchNewViewPolar (dragView win posX posY g) = switchNewViewPolar g"
  "keysHeld (dragView win posX posY g) = keysHeld g"
  by (simp_all add: dragView_def Let_def)

lemma timeWarping_frame [simp]:
  "entityCollection (timeWarping win g) = entityCollection g"
  "focusedBodyId (timeWarping win g) = focusedBodyId g"
  "bodyNameId (timeWarping win g) = bodyNameId g"
  "bodyNameFade (timeWarping win g) = bodyNameFade g"
  "epoch (timeWarping win g) = epoch g"
  "timeWarpValues (timeWarping win g) = timeWarpValues g"
  "wireframe (timeWarping win g) = wireframe g"
  "bloom (timeWarping win g) = bloom g"
  "viewPos (timeWarping win g) = viewPos g"
  "viewFovy (timeWarping win g) = viewFovy g"
  "viewDir (timeWarping win g) = viewDir g"
  "viewPolar (timeWarping win g) = viewPolar g"
  "viewSpeed (timeWarping win g) = viewSpeed g"
  "panPolar (timeWarping win g) = panPolar g"
  "maxViewSpeed (timeWarping win g) = maxViewSpeed g"
  "viewSmoothness (timeWarping win g) = viewSmoothness g"
  "sensitivity (timeWarping win g) = sensitivity g"
  "preMousePosX (timeWarping win g) = preMousePosX g"
  "preMousePosY (timeWarping win g) = preMousePosY g"
  "dragging (timeWarping win g) = dragging g"
  "switchPhase (timeWarping win g) = switchPhase g"
  "switchTime (timeWarping win g) = switchTime g"
  "switchPreviousBodyId (timeWarping win g) = switchPreviousBodyId g"
  "switchPreviousViewDir (timeWarping win g) = switchPreviousViewDir g"
  "switchNewViewPolar (timeWarping win g) = switchNewViewPolar g"
  by (simp_all add: timeWarping_def Let_def split_def)

lemma switching_frame [simp]:
  "entityCollection (switching win r rel g) = entityCollection g"
  "bodyNameId (switching win r rel g) = bodyNameId g"
  "bodyNameFade (switching win r rel g) = bodyNameFade g"
  "epoch (switching win r rel g) = epoch g"
  "timeWarpValues (switching win r rel g) = timeWarpValues g"
  "wireframe (switching win r rel g) = wireframe g"
  "bloom (switching win r rel g) = bloom g"
  "viewPos (switching win r rel g) = viewPos g"
  "viewFovy (switching win r rel g) = viewFovy g"
  "viewDir (switching win r rel g) = viewDir g"
  "viewPolar (switching win r rel g) = viewPolar g"
  "viewSpeed (switching win r rel g) = viewSpeed g"
  "panPolar (switching win r rel g) = panPolar g"
  "maxViewSpeed (switching win r rel g) = maxViewSpeed g"
  "viewSmoothness (switching win r rel g) = viewSmoothness g"
  "sensitivity (switching win r rel g) = sensitivity g"
  "preMousePosX (switching win r rel g) = preMousePosX g"
  "preMousePosY (switching win r rel g) = preMousePosY g"
  "dragging (switching win r rel g) = dragging g"
  "switchTime (switching win r rel g) = switchTime g"
  by (simp_all add: switching_def Let_def split_def)

lemma updateTrack_frame [simp]:
  "entityCollection (updateTrack dt g) = entityCollection g"
  "focusedBodyId (updateTrack dt g) = focusedBodyId g"
  "epoch (updateTrack dt g) = epoch g"
  "timeWarpIndex (updateTrack dt g) = timeWarpIndex g"
  "timeWarpValues (updateTrack dt g) = timeWarpValues g"
  "wireframe (updateTrack dt g) = wireframe g"
  "bloom (updateTrack dt g) = bloom g"
  "viewFovy (updateTrack dt g) = viewFovy g"
  "viewSpeed (updateTrack dt g) = viewSpeed g"
  "panPolar (updateTrack dt g) = panPolar g"
  "maxViewSpeed (updateTrack dt g) = maxViewSpeed g"
  "viewSmoothness (updateTrack dt g) = viewSmoothness g"
  "sensitivity (updateTrack dt g) = sensitivity g"
  "preMousePosX (updateTrack dt g) = preMousePosX g"
  "preMousePosY (updateTrack dt g) = preMousePosY g"
  "dragging (updateTrack dt g) = dragging g"
  "switchPreviousBodyId (updateTrack dt g) = switchPreviousBodyId g"
  "switchPreviousViewDir (updateTrack dt g) = switchPreviousViewDir g"
  "switchNewViewPolar (updateTrack dt g) = switchNewViewPolar g"
  "keysHeld (updateTrack dt g) = keysHeld g"
  by (simp_all add: updateTrack_def Let_def)

lemma updateMove_frame [simp]:
  "entityCollection (updateMove dt g) = entityCollection g"
  "focusedBodyId (updateMove dt g) = focusedBodyId g"
  "epoch (updateMove dt g) = epoch g"
  "timeWarpIndex (updateMove dt g) = timeWarpIndex g"
  "timeWarpValues (updateMove dt g) = timeWarpValues g"
  "wireframe (updateMove dt g) = wireframe g"
  "bloom (updateMove dt g) = bloom g"
  "viewFovy (updateMove dt g) = viewFovy g"
  "maxViewSpeed (updateMove dt g) = maxViewSpeed g"
  "viewSmoothness (updateMove dt g) = viewSmoothness g"
  "sensitivity (updateMove dt g) = sensitivity g"
  "preMousePosX (updateMove dt g) = preMousePosX g"
  "preMousePosY (updateMove dt g) = preMousePosY g"
  "dragging (updateMove dt g) = dragging g"
  "switchPreviousBodyId (updateMove dt g) = switchPreviousBodyId g"
  "switchPreviousViewDir (updateMove dt g) = switchPreviousViewDir g"
  "switchNewViewPolar (updateMove dt g) = switchNewViewPolar g"
  "keysHeld (updateMove dt g) = keysHeld g"
  by (simp_all add: updateMove_def Let_def)

lemma pollToggles_frame [simp]:
  "entityCollection (pollToggles win g) = entityCollection g"
  "focusedBodyId (pollToggles win g) = focusedBodyId g"
  "bodyNameId (pollToggles win g) = bodyNameId g"
  "bodyNameFade (pollToggles win g) = bodyNameFade g"
  "epoch (pollToggles win g) = epoch g"
  "timeWarpIndex (pollToggles win g) = timeWarpIndex g"
  "timeWarpValues (pollToggles win g) = timeWarpValues g"
  "viewPos (pollToggles win g) = viewPos g"
  "viewFovy (pollToggles win g) = viewFovy g"
  "viewDir (pollToggles win g) = viewDir g"
  "viewPolar (pollToggles win g) = viewPolar g"
  "viewSpeed (pollToggles win g) = viewSpeed g"
  "panPolar (pollToggles win g) = panPolar g"
  "maxViewSpeed (pollToggles win g) = maxViewSpeed g"
  "viewSmoothness (pollToggles win g) = viewSmoothness g"
  "sensitivity (pollToggles win g) = sensitivity g"
  "preMousePosX (pollToggles win g) = preMousePosX g"
  "preMousePosY (pollToggles win g) = preMousePosY g"
  "dragging (pollToggles win g) = dragging g"
  "switchPhase (pollToggles win g) = switchPhase g"
  "switchTime (pollToggles win g) = switchTime g"
  "switchPreviousBodyId (pollToggles win g) = switchPreviousBodyId g"
  "switchPreviousViewDir (pollToggles win g) = switchPreviousViewDir g"
  "switchNewViewPolar (pollToggles win g) = switchNewViewPolar g"
  by (simp_all add: pollToggles_def Let_def split_def)

lemma frameStart_frame [simp]:
  "focusedBodyId (frameStart fr g) = focusedBodyId g"
  "bodyNameId (frameStart fr g) = bodyNameId g"
  "bodyNameFade (frameStart fr g) = bodyNameFade g"
  "timeWarpIndex (frameStart fr g) = timeWarpIndex g"
  "timeWarpValues (frameStart fr g) = timeWarpValues g"
  "viewPos (frameStart fr g) = viewPos g"
  "viewFovy (frameStart fr g) = viewFovy g"
  "viewDir (frameStart fr g) = viewDir g"
  "viewPolar (frameStart fr g) = viewPolar g"
  "viewSpeed (frameStart fr g) = viewSpeed g"
  "panPolar (frameStart fr g) = panPolar g"
  "maxViewSpeed (frameStart fr g) = maxViewSpeed g"
  "viewSmoothness (frameStart fr g) = viewSmoothness g"
  "sensitivity (frameStart fr g) = sensitivity g"
  "preMousePosX (frameStart fr g) = preMousePosX g"
  "preMousePosY (frameStart fr g) = preMousePosY g"
  "dragging (frameStart fr g) = dragging g"
  "switchPhase (frameStart fr g) = switchPhase g"
  "switchTime (frameStart fr g) = switchTime g"
  "switchPreviousBodyId (frameStart fr g) = switchPreviousBodyId g"
  "switchPreviousViewDir (frameStart fr g) = switchPreviousViewDir g"
  "switchNewViewPolar (frameStart fr g) = switchNewViewPolar g"
  by (simp_all add: frameStart_def pollToggles_def Let_def split_def)

lemma frameEnd_frame [simp]:
  "entityCollection (frameEnd fr g) = entityCollection g"
  "focusedBodyId (frameEnd fr g) = focusedBodyId g"
  "bodyNameId (frameEnd fr g) = bodyNameId g"
  "bodyNameFade (frameEnd fr g) = bodyNameFade g"
  "epoch (frameEnd fr g) = epoch g"
  "timeWarpIndex (frameEnd fr g) = timeWarpIndex g"
  "timeWarpValues (frameEnd fr g) = timeWarpValues g"
  "wireframe (frameEnd fr g) = wireframe g"
  "bloom (frameEnd fr g) = bloom g"
  "viewPos (frameEnd fr g) = viewPos g"
  "viewFovy (frameEnd fr g) = viewFovy g"
  "viewDir (frameEnd fr g) = viewDir g"
  "viewPolar (frameEnd fr g) = viewPolar g"
  "viewSpeed (frameEnd fr g) = viewSpeed g"
  "panPolar (frameEnd fr g) = panPolar g"
  "maxViewSpeed (frameEnd fr g) = maxViewSpeed g"
  "viewSmoothness (frameEnd fr g) = viewSmoothness g"
  "sensitivity (frameEnd fr g) = sensitivity g"
  "dragging (frameEnd fr g) = dragging g"
  "switchPhase (frameEnd fr g) = switchPhase g"
  "switchTime (frameEnd fr g) = switchTime g"
  "switchPreviousBodyId (frameEnd fr g) = switchPreviousBodyId g"
  "switchPreviousViewDir (frameEnd fr g) = switchPreviousViewDir g"
  "switchNewViewPolar (frameEnd fr g) = switchNewViewPolar g"
  by (simp_all add: frameEnd_def pollScreenshotProfiler_def Let_def split_def)

lemma pollScreenshotProfiler_frame [simp]:
  "entityCollection (pollScreenshotProfiler win g) = entityCollection g"
  "focusedBodyId (pollScreenshotProfiler win g) = focusedBodyId g"
  "bodyNameId (pollScreenshotProfiler win g) = bodyNameId g"
  "bodyNameFade (pollScreenshotProfiler win g) = bodyNameFade g"
  "epoch (pollScreenshotProfiler win g) = epoch g"
  "timeWarpIndex (pollScreenshotProfiler win g) = timeWarpIndex g"
  "timeWarpValues (pollScreenshotProfiler win g) = timeWarpValues g"
  "wireframe (pollScreenshotProfiler win g) = wireframe g"
  "bloom (pollScreenshotProfiler win g) = bloom g"
  "viewPos (pollScreenshotProfiler win g) = viewPos g"
  "viewFovy (pollScreenshotProfiler win g) = viewFovy g"
  "viewDir (pollScreenshotProfiler win g) = viewDir g"
  "viewPolar (pollScreenshotProfiler win g) = viewPolar g"
  "viewSpeed (pollScreenshotProfiler win g) = viewSpeed g"
  "panPolar (pollScreenshotProfiler win g) = panPolar g"
  "maxViewSpeed (pollScreenshotProfiler win g) = maxViewSpeed g"
  "viewSmoothness (pollScreenshotProfiler win g) = viewSmoothness g"
  "sensitivity (pollScreenshotProfiler win g) = sensitivity g"
  "preMousePosX (pollScreenshotProfiler win g) = preMousePosX g"
  "preMousePosY (pollScreenshotProfiler win g) = preMousePosY g"
  "dragging (pollScreenshotProfiler win g) = dragging g"
  "switchPhase (pollScreenshotProfiler win g) = switchPhase g"
  "switchTime (pollScreenshotProfiler win g) = switchTime g"
  "switchPreviousBodyId (pollScreenshotProfiler win g) = switchPreviousBodyId g"
  "switchPreviousViewDir (pollScreenshotProfiler win g) = switchPreviousViewDir g"
  "switchNewViewPolar (pollScreenshotProfiler win g) = switchNewViewPolar g"
  by (simp_all add: pollScreenshotProfiler_def Let_def split_def)

lemma viewOnly_trans: "viewOnly g g' \<Longrightarrow> viewOnly g' g'' \<Longrightarrow> viewOnly g g''"
proof -
  assume a: "viewOnly g g'" and b: "viewOnly g' g''"
  have "g'' = g'\<lparr>viewPolar := viewPolar g'', viewSpeed := viewSpeed g'', panPolar := panPolar g'',
            viewPos := viewPos g'', viewDir := viewDir g''\<rparr>"
    using b by (simp add: viewOnly_def)
  also have "g' = g\<lparr>viewPolar := viewPolar g', viewSpeed := viewSpeed g', panPolar := panPolar g',
            viewPos := viewPos g', viewDir := viewDir g'\<rparr>"
    using a by (simp add: viewOnly_def)
  finally show ?thesis by (simp add: viewOnly_def)
qed

lemma viewOnly_steps:
  "viewOnly g (advanceView r g)" "viewOnly g (clampElevationUp g)" "viewOnly g (clampElevationDown g)"
  "viewOnly g (clampDistance r g)" "viewOnly g (clampPanUp g)" "viewOnly g (clampPanDown g)"
  "viewOnly g (placeView g)"
  by (simp_all add: viewOnly_def advanceView_def clampElevationUp_def clampElevationDown_def
      clampDistance_def clampPanUp_def clampPanDown_def placeView_def Let_def)

lemma viewOnly_moveView: "viewOnly g (moveView r g)"
  unfolding moveView_def by (intro viewOnly_trans [OF _ viewOnly_steps(7)]
      viewOnly_trans [OF _ viewOnly_steps(6)] viewOnly_trans [OF _ viewOnly_steps(5)]
      viewOnly_trans [OF _ viewOnly_steps(4)] viewOnly_trans [OF _ viewOnly_steps(3)]
      viewOnly_trans [OF _ viewOnly_steps(2)] viewOnly_steps(1))

lemma moveView_frame [simp]:
  "entityCollection (moveView r g) = entityCollection g"
  "focusedBodyId (moveView r g) = focusedBodyId g"
  "bodyNameId (moveView r g) = bodyNameId g"
  "bodyNameFade (moveView r g) = bodyNameFade g"
  "epoch (moveView r g) = epoch g"
  "timeWarpIndex (moveView r g) = timeWarpIndex g"
  "timeWarpValues (moveView r g) = timeWarpValues g"
  "wireframe (moveView r g) = wireframe g"
  "bloom (moveView r g) = bloom g"
  "viewFovy (moveView r g) = viewFovy g"
  "maxViewSpeed (moveView r g) = maxViewSpeed g"
  "viewSmoothness (moveView r g) = viewSmoothness g"
  "sensitivity (moveView r g) = sensitivity g"
  "preMousePosX (moveView r g) = preMousePosX g"
  "preMousePosY (moveView r g) = preMousePosY g"
  "dragging (moveView r g) = dragging g"
  "switchPhase (moveView r g) = switchPhase g"
  "switchTime (moveView r g) = switchTime g"
  "switchPreviousBodyId (moveView r g) = switchPreviousBodyId g"
  "switchPreviousViewDir (moveView r g) = switchPreviousViewDir g"
  "switchNewViewPolar (moveView r g) = switchNewViewPolar g"
  "keysHeld (moveView r g) = keysHeld g"
  by (subst viewOnly_moveView [unfolded viewOnly_def], simp)+

lemma isPressedOnce_fst: "fst (isPressedOnce w held key) = (w key \<and> \<not> held key)"
  by (simp add: isPressedOnce_eq)

lemma isPressedOnce_snd: "snd (isPressedOnce w held key) = held(key := w key)"
  by (simp add: isPressedOnce_eq)

lemma maxVerticalAngle_pos: "0 < maxVerticalAngle"
  using pi_ge_two by (simp add: maxVerticalAngle_def)

lemma maxVerticalAngle_less: "maxVerticalAngle < pi / 2"
  by (simp add: maxVerticalAngle_def)

lemma clampElevation_bound:
  "\<bar>vy (viewPolar (clampElevationDown (clampElevationUp g)))\<bar> \<le> maxVerticalAngle"
  using maxVerticalAngle_pos by (auto simp: clampElevationDown_def clampElevationUp_def)

lemma clampElevation_speed:
  "maxVerticalAngle < \<bar>vy (viewPolar g)\<bar> \<Longrightarrow>
   vy (viewSpeed (clampElevationDown (clampElevationUp g))) = 0"
  using maxVerticalAngle_pos by (auto simp: clampElevationDown_def clampElevationUp_def)

lemma clampDistance_elevation [simp]:
  "vy (viewPolar (clampDistance r g)) = vy (viewPolar g)"
  by (simp add: clampDistance_def)

lemma clampDistance_bound: "r \<le> vz (viewPolar (clampDistance r g))"
  by (simp add: clampDistance_def)

lemma clampDistance_speed [simp]: "viewSpeed (clampDistance r g) = viewSpeed g"
  by (simp add: clampDistance_def)

lemma clampPan_viewPolar [simp]: "viewPolar (clampPanDown (clampPanUp g)) = viewPolar g"
  by (simp add: clampPanDown_def clampPanUp_def)

lemma clampPan_viewSpeed [simp]: "viewSpeed (clampPanDown (clampPanUp g)) = viewSpeed g"
  by (simp add: clampPanDown_def clampPanUp_def)

lemma clampPan_bound:
  "\<bar>vy (viewPolar g) + v2y (panPolar (clampPanDown (clampPanUp g)))\<bar> \<le> maxVerticalAngle"
  using maxVerticalAngle_pos by (auto simp: clampPanDown_def clampPanUp_def)

lemma placeView_same [simp]:
  "viewPolar (placeView g) = viewPolar g" "panPolar (placeView g) = panPolar g"
  "viewSpeed (placeView g) = viewSpeed g"
  by (simp_all add: placeView_def Let_def)

lemma moveView_elevation:
  "\<bar>vy (viewPolar (moveView r g))\<bar> \<le> maxVerticalAngle"
  by (simp add: moveView_def clampElevation_bound)

lemma moveView_elevation_pan:
  "\<bar>vy (viewPolar (moveView r g)) + v2y (panPolar (moveView r g))\<bar> \<le> maxVerticalAngle"
  using clampPan_bound [of "clampDistance r (clampElevationDown (clampElevationUp (advanceView r g)))"]
  by (simp add: moveView_def)

lemma moveView_distance: "r \<le> vz (viewPolar (moveView r g))"
  by (simp add: moveView_def clampDistance_bound)

lemma moveView_speed_zeroed:
  "maxVerticalAngle < \<bar>vy (viewPolar g) + vy (viewSpeed g)\<bar> \<Longrightarrow> vy (viewSpeed (moveView r g)) = 0"
  using clampElevation_speed [of "advanceView r g"]
  by (simp add: moveView_def advanceView_def)

lemma keys_distinct [simp]:
  "GLFW_KEY_K \<noteq> GLFW_KEY_TAB" "GLFW_KEY_L \<noteq> GLFW_KEY_TAB"
  "GLFW_KEY_TAB \<noteq> GLFW_KEY_K" "GLFW_KEY_TAB \<noteq> GLFW_KEY_L"
  by (simp_all add: GLFW_KEY_K_def GLFW_KEY_L_def GLFW_KEY_TAB_def)

lemma keysHeld_timeWarping_TAB [simp]:
  "keysHeld (timeWarping win g) GLFW_KEY_TAB = keysHeld g GLFW_KEY_TAB"
  by (simp add: timeWarping_def Let_def split_def isPressedOnce_snd)

text \<open>What the switch block does when the TAB check fires, and when it does not.\<close>

lemma switching_fired:
  assumes "glfwGetKey win GLFW_KEY_TAB" "\<not> keysHeld g GLFW_KEY_TAB"
  shows "timeWarpIndex (switching win r rel g) = 0"
    and "switchPhase (switching win r rel g) = TRACK"
    and "switchPreviousBodyId (switching win r rel g) = focusedBodyId g"
    and "switchPreviousViewDir (switching win r rel g) = viewDir g"
    and "focusedBodyId (switching win r rel g) =
           chooseNextBody (\<not> glfwGetKey win GLFW_KEY_LEFT_SHIFT) g"
    and "switchNewViewPolar (switching win r rel g) =
           rayTest (viewPolar g) r rel
             (bodyPosition g (getBodies (entityCollection g) !
                  nat (chooseNextBody (\<not> glfwGetKey win GLFW_KEY_LEFT_SHIFT) g))
              - bodyPosition g (getBodies (entityCollection g) ! nat (focusedBodyId g)))"
  using assms
  by (simp_all add: switching_def Let_def split_def isPressedOnce_eq chooseNextBody_def
      bodyPosition_def getFocusedBody_def getPreviousBody_def)

lemma switching_idle:
  assumes "\<not> (glfwGetKey win GLFW_KEY_TAB \<and> \<not> keysHeld g GLFW_KEY_TAB)"
  shows "switching win r rel g = g\<lparr>keysHeld := (keysHeld g)(GLFW_KEY_TAB := glfwGetKey win GLFW_KEY_TAB)\<rparr>"
  using assms by (auto simp: switching_def Let_def split_def isPressedOnce_eq)

lemma switching_phase:
  "switchPhase (switching win r rel g) =
     (if glfwGetKey win GLFW_KEY_TAB \<and> \<not> keysHeld g GLFW_KEY_TAB then TRACK else switchPhase g)"
  by (auto simp: switching_def Let_def split_def isPressedOnce_eq)

lemma switch_resets_timeWarp_aux:
  assumes "glfwGetKey win GLFW_KEY_TAB" and "\<not> keysHeld g GLFW_KEY_TAB"
  shows "timeWarpIndex (updateIdle win dt posX posY g) = 0
       \<and> switchPhase (updateIdle win dt posX posY g) = TRACK
       \<and> switchPreviousBodyId (updateIdle win dt posX posY g) = focusedBodyId g
       \<and> switchPreviousViewDir (updateIdle win dt posX posY g) = viewDir (updateIdle win dt posX posY g)
       \<and> focusedBodyId (updateIdle win dt posX posY g) =
           chooseNextBody (\<not> glfwGetKey win GLFW_KEY_LEFT_SHIFT) g"
proof -
  let ?g1 = "dragView win posX posY g"
  let ?r = "bodyRadius ?g1 (getFocusedBody ?g1)"
  let ?g2 = "moveView ?r ?g1"
  let ?g3 = "timeWarping win ?g2"
  let ?g4 = "?g3\<lparr>bodyNameId := focusedBodyId ?g3, bodyNameFade := 1\<rparr>"
  let ?rel = "smul (vz (viewPolar ?g2)) (polarToCartesian (vec2_of (viewPolar ?g2)))"
  have u: "updateIdle win dt posX posY g = switching win ?r ?rel ?g4"
    by (simp add: updateIdle_def Let_def)
  have k: "\<not> keysHeld ?g4 GLFW_KEY_TAB" using assms(2) by simp
  have f: "focusedBodyId ?g4 = focusedBodyId g" by simp
  have c: "chooseNextBody d ?g4 = chooseNextBody d g" for d
    by (simp add: chooseNextBody_def)
  have v: "viewDir (switching win ?r ?rel ?g4) = viewDir ?g4" by simp
  show ?thesis
    unfolding u
    using switching_fired [OF assms(1) k, of ?r ?rel]
    by (simp only: f c v simp_thms)
qed

subsection \<open>Frames\<close>

lemma getBodies_setState [simp]: "getBodies (setState ec st) = getBodies ec"
  by (simp add: getBodies_def setState_def getAll_def getParam_def)

lemma getParam_setState [simp]: "getParam (setState ec st) h = getParam ec h"
  by (simp add: setState_def getParam_def)

lemma entityCollection_frameStart [simp]:
  "entityCollection (frameStart fr g) = setState (entityCollection g) (frameStates fr)"
  by (simp add: frameStart_def pollToggles_def Let_def split_def)

lemma keysHeld_frameStart_TAB [simp]:
  "keysHeld (frameStart fr g) GLFW_KEY_TAB = keysHeld g GLFW_KEY_TAB"
  by (simp add: frameStart_def pollToggles_def Let_def split_def isPressedOnce_eq
      GLFW_KEY_TAB_def GLFW_KEY_W_def GLFW_KEY_B_def)

lemma bodyRadius_frameStart [simp]: "bodyRadius (frameStart fr g) h = bodyRadius g h"
  by (simp add: bodyRadius_def)

lemma getFocusedBody_frameStart [simp]: "getFocusedBody (frameStart fr g) = getFocusedBody g"
  by (simp add: getFocusedBody_def)

lemma bodies_frameEnd [simp]:
  "bodyRadius (frameEnd fr g) h = bodyRadius g h"
  "bodyPosition (frameEnd fr g) h = bodyPosition g h"
  "getFocusedBody (frameEnd fr g) = getFocusedBody g"
  "getPreviousBody (frameEnd fr g) = getPreviousBody g"
  by (simp_all add: bodyRadius_def bodyPosition_def getFocusedBody_def getPreviousBody_def)

lemma updateTrack_phase:
  "switchPhase (updateTrack dt g) = (if switchTime g + dt > 1 then MOVE else switchPhase g)"
  "switchTime (updateTrack dt g) = (if switchTime g + dt > 1 then 0 else switchTime g + dt)"
  "viewPolar (updateTrack dt g) = (if switchTime g + dt > 1 then trackInterpPolar g else viewPolar g)"
  by (simp_all add: updateTrack_def Let_def)

lemma updateMove_phase:
  "switchPhase (updateMove dt g) = (if switchTime g + dt > 1 then IDLE else switchPhase g)"
  "switchTime (updateMove dt g) = (if switchTime g + dt > 1 then 0 else switchTime g + dt)"
  "viewPolar (updateMove dt g) =
     (if switchTime g + dt > 1
      then Vec3 (atan2 (- vy (moveDirection g)) (- vx (moveDirection g)))
                (arcsin (- vz (moveDirection g))) (moveTargetDist g)
      else viewPolar g)"
  "panPolar (updateMove dt g) = (if switchTime g + dt > 1 then 0 else panPolar g)"
  "viewSpeed (updateMove dt g) = (if switchTime g + dt > 1 then 0 else viewSpeed g)"
  "viewDir (updateMove dt g) = lookAt 0 (moveDirection g) (Vec3 0 0 1)"
  "viewPos (updateMove dt g) =
     smul (ease2 (min 1 (switchTime g)) 4) (moveTargetPos g)
     + smul (1 - ease2 (min 1 (switchTime g)) 4) (moveSourcePos g)"
  by (simp_all add: updateMove_def Let_def)

lemma update_TRACK:
  assumes "switchPhase g = TRACK"
  shows "update fr g = frameEnd fr (updateTrack (frameDt fr) (frameStart fr g))"
  using assms by (simp add: update_def updatePhase_def)

lemma update_MOVE:
  assumes "switchPhase g = MOVE"
  shows "update fr g = frameEnd fr (updateMove (frameDt fr) (frameStart fr g))"
  using assms by (simp add: update_def updatePhase_def)

lemma update_IDLE:
  assumes "switchPhase g = IDLE"
  shows "update fr g =
     frameEnd fr (updateIdle (frameWindow fr) (frameDt fr) (framePosX fr) (framePosY fr) (frameStart fr g))"
  using assms by (simp add: update_def updatePhase_def)

lemma runFrames_append: "runFrames (xs @ ys) g = runFrames ys (runFrames xs g)"
  by (induction xs arbitrary: g) simp_all

lemma elapsed_simps [simp]:
  "elapsed [] = 0" "elapsed (fr # frs) = frameDt fr + elapsed frs"
  "elapsed (xs @ ys) = elapsed xs + elapsed ys"
  by (simp_all add: elapsed_def)

lemma elapsed_nonneg: "\<forall>fr\<in>set frs. 0 \<le> frameDt fr \<Longrightarrow> 0 \<le> elapsed frs"
  by (induction frs) simp_all

text \<open>While the timer of a phase has not passed 1, the phase lasts and the timer adds up.\<close>

lemma runFrames_TRACK:
  assumes "switchPhase g = TRACK" "\<forall>fr\<in>set frs. 0 \<le> frameDt fr" "switchTime g + elapsed frs \<le> 1"
  shows "switchPhase (runFrames frs g) = TRACK
       \<and> switchTime (runFrames frs g) = switchTime g + elapsed frs
       \<and> focusedBodyId (runFrames frs g) = focusedBodyId g
       \<and> switchPreviousBodyId (runFrames frs g) = switchPreviousBodyId g
       \<and> viewPolar (runFrames frs g) = viewPolar g
       \<and> switchNewViewPolar (runFrames frs g) = switchNewViewPolar g
       \<and> getBodies (entityCollection (runFrames frs g)) = getBodies (entityCollection g)"
  using assms
proof (induction frs arbitrary: g)
  case Nil
  then show ?case by simp
next
  case (Cons fr frs)
  have e: "0 \<le> elapsed frs" using Cons.prems(2) by (simp add: elapsed_nonneg)
  have dt: "0 \<le> frameDt fr" using Cons.prems(2) by simp
  have le: "\<not> switchTime g + frameDt fr > 1" using Cons.prems(3) e by simp
  let ?g = "update fr g"
  have u: "?g = frameEnd fr (updateTrack (frameDt fr) (frameStart fr g))"
    using Cons.prems(1) by (rule update_TRACK)
  have p: "switchPhase ?g = TRACK" and t: "switchTime ?g = switchTime g + frameDt fr"
    and f: "focusedBodyId ?g = focusedBodyId g" and b: "switchPreviousBodyId ?g = switchPreviousBodyId g"
    and v: "viewPolar ?g = viewPolar g" and n: "switchNewViewPolar ?g = switchNewViewPolar g"
    and c: "getBodies (entityCollection ?g) = getBodies (entityCollection g)"
    using le Cons.prems(1) unfolding u by (simp_all add: updateTrack_phase)
  have "switchTime ?g + elapsed frs \<le> 1" using Cons.prems(3) by (simp add: t)
  from Cons.IH [OF p _ this] Cons.prems(2) show ?case
    by (simp add: t f b v n c)
qed

lemma runFrames_MOVE:
  assumes "switchPhase g = MOVE" "\<forall>fr\<in>set frs. 0 \<le> frameDt fr" "switchTime g + elapsed frs \<le> 1"
  shows "switchPhase (runFrames frs g) = MOVE
       \<and> switchTime (runFrames frs g) = switchTime g + elapsed frs
       \<and> focusedBodyId (runFrames frs g) = focusedBodyId g
       \<and> switchPreviousBodyId (runFrames frs g) = switchPreviousBodyId g
       \<and> viewPolar (runFrames frs g) = viewPolar g
       \<and> getBodies (entityCollection (runFrames frs g)) = getBodies (entityCollection g)"
  using assms
proof (induction frs arbitrary: g)
  case Nil
  then show ?case by simp
next
  case (Cons fr frs)
  have e: "0 \<le> elapsed frs" using Cons.prems(2) by (simp add: elapsed_nonneg)
  have dt: "0 \<le> frameDt fr" using Cons.prems(2) by simp
  have le: "\<not> switchTime g + frameDt fr > 1" using Cons.prems(3) e by simp
  let ?g = "update fr g"
  have u: "?g = frameEnd fr (updateMove (frameDt fr) (frameStart fr g))"
    using Cons.prems(1) by (rule update_MOVE)
  have p: "switchPhase ?g = MOVE" and t: "switchTime ?g = switchTime g + frameDt fr"
    and f: "focusedBodyId ?g = focusedBodyId g" and b: "switchPreviousBodyId ?g = switchPreviousBodyId g"
    and v: "viewPolar ?g = viewPolar g"
    and c: "getBodies (entityCollection ?g) = getBodies (entityCollection g)"
    using le Cons.prems(1) unfolding u by (simp_all add: updateMove_phase)
  have "switchTime ?g + elapsed frs \<le> 1" using Cons.prems(3) by (simp add: t)
  from Cons.IH [OF p _ this] Cons.prems(2) show ?case
    by (simp add: t f b v c)
qed

subsection \<open>The MOVE phase\<close>

lemma powr_4: "0 \<le> x \<Longrightarrow> x powr 4 = x ^ 4" for x :: real
  by (cases "x = 0") simp_all

lemma ease2_closed:
  assumes "0 \<le> t" "t \<le> 1"
  shows "ease2 t 4 = t ^ 4 / (t ^ 4 + (1 - t) ^ 4)"
  using assms by (simp add: ease2_def Let_def powr_4)

lemma ease2_range: "0 \<le> ease2 t 4 \<and> ease2 t 4 \<le> 1"
proof -
  have a: "0 \<le> t powr 4" and b: "0 \<le> (1 - t) powr 4" by simp_all
  show ?thesis
  proof (cases "t powr 4 + (1 - t) powr 4 = 0")
    case True
    then show ?thesis by (simp add: ease2_def Let_def)
  next
    case False
    with a b have "0 < t powr 4 + (1 - t) powr 4" by linarith
    with a b show ?thesis by (simp add: ease2_def Let_def field_simps)
  qed
qed

lemma ease2_ends: "ease2 0 4 = 0" "ease2 1 4 = 1"
  by (simp_all add: ease2_def Let_def)

lemma move_cong:
  assumes "entityCollection g' = entityCollection g" "focusedBodyId g' = focusedBodyId g"
    "switchPreviousBodyId g' = switchPreviousBodyId g" "viewPolar g' = viewPolar g"
  shows "moveSourcePos g' = moveSourcePos g" "moveDirection g' = moveDirection g"
    "moveTargetDist g' = moveTargetDist g" "moveTargetPos g' = moveTargetPos g"
  using assms
  by (simp_all add: moveSourcePos_def moveDirection_def moveTargetDist_def moveTargetPos_def
      bodyPosition_def bodyRadius_def getFocusedBody_def getPreviousBody_def)

lemma normalize_unit: "v \<noteq> 0 \<Longrightarrow> normalize (normalize v) = normalize v"
  using dot_normalize_self [of v] by (simp add: normalize_def [of "normalize v"] smul_def)

lemma smul_length3_normalize: "smul (length3 v) (normalize v) = v"
proof (cases "v = 0")
  case True
  then show ?thesis by (simp add: vec3.expand length3_def dot_def)
next
  case False
  then have "0 < length3 v" by (rule length3_pos)
  then show ?thesis by (simp add: normalize_eq vec3.expand)
qed

lemma interp_towards:
  "F - (smul f (F - smul D d) + smul (1 - f) (F - smul L d)) = smul (f * D + (1 - f) * L) d"
  by (simp add: vec3.expand algebra_simps)

lemma move_aimed:
  assumes apart: "bodyPosition g (getFocusedBody g) \<noteq> moveSourcePos g" and f: "0 \<le> f" "f \<le> 1"
  shows "\<exists>c>0. bodyPosition g (getFocusedBody g)
                - (smul f (moveTargetPos g) + smul (1 - f) (moveSourcePos g))
              = smul c (moveDirection g)"
proof -
  let ?F = "bodyPosition g (getFocusedBody g)" and ?S = "moveSourcePos g"
  let ?d = "moveDirection g" and ?D = "moveTargetDist g"
  let ?L = "length3 (?F - ?S)"
  have L: "0 < ?L" using apart by (simp add: length3_pos)
  have D: "0 < ?D" by (simp add: moveTargetDist_def)
  have FS: "?F - ?S = smul ?L ?d"
    by (simp add: moveDirection_def smul_length3_normalize)
  then have S: "?S = ?F - smul ?L ?d" by (simp add: algebra_simps)
  have "?F - (smul f (moveTargetPos g) + smul (1 - f) ?S) = smul (f * ?D + (1 - f) * ?L) ?d"
    using interp_towards [of ?F f ?D ?d ?L] S by (simp add: moveTargetPos_def)
  moreover have "0 < f * ?D + (1 - f) * ?L"
  proof (cases "f = 0")
    case True
    with L show ?thesis by simp
  next
    case False
    with f D have "0 < f * ?D" by simp
    moreover have "0 \<le> (1 - f) * ?L" using f L by simp
    ultimately show ?thesis by linarith
  qed
  ultimately show ?thesis by blast
qed

lemma moveDirection_unit:
  "bodyPosition g (getFocusedBody g) \<noteq> moveSourcePos g \<Longrightarrow> dot (moveDirection g) (moveDirection g) = 1"
  by (simp add: moveDirection_def dot_normalize_self)

lemma move_polar:
  assumes "bodyPosition g (getFocusedBody g) \<noteq> moveSourcePos g"
  shows "- polarToCartesian (Vec2 (atan2 (- vy (moveDirection g)) (- vx (moveDirection g)))
                                 (arcsin (- vz (moveDirection g)))) = moveDirection g"
proof -
  have "dot (- moveDirection g) (- moveDirection g) = 1"
    using moveDirection_unit [OF assms] by (simp add: dot_def)
  from polar_of_unit [OF this] show ?thesis by simp
qed

lemma update_trigger:
  assumes "switchPhase g = IDLE" "glfwGetKey (frameWindow fr) GLFW_KEY_TAB" "\<not> keysHeld g GLFW_KEY_TAB"
  shows "switchPhase (update fr g) = TRACK" "switchTime (update fr g) = switchTime g"
    "focusedBodyId (update fr g) = chooseNextBody (\<not> glfwGetKey (frameWindow fr) GLFW_KEY_LEFT_SHIFT) g"
    "timeWarpIndex (update fr g) = 0"
proof -
  let ?g = "frameStart fr g"
  have u: "update fr g =
     frameEnd fr (updateIdle (frameWindow fr) (frameDt fr) (framePosX fr) (framePosY fr) ?g)"
    using assms(1) by (simp add: update_IDLE)
  have k: "\<not> keysHeld ?g GLFW_KEY_TAB" using assms(3) by simp
  note s = switch_resets_timeWarp_aux [OF assms(2) k, of "frameDt fr" "framePosX fr" "framePosY fr"]
  show "switchPhase (update fr g) = TRACK" unfolding u using s by simp
  show "timeWarpIndex (update fr g) = 0" unfolding u using s by simp
  show "focusedBodyId (update fr g) = chooseNextBody (\<not> glfwGetKey (frameWindow fr) GLFW_KEY_LEFT_SHIFT) g"
    unfolding u using s by (simp add: chooseNextBody_def)
  show "switchTime (update fr g) = switchTime g"
    unfolding u by (simp add: updateIdle_def Let_def)
qed

lemma setState_twice [simp]: "setState (setState ec s) s' = setState ec s'"
  by (simp add: setState_def)

lemma viewOnly_same:
  assumes "viewOnly g h"
  shows "entityCollection h = entityCollection g" "focusedBodyId h = focusedBodyId g"
  by (subst assms [unfolded viewOnly_def], simp)+

lemma viewOnly_clamps:
  "viewOnly g (clampPanDown (clampPanUp (clampDistance r
       (clampElevationDown (clampElevationUp (advanceView r g))))))"
  by (intro viewOnly_trans [OF _ viewOnly_steps(6)] viewOnly_trans [OF _ viewOnly_steps(5)]
      viewOnly_trans [OF _ viewOnly_steps(4)] viewOnly_trans [OF _ viewOnly_steps(3)]
      viewOnly_trans [OF _ viewOnly_steps(2)] viewOnly_steps(1))

lemma viewPos_placeView:
  "viewPos (placeView h) =
     smul (vz (viewPolar h)) (polarToCartesian (vec2_of (viewPolar h)))
     + bodyPosition h (getFocusedBody h)"
  by (simp add: placeView_def Let_def)

lemma viewPos_moveView:
  "viewPos (moveView r g) =
     smul (vz (viewPolar (moveView r g))) (polarToCartesian (vec2_of (viewPolar (moveView r g))))
     + bodyPosition g (getFocusedBody g)"
proof -
  define h where "h = clampPanDown (clampPanUp (clampDistance r
       (clampElevationDown (clampElevationUp (advanceView r g)))))"
  have v: "viewOnly g h" unfolding h_def by (rule viewOnly_clamps)
  have m: "moveView r g = placeView h" by (simp add: moveView_def h_def)
  have b: "bodyPosition h (getFocusedBody h) = bodyPosition g (getFocusedBody g)"
    by (simp add: bodyPosition_def getFocusedBody_def viewOnly_same [OF v])
  show ?thesis
    unfolding m viewPos_placeView b by simp
qed

lemma updateIdle_switch:
  fixes g :: Game and win :: Window and dt posX posY :: real
  defines "g' \<equiv> updateIdle win dt posX posY g"
  assumes "glfwGetKey win GLFW_KEY_TAB" and "\<not> keysHeld g GLFW_KEY_TAB"
  shows "switchNewViewPolar g' =
           rayTest (viewPolar g') (bodyRadius g (getFocusedBody g))
             (smul (vz (viewPolar g')) (polarToCartesian (vec2_of (viewPolar g'))))
             (bodyPosition g (getFocusedBody g') - bodyPosition g (getFocusedBody g))"
    and "viewPos g' = smul (vz (viewPolar g')) (polarToCartesian (vec2_of (viewPolar g')))
                      + bodyPosition g (getFocusedBody g)"
    and "getPreviousBody g' = getFocusedBody g"
    and "entityCollection g' = entityCollection g"
    and "viewPolar g' = viewPolar (moveView (bodyRadius g (getFocusedBody g)) (dragView win posX posY g))"
proof -
  define g1 where "g1 = dragView win posX posY g"
  define r where "r = bodyRadius g1 (getFocusedBody g1)"
  define g2 where "g2 = moveView r g1"
  define g4 where "g4 = (timeWarping win g2)\<lparr>bodyNameId := focusedBodyId (timeWarping win g2),
                                                bodyNameFade := 1\<rparr>"
  define rel where "rel = smul (vz (viewPolar g2)) (polarToCartesian (vec2_of (viewPolar g2)))"
  have u: "g' = switching win r rel g4"
    unfolding g'_def updateIdle_def Let_def g1_def r_def g2_def g4_def rel_def ..
  have r: "r = bodyRadius g (getFocusedBody g)"
    by (simp add: r_def g1_def bodyRadius_def getFocusedBody_def)
  have ec4: "entityCollection g4 = entityCollection g"
    by (simp add: g4_def g2_def g1_def)
  have f4: "focusedBodyId g4 = focusedBodyId g"
    by (simp add: g4_def g2_def g1_def)
  have v4: "viewPolar g4 = viewPolar g2"
    by (simp add: g4_def)
  have p4: "viewPos g4 = viewPos g2"
    by (simp add: g4_def)
  have k: "\<not> keysHeld g4 GLFW_KEY_TAB"
    using assms(3) by (simp add: g4_def g2_def g1_def)
  note s = switching_fired [OF assms(2) k, of r rel]
  have vp: "viewPolar g' = viewPolar g2" unfolding u by (simp add: v4)
  have ec: "entityCollection g' = entityCollection g" unfolding u by (simp add: ec4)
  have pb: "switchPreviousBodyId g' = focusedBodyId g" unfolding u s(3) f4 ..
  have fb: "focusedBodyId g' = chooseNextBody (\<not> glfwGetKey win GLFW_KEY_LEFT_SHIFT) g4"
    unfolding u s(5) ..
  have prev: "getPreviousBody g' = getFocusedBody g"
    unfolding getPreviousBody_def getFocusedBody_def ec pb ..
  have foc: "getFocusedBody g' = getBodies (entityCollection g) !
                  nat (chooseNextBody (\<not> glfwGetKey win GLFW_KEY_LEFT_SHIFT) g4)"
    unfolding getFocusedBody_def ec fb ..
  have bp: "bodyPosition g4 h = bodyPosition g h" for h
    unfolding bodyPosition_def ec4 ..
  have new: "switchNewViewPolar g' =
           rayTest (viewPolar g') r rel (bodyPosition g (getFocusedBody g') - bodyPosition g (getFocusedBody g))"
    unfolding foc vp unfolding u s(6) bp ec4 f4 v4 getFocusedBody_def ..
  have pos: "viewPos g' = rel + bodyPosition g (getFocusedBody g)"
  proof -
    have "viewPos g' = viewPos g2" unfolding u by (simp add: p4)
    also have "\<dots> = rel + bodyPosition g1 (getFocusedBody g1)"
      unfolding g2_def rel_def by (rule viewPos_moveView)
    also have "bodyPosition g1 (getFocusedBody g1) = bodyPosition g (getFocusedBody g)"
      by (simp add: g1_def bodyPosition_def getFocusedBody_def)
    finally show ?thesis .
  qed
  have rel: "rel = smul (vz (viewPolar g')) (polarToCartesian (vec2_of (viewPolar g')))"
    unfolding rel_def vp ..
  show "switchNewViewPolar g' =
           rayTest (viewPolar g') (bodyRadius g (getFocusedBody g))
             (smul (vz (viewPolar g')) (polarToCartesian (vec2_of (viewPolar g'))))
             (bodyPosition g (getFocusedBody g') - bodyPosition g (getFocusedBody g))"
    using new unfolding r rel .
  show "viewPos g' = smul (vz (viewPolar g')) (polarToCartesian (vec2_of (viewPolar g')))
                      + bodyPosition g (getFocusedBody g)"
    using pos unfolding rel .
  show "getPreviousBody g' = getFocusedBody g" by (rule prev)
  show "entityCollection g' = entityCollection g" by (rule ec)
  show "viewPolar g' = viewPolar (moveView (bodyRadius g (getFocusedBody g)) (dragView win posX posY g))"
    using vp unfolding g2_def r g1_def .
qed

subsection \<open>The switch trigger\<close>

lemma placeView_viewDir:
  "viewDir (placeView h) =
     lookAt 0 (- polarToCartesian (vec2_of (viewPolar h) + panPolar h)) (Vec3 0 0 1)"
  by (simp add: placeView_def Let_def)

lemma viewDir_moveView:
  "viewDir (moveView r g) =
     lookAt 0 (- polarToCartesian (vec2_of (viewPolar (moveView r g)) + panPolar (moveView r g)))
       (Vec3 0 0 1)"
  unfolding moveView_def placeView_viewDir by simp

lemma updateIdle_view:
  "viewPolar (updateIdle win dt posX posY g) =
     viewPolar (moveView (bodyRadius g (getFocusedBody g)) (dragView win posX posY g))"
  "panPolar (updateIdle win dt posX posY g) =
     panPolar (moveView (bodyRadius g (getFocusedBody g)) (dragView win posX posY g))"
  "viewSpeed (updateIdle win dt posX posY g) =
     viewSpeed (moveView (bodyRadius g (getFocusedBody g)) (dragView win posX posY g))"
  "viewDir (updateIdle win dt posX posY g) =
     viewDir (moveView (bodyRadius g (getFocusedBody g)) (dragView win posX posY g))"
  "viewPos (updateIdle win dt posX posY g) =
     viewPos (moveView (bodyRadius g (getFocusedBody g)) (dragView win posX posY g))"
  "entityCollection (updateIdle win dt posX posY g) = entityCollection g"
  "switchTime (updateIdle win dt posX posY g) = switchTime g"
  by (simp_all add: updateIdle_def Let_def bodyRadius_def getFocusedBody_def)

lemma updateIdle_phase:
  "switchPhase (updateIdle win dt posX posY g) =
     (if glfwGetKey win GLFW_KEY_TAB \<and> \<not> keysHeld g GLFW_KEY_TAB then TRACK else switchPhase g)"
  by (simp add: updateIdle_def Let_def switching_phase)

lemma updateIdle_quiet:
  assumes "\<not> (glfwGetKey win GLFW_KEY_TAB \<and> \<not> keysHeld g GLFW_KEY_TAB)"
  shows "focusedBodyId (updateIdle win dt posX posY g) = focusedBodyId g"
    "switchPreviousBodyId (updateIdle win dt posX posY g) = switchPreviousBodyId g"
proof -
  define g1 where "g1 = dragView win posX posY g"
  define r where "r = bodyRadius g1 (getFocusedBody g1)"
  define g2 where "g2 = moveView r g1"
  define g4 where "g4 = (timeWarping win g2)\<lparr>bodyNameId := focusedBodyId (timeWarping win g2),
                                                bodyNameFade := 1\<rparr>"
  define rel where "rel = smul (vz (viewPolar g2)) (polarToCartesian (vec2_of (viewPolar g2)))"
  have u: "updateIdle win dt posX posY g = switching win r rel g4"
    unfolding updateIdle_def Let_def g1_def r_def g2_def g4_def rel_def ..
  have k: "\<not> (glfwGetKey win GLFW_KEY_TAB \<and> \<not> keysHeld g4 GLFW_KEY_TAB)"
    using assms by (simp add: g4_def g2_def g1_def)
  have f4: "focusedBodyId g4 = focusedBodyId g" "switchPreviousBodyId g4 = switchPreviousBodyId g"
    by (simp_all add: g4_def g2_def g1_def)
  show "focusedBodyId (updateIdle win dt posX posY g) = focusedBodyId g"
    "switchPreviousBodyId (updateIdle win dt posX posY g) = switchPreviousBodyId g"
    unfolding u switching_idle [OF k] by (simp_all add: f4)
qed

lemma update_trigger_more:
  assumes "switchPhase g = IDLE" "glfwGetKey (frameWindow fr) GLFW_KEY_TAB" "\<not> keysHeld g GLFW_KEY_TAB"
  shows "switchPreviousBodyId (update fr g) = focusedBodyId g"
    "getBodies (entityCollection (update fr g)) = getBodies (entityCollection g)"
    "switchPreviousViewDir (update fr g) = viewDir (update fr g)"
proof -
  let ?g = "frameStart fr g"
  have u: "update fr g =
     frameEnd fr (updateIdle (frameWindow fr) (frameDt fr) (framePosX fr) (framePosY fr) ?g)"
    using assms(1) by (simp add: update_IDLE)
  have k: "\<not> keysHeld ?g GLFW_KEY_TAB" using assms(3) by simp
  note s = switch_resets_timeWarp_aux [OF assms(2) k, of "frameDt fr" "framePosX fr" "framePosY fr"]
  show "switchPreviousBodyId (update fr g) = focusedBodyId g" unfolding u using s by simp
  show "getBodies (entityCollection (update fr g)) = getBodies (entityCollection g)"
    unfolding u by (simp add: updateIdle_view)
  show "switchPreviousViewDir (update fr g) = viewDir (update fr g)" unfolding u using s by simp
qed

text \<open>
  Claim C10. For every state, window and cursor position, \<^verbatim>\<open>updateIdle\<close> enters the TRACK
  phase exactly when the edge-triggered check of TAB fires (TAB is down and was not
  recorded as held), and otherwise leaves the phase alone. When it fires, the time-warp
  index is 0 afterwards, whatever it was before; the body that was focused is recorded
  as the previous body; the recorded previous orientation is the orientation this update
  has just computed; and the focus moves to the body \<open>chooseNextBody\<close> gives (forward
  unless left shift is down). When it does not fire, the focus and the recorded previous
  body are unchanged. In both cases the orientation is the one lines 736-738 build from
  the clamped polar position and pan. The last conjunct states the reset for a whole
  frame of \<^verbatim>\<open>Game::update\<close> that starts in IDLE with the TAB check firing.
\<close>

theorem switch_resets_timeWarp:
  fixes g :: Game and win :: Window and dt posX posY :: real
  defines "g' \<equiv> updateIdle win dt posX posY g"
    and "fired \<equiv> glfwGetKey win GLFW_KEY_TAB \<and> \<not> keysHeld g GLFW_KEY_TAB"
  fixes g0 :: Game and fr :: Frame
  shows "switchPhase g' = (if fired then TRACK else switchPhase g)
       \<and> (fired \<longrightarrow> timeWarpIndex g' = 0
                    \<and> switchPreviousBodyId g' = focusedBodyId g
                    \<and> switchPreviousViewDir g' = viewDir g'
                    \<and> focusedBodyId g' = chooseNextBody (\<not> glfwGetKey win GLFW_KEY_LEFT_SHIFT) g)
       \<and> (\<not> fired \<longrightarrow> focusedBodyId g' = focusedBodyId g
                    \<and> switchPreviousBodyId g' = switchPreviousBodyId g)
       \<and> viewDir g' =
           lookAt 0 (- polarToCartesian (vec2_of (viewPolar g') + panPolar g')) (Vec3 0 0 1)
       \<and> (switchPhase g0 = IDLE \<and> glfwGetKey (frameWindow fr) GLFW_KEY_TAB
            \<and> \<not> keysHeld g0 GLFW_KEY_TAB \<longrightarrow>
            switchPhase (update fr g0) = TRACK
            \<and> timeWarpIndex (update fr g0) = 0
            \<and> switchPreviousBodyId (update fr g0) = focusedBodyId g0
            \<and> switchPreviousViewDir (update fr g0) = viewDir (update fr g0)
            \<and> focusedBodyId (update fr g0) =
                chooseNextBody (\<not> glfwGetKey (frameWindow fr) GLFW_KEY_LEFT_SHIFT) g0)"
proof -
  have a: "switchPhase g' = (if fired then TRACK else switchPhase g)"
    by (simp add: g'_def fired_def updateIdle_phase)
  have b: "timeWarpIndex g' = 0 \<and> switchPreviousBodyId g' = focusedBodyId g
           \<and> switchPreviousViewDir g' = viewDir g'
           \<and> focusedBodyId g' = chooseNextBody (\<not> glfwGetKey win GLFW_KEY_LEFT_SHIFT) g" if fired
  proof -
    from that have t: "glfwGetKey win GLFW_KEY_TAB" and h: "\<not> keysHeld g GLFW_KEY_TAB"
      by (simp_all add: fired_def)
    from switch_resets_timeWarp_aux [OF t h, of dt posX posY]
    show ?thesis by (simp add: g'_def)
  qed
  have c: "focusedBodyId g' = focusedBodyId g \<and> switchPreviousBodyId g' = switchPreviousBodyId g"
    if "\<not> fired"
    using that unfolding fired_def g'_def by (simp add: updateIdle_quiet)
  have d: "viewDir g' =
           lookAt 0 (- polarToCartesian (vec2_of (viewPolar g') + panPolar g')) (Vec3 0 0 1)"
    unfolding g'_def updateIdle_view by (rule viewDir_moveView)
  have e: "switchPhase (update fr g0) = TRACK
            \<and> timeWarpIndex (update fr g0) = 0
            \<and> switchPreviousBodyId (update fr g0) = focusedBodyId g0
            \<and> switchPreviousViewDir (update fr g0) = viewDir (update fr g0)
            \<and> focusedBodyId (update fr g0) =
                chooseNextBody (\<not> glfwGetKey (frameWindow fr) GLFW_KEY_LEFT_SHIFT) g0"
    if "switchPhase g0 = IDLE \<and> glfwGetKey (frameWindow fr) GLFW_KEY_TAB
            \<and> \<not> keysHeld g0 GLFW_KEY_TAB"
  proof -
    from that have i: "switchPhase g0 = IDLE" and t: "glfwGetKey (frameWindow fr) GLFW_KEY_TAB"
      and h: "\<not> keysHeld g0 GLFW_KEY_TAB" by simp_all
    from update_trigger [OF i t h] update_trigger_more [OF i t h] show ?thesis by simp
  qed
  from a b c d e show ?thesis by blast
qed

lemma getBodies_twoBodies: "getBodies twoBodies = [Some 0, Some 1]"
  by (simp add: getBodies_def getAll_def twoBodies_def entityOf_def getParam_def handleExists_def upt_rec)

lemma chooseNextBody_restGame: "chooseNextBody True restGame = 1"
  by (simp add: chooseNextBody_def Let_def restGame_def getBodies_twoBodies)

text \<open>
  The resting camera with the third warp rate selected: one update with TAB down enters
  TRACK, resets the index to 0, records body 0 and focuses body 1; so does the whole frame.
\<close>

theorem switch_resets_timeWarp_witness:
  "timeWarpIndex restGame = 2
   \<and> switchPhase (updateIdle (frameWindow (frameOf (1 / 60) [GLFW_KEY_TAB])) (1 / 60) 0 0 restGame) = TRACK
   \<and> timeWarpIndex (updateIdle (frameWindow (frameOf (1 / 60) [GLFW_KEY_TAB])) (1 / 60) 0 0 restGame) = 0
   \<and> switchPreviousBodyId (updateIdle (frameWindow (frameOf (1 / 60) [GLFW_KEY_TAB])) (1 / 60) 0 0 restGame) = 0
   \<and> focusedBodyId (updateIdle (frameWindow (frameOf (1 / 60) [GLFW_KEY_TAB])) (1 / 60) 0 0 restGame) = 1
   \<and> switchPhase (update (frameOf (1 / 60) [GLFW_KEY_TAB]) restGame) = TRACK
   \<and> timeWarpIndex (update (frameOf (1 / 60) [GLFW_KEY_TAB]) restGame) = 0"
proof -
  have k: "glfwGetKey (frameWindow (frameOf (1 / 60) [GLFW_KEY_TAB])) GLFW_KEY_TAB"
    "\<not> glfwGetKey (frameWindow (frameOf (1 / 60) [GLFW_KEY_TAB])) GLFW_KEY_LEFT_SHIFT"
    "\<not> keysHeld restGame GLFW_KEY_TAB"
    "focusedBodyId restGame = 0" "timeWarpIndex restGame = 2" "switchPhase restGame = IDLE"
    by (simp_all add: frameOf_def restGame_def GLFW_KEY_TAB_def GLFW_KEY_LEFT_SHIFT_def)
  from switch_resets_timeWarp [where win = "frameWindow (frameOf (1 / 60) [GLFW_KEY_TAB])"
      and dt = "1 / 60" and posX = 0 and posY = 0 and g = restGame and ?g0.0 = restGame
      and fr = "frameOf (1 / 60) [GLFW_KEY_TAB]"]
  show ?thesis by (simp add: k chooseNextBody_restGame)
qed

subsection \<open>The IDLE invariants\<close>

lemma clampElevation_value:
  "vy (viewPolar (clampElevationDown (clampElevationUp g))) =
     (if vy (viewPolar g) > maxVerticalAngle then maxVerticalAngle
      else if vy (viewPolar g) < - maxVerticalAngle then - maxVerticalAngle
      else vy (viewPolar g))"
  using maxVerticalAngle_pos by (auto simp: clampElevationDown_def clampElevationUp_def)

lemma clampElevation_speed_kept:
  "\<bar>vy (viewPolar g)\<bar> \<le> maxVerticalAngle \<Longrightarrow>
   viewSpeed (clampElevationDown (clampElevationUp g)) = viewSpeed g"
  by (auto simp: clampElevationDown_def clampElevationUp_def)

lemma moveView_elevation_value:
  "vy (viewPolar (moveView r g)) =
     (if vy (viewPolar g) + vy (viewSpeed g) > maxVerticalAngle then maxVerticalAngle
      else if vy (viewPolar g) + vy (viewSpeed g) < - maxVerticalAngle then - maxVerticalAngle
      else vy (viewPolar g) + vy (viewSpeed g))"
  using clampElevation_value [of "advanceView r g"]
  by (simp add: moveView_def advanceView_def)

lemma moveView_speed_kept:
  "\<bar>vy (viewPolar g) + vy (viewSpeed g)\<bar> \<le> maxVerticalAngle \<Longrightarrow>
   viewSpeed (moveView r g) = smul (viewSmoothness g) (viewSpeed g)"
  using clampElevation_speed_kept [of "advanceView r g"]
  by (simp add: moveView_def advanceView_def)

lemma update_IDLE_view:
  fixes g :: Game and fr :: Frame
  defines "h \<equiv> updateIdle (frameWindow fr) (frameDt fr) (framePosX fr) (framePosY fr) (frameStart fr g)"
  assumes "switchPhase g = IDLE"
  shows "viewPolar (update fr g) = viewPolar h" "panPolar (update fr g) = panPolar h"
    "viewSpeed (update fr g) = viewSpeed h" "viewPos (update fr g) = viewPos h"
    "focusedBodyId (update fr g) = focusedBodyId h"
    "entityCollection (update fr g) = entityCollection h"
  unfolding update_IDLE [OF assms(2)] h_def by simp_all

text \<open>
  Claim C5. For every state \<open>g\<close>, window and cursor position, after \<^verbatim>\<open>updateIdle\<close>: the
  elevation, and the elevation plus the pan offset, lie in the closed interval of half
  width \<open>\<pi>/2 - 0.001\<close>, hence strictly inside \<open>(-\<pi>/2 + \<epsilon>, \<pi>/2 - \<epsilon>)\<close> for every
  \<open>0 < \<epsilon> < 0.001\<close>; the elevation is the advanced elevation (elevation plus the elevation
  speed after the mouse drag) clamped to that interval, and whenever it was clamped the
  elevation component of the speed is 0. The polar distance is at least the radius \<open>r\<close>
  of the body that is focused when the update starts (line 700); the camera position is
  at that polar distance from the centre of that body, so the camera is never closer to
  it than \<open>r\<close>. When the switch does not fire the focused body is still that body after
  the update, with the same radius and position. When the MOVE phase completes (lines
  899-909) the polar distance is \<open>max (4 r) 1000\<close> for the radius \<open>r\<close> of the focused body,
  which is at least \<open>r\<close>, so the bound holds when IDLE is entered. The last conjunct says
  that a frame that starts in IDLE leaves the view exactly as \<^verbatim>\<open>updateIdle\<close> leaves it.
\<close>

theorem idle_invariants:
  fixes g :: Game and win :: Window and dt posX posY :: real
  defines "g' \<equiv> updateIdle win dt posX posY g"
    and "r \<equiv> bodyRadius g (getFocusedBody g)"
    and "fired \<equiv> glfwGetKey win GLFW_KEY_TAB \<and> \<not> keysHeld g GLFW_KEY_TAB"
    and "advanced \<equiv> vy (viewPolar g) + vy (viewSpeed (dragView win posX posY g))"
  fixes m :: Game and dm :: real and g0 :: Game and fr :: Frame
  shows "\<bar>vy (viewPolar g') + v2y (panPolar g')\<bar> \<le> pi / 2 - 0.001
       \<and> \<bar>vy (viewPolar g')\<bar> \<le> pi / 2 - 0.001
       \<and> (\<forall>e. 0 < e \<and> e < 0.001 \<longrightarrow>
             - pi / 2 + e < vy (viewPolar g') + v2y (panPolar g')
             \<and> vy (viewPolar g') + v2y (panPolar g') < pi / 2 - e)
       \<and> vy (viewPolar g') =
           (if advanced > pi / 2 - 0.001 then pi / 2 - 0.001
            else if advanced < - (pi / 2 - 0.001) then - (pi / 2 - 0.001)
            else advanced)
       \<and> (pi / 2 - 0.001 < \<bar>advanced\<bar> \<longrightarrow> vy (viewSpeed g') = 0)
       \<and> r \<le> vz (viewPolar g')
       \<and> length3 (viewPos g' - bodyPosition g (getFocusedBody g)) = \<bar>vz (viewPolar g')\<bar>
       \<and> r \<le> length3 (viewPos g' - bodyPosition g (getFocusedBody g))
       \<and> (\<not> fired \<longrightarrow> switchPhase g' = switchPhase g \<and> getFocusedBody g' = getFocusedBody g
                        \<and> bodyRadius g' (getFocusedBody g') = r
                        \<and> bodyPosition g' (getFocusedBody g') = bodyPosition g (getFocusedBody g))
       \<and> (switchTime m + dm > 1 \<longrightarrow>
            switchPhase (updateMove dm m) = IDLE
            \<and> vz (viewPolar (updateMove dm m)) = max (4 * bodyRadius m (getFocusedBody m)) 1000
            \<and> bodyRadius m (getFocusedBody m) \<le> vz (viewPolar (updateMove dm m)))
       \<and> (switchPhase g0 = IDLE \<longrightarrow>
            viewPolar (update fr g0) =
              viewPolar (updateIdle (frameWindow fr) (frameDt fr) (framePosX fr) (framePosY fr) (frameStart fr g0))
            \<and> panPolar (update fr g0) =
              panPolar (updateIdle (frameWindow fr) (frameDt fr) (framePosX fr) (framePosY fr) (frameStart fr g0))
            \<and> viewSpeed (update fr g0) =
              viewSpeed (updateIdle (frameWindow fr) (frameDt fr) (framePosX fr) (framePosY fr) (frameStart fr g0))
            \<and> viewPos (update fr g0) =
              viewPos (updateIdle (frameWindow fr) (frameDt fr) (framePosX fr) (framePosY fr) (frameStart fr g0))
            \<and> bodyRadius (frameStart fr g0) (getFocusedBody (frameStart fr g0)) =
              bodyRadius g0 (getFocusedBody g0))"
proof -
  define g1 where "g1 = dragView win posX posY g"
  define g2 where "g2 = moveView r g1"
  have r: "bodyRadius g1 (getFocusedBody g1) = r"
    by (simp add: r_def g1_def bodyRadius_def getFocusedBody_def)
  have vp: "viewPolar g' = viewPolar g2" and pp: "panPolar g' = panPolar g2"
    and vs: "viewSpeed g' = viewSpeed g2" and vq: "viewPos g' = viewPos g2"
    unfolding g'_def updateIdle_view g2_def g1_def r_def by simp_all
  have a: "\<bar>vy (viewPolar g') + v2y (panPolar g')\<bar> \<le> pi / 2 - 0.001"
    using moveView_elevation_pan [of r g1] by (simp add: vp pp g2_def maxVerticalAngle_def)
  have b: "\<bar>vy (viewPolar g')\<bar> \<le> pi / 2 - 0.001"
    using moveView_elevation [of r g1] by (simp add: vp g2_def maxVerticalAngle_def)
  have c: "\<forall>e. 0 < e \<and> e < 0.001 \<longrightarrow>
             - pi / 2 + e < vy (viewPolar g') + v2y (panPolar g')
             \<and> vy (viewPolar g') + v2y (panPolar g') < pi / 2 - e"
    using a by (auto simp: abs_le_iff)
  have adv: "vy (viewPolar g1) + vy (viewSpeed g1) = advanced"
    by (simp add: advanced_def g1_def)
  have d: "vy (viewPolar g') =
           (if advanced > pi / 2 - 0.001 then pi / 2 - 0.001
            else if advanced < - (pi / 2 - 0.001) then - (pi / 2 - 0.001)
            else advanced)"
    unfolding vp g2_def moveView_elevation_value adv maxVerticalAngle_def ..
  have e: "vy (viewSpeed g') = 0" if "pi / 2 - 0.001 < \<bar>advanced\<bar>"
    using moveView_speed_zeroed [of g1 r] that by (simp add: vs g2_def adv maxVerticalAngle_def)
  have f: "r \<le> vz (viewPolar g')"
    using moveView_distance [of r g1] by (simp add: vp g2_def)
  have b1: "bodyPosition g1 (getFocusedBody g1) = bodyPosition g (getFocusedBody g)"
    by (simp add: g1_def bodyPosition_def getFocusedBody_def)
  have "viewPos g' - bodyPosition g (getFocusedBody g) =
          smul (vz (viewPolar g')) (polarToCartesian (vec2_of (viewPolar g')))"
    unfolding vq vp unfolding g2_def viewPos_moveView b1 by simp
  then have h: "length3 (viewPos g' - bodyPosition g (getFocusedBody g)) = \<bar>vz (viewPolar g')\<bar>"
    by (simp add: length3_smul_polar)
  have i: "r \<le> length3 (viewPos g' - bodyPosition g (getFocusedBody g))"
    using f unfolding h by simp
  have j: "switchPhase g' = switchPhase g \<and> getFocusedBody g' = getFocusedBody g
           \<and> bodyRadius g' (getFocusedBody g') = r
           \<and> bodyPosition g' (getFocusedBody g') = bodyPosition g (getFocusedBody g)" if "\<not> fired"
  proof -
    from that have q: "\<not> (glfwGetKey win GLFW_KEY_TAB \<and> \<not> keysHeld g GLFW_KEY_TAB)"
      by (simp add: fired_def)
    have p: "switchPhase g' = switchPhase g"
      using q by (auto simp: g'_def updateIdle_phase)
    have fo: "focusedBodyId g' = focusedBodyId g" unfolding g'_def by (rule updateIdle_quiet [OF q])
    have ec: "entityCollection g' = entityCollection g" unfolding g'_def by (rule updateIdle_view)
    show ?thesis
      by (simp add: p r_def bodyRadius_def bodyPosition_def getFocusedBody_def fo ec)
  qed
  have k: "switchPhase (updateMove dm m) = IDLE
           \<and> vz (viewPolar (updateMove dm m)) = max (4 * bodyRadius m (getFocusedBody m)) 1000
           \<and> bodyRadius m (getFocusedBody m) \<le> vz (viewPolar (updateMove dm m))"
    if "switchTime m + dm > 1"
    using that by (simp add: updateMove_phase moveTargetDist_def max_def)
  have l: "viewPolar (update fr g0) =
              viewPolar (updateIdle (frameWindow fr) (frameDt fr) (framePosX fr) (framePosY fr) (frameStart fr g0))
            \<and> panPolar (update fr g0) =
              panPolar (updateIdle (frameWindow fr) (frameDt fr) (framePosX fr) (framePosY fr) (frameStart fr g0))
            \<and> viewSpeed (update fr g0) =
              viewSpeed (updateIdle (frameWindow fr) (frameDt fr) (framePosX fr) (framePosY fr) (frameStart fr g0))
            \<and> viewPos (update fr g0) =
              viewPos (updateIdle (frameWindow fr) (frameDt fr) (framePosX fr) (framePosY fr) (frameStart fr g0))
            \<and> bodyRadius (frameStart fr g0) (getFocusedBody (frameStart fr g0)) =
              bodyRadius g0 (getFocusedBody g0)"
    if "switchPhase g0 = IDLE"
    using update_IDLE_view [OF that, of fr] by simp
  from a b c d e f h i j k l show ?thesis by blast
qed

lemma focused_restGame:
  "getFocusedBody (restGame\<lparr>viewPolar := p, viewSpeed := s\<rparr>) = Some 0"
  "bodyRadius (restGame\<lparr>viewPolar := p, viewSpeed := s\<rparr>) (Some 0) = 1"
  by (simp_all add: getFocusedBody_def restGame_def getBodies_twoBodies)
    (simp add: bodyRadius_def getParam_def twoBodies_def entityOf_def)

lemma dragView_released:
  "\<not> dragging g \<Longrightarrow> dragView (frameWindow (frameOf d keys)) x y g = g"
  by (simp add: dragView_def Let_def frameOf_def)

text \<open>
  The resting camera raised to elevation 3 with elevation speed 0.1 (beyond \<open>\<pi>/2\<close>): the
  update clamps the elevation to \<open>\<pi>/2 - 0.001\<close>, zeroes the elevation speed, keeps the
  distance 5 above the radius 1 and stays in IDLE; a completed MOVE puts the camera at
  distance 1000.
\<close>

theorem idle_invariants_witness:
  "vy (viewPolar (updateIdle (frameWindow (frameOf (1 / 60) [])) (1 / 60) 0 0
         (restGame\<lparr>viewPolar := Vec3 0 3 5, viewSpeed := Vec3 0 (1 / 10) 0\<rparr>))) = pi / 2 - 0.001
   \<and> vy (viewSpeed (updateIdle (frameWindow (frameOf (1 / 60) [])) (1 / 60) 0 0
         (restGame\<lparr>viewPolar := Vec3 0 3 5, viewSpeed := Vec3 0 (1 / 10) 0\<rparr>))) = 0
   \<and> 1 \<le> vz (viewPolar (updateIdle (frameWindow (frameOf (1 / 60) [])) (1 / 60) 0 0
         (restGame\<lparr>viewPolar := Vec3 0 3 5, viewSpeed := Vec3 0 (1 / 10) 0\<rparr>)))
   \<and> switchPhase (updateIdle (frameWindow (frameOf (1 / 60) [])) (1 / 60) 0 0
         (restGame\<lparr>viewPolar := Vec3 0 3 5, viewSpeed := Vec3 0 (1 / 10) 0\<rparr>)) = IDLE
   \<and> vz (viewPolar (updateMove 2 (restGame\<lparr>viewPolar := Vec3 0 3 5, viewSpeed := Vec3 0 (1 / 10) 0\<rparr>))) = 1000
   \<and> viewPolar (update (frameOf (1 / 60) []) restGame) =
       viewPolar (updateIdle (frameWindow (frameOf (1 / 60) [])) (1 / 60) 0 0 (frameStart (frameOf (1 / 60) []) restGame))"
proof -
  define G where "G = restGame\<lparr>viewPolar := Vec3 0 3 5, viewSpeed := Vec3 0 (1 / 10) 0\<rparr>"
  define W where "W = frameWindow (frameOf (1 / 60) [])"
  have d: "dragView W 0 0 G = G"
    unfolding W_def by (rule dragView_released) (simp add: G_def restGame_def)
  have k: "\<not> glfwGetKey W GLFW_KEY_TAB" by (simp add: W_def frameOf_def)
  have s: "switchPhase G = IDLE" "switchTime G + 2 > 1" "switchPhase restGame = IDLE"
    "vy (viewPolar G) + vy (viewSpeed G) = 31 / 10"
    by (simp_all add: G_def restGame_def)
  have p: "pi / 2 - 0.001 < 31 / 10" using pi_less_4 by simp
  have f: "getFocusedBody G = Some 0" "bodyRadius G (Some 0) = 1"
    unfolding G_def by (rule focused_restGame)+
  have fr: "frameWindow (frameOf (1 / 60) []) = W" "frameDt (frameOf (1 / 60) []) = 1 / 60"
    "framePosX (frameOf (1 / 60) []) = 0" "framePosY (frameOf (1 / 60) []) = 0"
    by (simp_all add: W_def frameOf_def)
  from idle_invariants [where win = W and posX = 0 and posY = 0 and g = G and dt = "1 / 60"
      and m = G and dm = 2 and ?g0.0 = restGame and fr = "frameOf (1 / 60) []"]
  show ?thesis
    unfolding G_def [symmetric] W_def [symmetric]
    using p by (simp add: d k s f fr)
qed

subsection \<open>The MOVE phase across frames\<close>

lemma bodyPosition_frameStart [simp]:
  "bodyPosition (frameStart fr g) h = framePosition fr h"
  by (simp add: bodyPosition_def framePosition_def getState_def setState_def)

lemma getPreviousBody_frameStart [simp]: "getPreviousBody (frameStart fr g) = getPreviousBody g"
  by (simp add: getPreviousBody_def)

lemma moveSourcePos_frameStart:
  "moveSourcePos (frameStart fr g) =
     framePosition fr (getPreviousBody g)
     + smul (vz (viewPolar g)) (polarToCartesian (vec2_of (viewPolar g)))"
  by (simp add: moveSourcePos_def)

lemma moveDirection_frameStart:
  "moveDirection (frameStart fr g) =
     normalize (framePosition fr (getFocusedBody g) - framePosition fr (getPreviousBody g)
                - smul (vz (viewPolar g)) (polarToCartesian (vec2_of (viewPolar g))))"
  by (simp add: moveDirection_def moveSourcePos_frameStart algebra_simps)

lemma update_MOVE_kept:
  assumes p: "switchPhase g = MOVE" and le: "switchTime g + frameDt fr \<le> 1"
  shows "switchPhase (update fr g) = MOVE" "viewPolar (update fr g) = viewPolar g"
    "switchTime (update fr g) = switchTime g + frameDt fr"
    "getFocusedBody (update fr g) = getFocusedBody g"
    "getPreviousBody (update fr g) = getPreviousBody g"
proof -
  have u: "update fr g = frameEnd fr (updateMove (frameDt fr) (frameStart fr g))"
    using p by (rule update_MOVE)
  have n: "\<not> switchTime (frameStart fr g) + frameDt fr > 1" using le by simp
  show "switchPhase (update fr g) = MOVE" "viewPolar (update fr g) = viewPolar g"
    "switchTime (update fr g) = switchTime g + frameDt fr"
    unfolding u using n p by (simp_all add: updateMove_phase)
  show "getFocusedBody (update fr g) = getFocusedBody g"
    "getPreviousBody (update fr g) = getPreviousBody g"
    unfolding u by (simp_all add: getFocusedBody_def getPreviousBody_def)
qed

lemma update_MOVE_viewDir:
  assumes p: "switchPhase g = MOVE"
  shows "viewDir (update fr g) = lookAt 0 (moveDirection (frameStart fr g)) (Vec3 0 0 1)"
  unfolding update_MOVE [OF p] by (simp add: updateMove_phase)

text \<open>
  Claim C6, as amended. In every MOVE update the orientation is \<open>lookAt\<close> of the direction
  from the source position to the focused body, and the camera position is the
  interpolation \<open>f \<cdot> target + (1 - f) \<cdot> source\<close> with \<open>f = ease2 t 4\<close> at \<open>t = min 1 switchTime\<close>,
  which for a non-negative timer is \<open>t\<^sup>4 / (t\<^sup>4 + (1 - t)\<^sup>4)\<close> and lies in [0, 1]. The source
  is the current position of the previous body plus the polar offset the TRACK phase
  left in \<open>viewPolar\<close>; the direction is the normalised difference between the current
  position of the focused body and the source; the target is the position of the focused
  body minus the direction times \<open>max (4 \<cdot> radius) 1000\<close>. Unless the source coincides with
  the centre of the focused body, the aim of the orientation is that direction, the target
  is at distance \<open>max (4 \<cdot> radius) 1000\<close> from the body, and the body lies straight ahead of
  the camera. The camera is at the source when the timer is 0 and at the target when the
  timer has reached 1. Across frames (last conjunct): while the timer has not passed 1
  the phase stays MOVE and the polar offset is kept, so in the next frame the source and
  the direction are the same functions of that frame's body positions; the orientation
  is the same in the two frames when the displacement from the previous to the focused
  body is the same in both, and the source position is the same when the previous body
  has not moved.
\<close>

theorem move_holds_aim:
  fixes g :: Game and dt :: real
  defines "t \<equiv> min 1 (switchTime g)"
    and "g' \<equiv> updateMove dt g"
    and "apart \<equiv> bodyPosition g (getFocusedBody g) \<noteq> moveSourcePos g"
  shows "viewDir g' = lookAt 0 (moveDirection g) (Vec3 0 0 1)
       \<and> viewPos g' = smul (ease2 t 4) (moveTargetPos g) + smul (1 - ease2 t 4) (moveSourcePos g)
       \<and> (0 \<le> switchTime g \<longrightarrow>
            ease2 t 4 = t ^ 4 / (t ^ 4 + (1 - t) ^ 4) \<and> 0 \<le> ease2 t 4 \<and> ease2 t 4 \<le> 1)
       \<and> moveSourcePos g =
           bodyPosition g (getPreviousBody g)
           + smul (vz (viewPolar g)) (polarToCartesian (vec2_of (viewPolar g)))
       \<and> moveDirection g = normalize (bodyPosition g (getFocusedBody g) - moveSourcePos g)
       \<and> moveTargetPos g =
           bodyPosition g (getFocusedBody g)
           - smul (max (4 * bodyRadius g (getFocusedBody g)) 1000) (moveDirection g)
       \<and> (apart \<longrightarrow> forward (viewDir g') = moveDirection g
                     \<and> length3 (bodyPosition g (getFocusedBody g) - moveTargetPos g)
                         = max (4 * bodyRadius g (getFocusedBody g)) 1000)
       \<and> (apart \<and> 0 \<le> switchTime g \<longrightarrow>
            (\<exists>c>0. bodyPosition g (getFocusedBody g) - viewPos g' = smul c (forward (viewDir g'))))
       \<and> (switchTime g = 0 \<longrightarrow> viewPos g' = moveSourcePos g)
       \<and> (1 \<le> switchTime g \<longrightarrow> viewPos g' = moveTargetPos g)
       \<and> (\<forall>fr fr'. switchPhase g = MOVE \<and> switchTime g + frameDt fr \<le> 1 \<longrightarrow>
            switchPhase (update fr g) = MOVE
            \<and> viewPolar (update fr g) = viewPolar g
            \<and> viewDir (update fr g) = lookAt 0 (moveDirection (frameStart fr g)) (Vec3 0 0 1)
            \<and> viewDir (update fr' (update fr g)) =
                lookAt 0 (moveDirection (frameStart fr' (update fr g))) (Vec3 0 0 1)
            \<and> moveSourcePos (frameStart fr' (update fr g)) =
                framePosition fr' (getPreviousBody g)
                + smul (vz (viewPolar g)) (polarToCartesian (vec2_of (viewPolar g)))
            \<and> moveDirection (frameStart fr' (update fr g)) =
                normalize (framePosition fr' (getFocusedBody g) - framePosition fr' (getPreviousBody g)
                           - smul (vz (viewPolar g)) (polarToCartesian (vec2_of (viewPolar g))))
            \<and> (framePosition fr' (getFocusedBody g) - framePosition fr' (getPreviousBody g)
                = framePosition fr (getFocusedBody g) - framePosition fr (getPreviousBody g) \<longrightarrow>
                 viewDir (update fr' (update fr g)) = viewDir (update fr g))
            \<and> (framePosition fr' (getPreviousBody g) = framePosition fr (getPreviousBody g) \<longrightarrow>
                 moveSourcePos (frameStart fr' (update fr g)) = moveSourcePos (frameStart fr g)))"
proof -
  have a: "viewDir g' = lookAt 0 (moveDirection g) (Vec3 0 0 1)"
    by (simp add: g'_def updateMove_phase)
  have b: "viewPos g' = smul (ease2 t 4) (moveTargetPos g) + smul (1 - ease2 t 4) (moveSourcePos g)"
    by (simp add: g'_def updateMove_phase t_def)
  have c: "ease2 t 4 = t ^ 4 / (t ^ 4 + (1 - t) ^ 4) \<and> 0 \<le> ease2 t 4 \<and> ease2 t 4 \<le> 1"
    if "0 \<le> switchTime g"
  proof -
    from that have t01: "0 \<le> t" "t \<le> 1" by (simp_all add: t_def)
    from ease2_closed [OF t01] ease2_range [of t] show ?thesis by simp
  qed
  have d: "moveSourcePos g =
           bodyPosition g (getPreviousBody g)
           + smul (vz (viewPolar g)) (polarToCartesian (vec2_of (viewPolar g)))"
    by (simp add: moveSourcePos_def)
  have e: "moveDirection g = normalize (bodyPosition g (getFocusedBody g) - moveSourcePos g)"
    by (simp add: moveDirection_def)
  have f: "moveTargetPos g =
           bodyPosition g (getFocusedBody g)
           - smul (max (4 * bodyRadius g (getFocusedBody g)) 1000) (moveDirection g)"
    by (simp add: moveTargetPos_def moveTargetDist_def)
  have h: "forward (viewDir g') = moveDirection g
           \<and> length3 (bodyPosition g (getFocusedBody g) - moveTargetPos g)
               = max (4 * bodyRadius g (getFocusedBody g)) 1000" if apart
  proof -
    from that have ap: "bodyPosition g (getFocusedBody g) \<noteq> moveSourcePos g" by (simp add: apart_def)
    have fw: "forward (viewDir g') = moveDirection g"
      using ap by (simp add: a forward_lookAt moveDirection_def normalize_unit)
    have "bodyPosition g (getFocusedBody g) - moveTargetPos g
            = smul (max (4 * bodyRadius g (getFocusedBody g)) 1000) (moveDirection g)"
      unfolding f by (simp add: vec3.expand)
    then have "length3 (bodyPosition g (getFocusedBody g) - moveTargetPos g)
            = sqrt ((max (4 * bodyRadius g (getFocusedBody g)) 1000)\<^sup>2
                    * dot (moveDirection g) (moveDirection g))"
      by (simp add: length3_def dot_smul power2_eq_square)
    also have "\<dots> = max (4 * bodyRadius g (getFocusedBody g)) 1000"
      using moveDirection_unit [OF ap] by (simp add: max_def)
    finally show ?thesis using fw by simp
  qed
  have i: "\<exists>c>0. bodyPosition g (getFocusedBody g) - viewPos g' = smul c (forward (viewDir g'))"
    if "apart \<and> 0 \<le> switchTime g"
  proof -
    from that have ap: "bodyPosition g (getFocusedBody g) \<noteq> moveSourcePos g" and "0 \<le> switchTime g"
      by (simp_all add: apart_def)
    with c have r: "0 \<le> ease2 t 4" "ease2 t 4 \<le> 1" by simp_all
    from move_aimed [OF ap r] h that show ?thesis unfolding b by simp
  qed
  have s0: "viewPos g' = moveSourcePos g" if "switchTime g = 0"
    using that by (simp add: g'_def updateMove_phase ease2_ends vec3.expand)
  have s1: "viewPos g' = moveTargetPos g" if "1 \<le> switchTime g"
    using that by (simp add: g'_def updateMove_phase ease2_ends min_def vec3.expand)
  have j: "switchPhase (update fr g) = MOVE
            \<and> viewPolar (update fr g) = viewPolar g
            \<and> viewDir (update fr g) = lookAt 0 (moveDirection (frameStart fr g)) (Vec3 0 0 1)
            \<and> viewDir (update fr' (update fr g)) =
                lookAt 0 (moveDirection (frameStart fr' (update fr g))) (Vec3 0 0 1)
            \<and> moveSourcePos (frameStart fr' (update fr g)) =
                framePosition fr' (getPreviousBody g)
                + smul (vz (viewPolar g)) (polarToCartesian (vec2_of (viewPolar g)))
            \<and> moveDirection (frameStart fr' (update fr g)) =
                normalize (framePosition fr' (getFocusedBody g) - framePosition fr' (getPreviousBody g)
                           - smul (vz (viewPolar g)) (polarToCartesian (vec2_of (viewPolar g))))
            \<and> (framePosition fr' (getFocusedBody g) - framePosition fr' (getPreviousBody g)
                = framePosition fr (getFocusedBody g) - framePosition fr (getPreviousBody g) \<longrightarrow>
                 viewDir (update fr' (update fr g)) = viewDir (update fr g))
            \<and> (framePosition fr' (getPreviousBody g) = framePosition fr (getPreviousBody g) \<longrightarrow>
                 moveSourcePos (frameStart fr' (update fr g)) = moveSourcePos (frameStart fr g))"
    if "switchPhase g = MOVE \<and> switchTime g + frameDt fr \<le> 1" for fr fr'
  proof -
    from that have p: "switchPhase g = MOVE" and le: "switchTime g + frameDt fr \<le> 1" by simp_all
    note k = update_MOVE_kept [OF p le]
    have v1: "viewDir (update fr g) = lookAt 0 (moveDirection (frameStart fr g)) (Vec3 0 0 1)"
      using p by (rule update_MOVE_viewDir)
    have v2: "viewDir (update fr' (update fr g)) =
                lookAt 0 (moveDirection (frameStart fr' (update fr g))) (Vec3 0 0 1)"
      using k(1) by (rule update_MOVE_viewDir)
    have sp: "moveSourcePos (frameStart fr' (update fr g)) =
                framePosition fr' (getPreviousBody g)
                + smul (vz (viewPolar g)) (polarToCartesian (vec2_of (viewPolar g)))"
      by (simp add: moveSourcePos_frameStart k)
    have md: "moveDirection (frameStart fr' (update fr g)) =
                normalize (framePosition fr' (getFocusedBody g) - framePosition fr' (getPreviousBody g)
                           - smul (vz (viewPolar g)) (polarToCartesian (vec2_of (viewPolar g))))"
      by (simp add: moveDirection_frameStart k)
    have same: "viewDir (update fr' (update fr g)) = viewDir (update fr g)"
      if "framePosition fr' (getFocusedBody g) - framePosition fr' (getPreviousBody g)
                = framePosition fr (getFocusedBody g) - framePosition fr (getPreviousBody g)"
      unfolding v1 v2 md by (simp add: moveDirection_frameStart that)
    have src: "moveSourcePos (frameStart fr' (update fr g)) = moveSourcePos (frameStart fr g)"
      if "framePosition fr' (getPreviousBody g) = framePosition fr (getPreviousBody g)"
      unfolding sp by (simp add: moveSourcePos_frameStart that)
    from k(1) k(2) v1 v2 sp md same src show ?thesis by blast
  qed
  from a b c d e f h i s0 s1 j show ?thesis by blast
qed

lemma sqrt_400: "sqrt 400 = 20"
  by (rule real_sqrt_unique) simp_all

lemma polarToCartesian_origin: "polarToCartesian (Vec2 0 0) = Vec3 1 0 0"
  by (simp add: polarToCartesian_def)

lemma normalize_16_12: "normalize (Vec3 (- 16) 12 0) = Vec3 (- (4 / 5)) (3 / 5) 0"
  "normalize (Vec3 (- 16) (- 12) 0) = Vec3 (- (4 / 5)) (- (3 / 5)) 0"
  by (simp_all add: normalize_def dot_def smul_def sqrt_400)

lemma moveGame_bodies:
  "getFocusedBody (moveGame\<lparr>switchTime := s\<rparr>) = Some 1"
  "getPreviousBody (moveGame\<lparr>switchTime := s\<rparr>) = Some 0"
  "getFocusedBody moveGame = Some 1" "getPreviousBody moveGame = Some 0"
  by (simp_all add: getFocusedBody_def getPreviousBody_def moveGame_def restGame_def getBodies_twoBodies)

lemma moveGame_positions:
  "bodyPosition (moveGame\<lparr>switchTime := s\<rparr>) (Some (Suc 0)) = Vec3 (- 11) 12 0"
  "bodyPosition (moveGame\<lparr>switchTime := s\<rparr>) (Some 0) = Vec3 0 0 0"
  "bodyRadius (moveGame\<lparr>switchTime := s\<rparr>) (Some (Suc 0)) = 3"
  by (simp_all add: bodyPosition_def bodyRadius_def moveGame_def restGame_def getState_def getParam_def
      twoBodies_def twoBodiesState_def entityOf_def zero_vec3_def)

lemma moveGame_source: "moveSourcePos (moveGame\<lparr>switchTime := s\<rparr>) = Vec3 5 0 0"
  by (simp add: moveSourcePos_def moveGame_bodies moveGame_positions)
    (simp add: moveGame_def restGame_def vec2_of_def polarToCartesian_origin smul_def plus_vec3_def)

lemma moveGame_direction:
  "moveDirection (moveGame\<lparr>switchTime := s\<rparr>) = Vec3 (- (4 / 5)) (3 / 5) 0"
  by (simp add: moveDirection_def moveGame_source moveGame_bodies moveGame_positions
      minus_vec3_def normalize_16_12)

lemma moveGame_target:
  "moveTargetPos (moveGame\<lparr>switchTime := s\<rparr>) = Vec3 789 (- 588) 0"
  by (simp add: moveTargetPos_def moveTargetDist_def moveGame_direction moveGame_bodies
      moveGame_positions smul_def minus_vec3_def)

lemma moveGame_same: "moveGame\<lparr>switchTime := 0\<rparr> = moveGame"
  by (simp add: moveGame_def restGame_def)

lemma framePosition_frames:
  "framePosition (frameOf d keys) (Some (Suc 0)) = Vec3 (- 11) 12 0"
  "framePosition (frameOf d keys) (Some 0) = Vec3 0 0 0"
  "framePosition (mirroredFrame d) (Some (Suc 0)) = Vec3 (- 11) (- 12) 0"
  "framePosition (mirroredFrame d) (Some 0) = Vec3 0 0 0"
  by (simp_all add: framePosition_def frameOf_def mirroredFrame_def twoBodiesState_def
      mirroredState_def zero_vec3_def)

lemma moveGame_fields:
  "switchPhase moveGame = MOVE" "switchTime moveGame = 0" "viewPolar moveGame = Vec3 0 0 5"
  "frameDt (frameOf d keys) = d" "frameDt (mirroredFrame d) = d"
  by (simp_all add: moveGame_def restGame_def frameOf_def mirroredFrame_def)

text \<open>
  The MOVE phase from the first body (camera at (5, 0, 0)) to the second, at (-11, 12, 0)
  with radius 3: the camera starts at the source, ends at (789, -588, 0), which is 1000
  from the second body, aims along (-4/5, 3/5, 0), and keeps the orientation over two
  frames in which the bodies rest.
\<close>

theorem move_holds_aim_witness:
  "viewPos (updateMove (1 / 2) moveGame) = Vec3 5 0 0
   \<and> viewPos (updateMove (1 / 2) (moveGame\<lparr>switchTime := 1\<rparr>)) = Vec3 789 (- 588) 0
   \<and> forward (viewDir (updateMove (1 / 2) moveGame)) = Vec3 (- (4 / 5)) (3 / 5) 0
   \<and> length3 (Vec3 (- 11) 12 0 - Vec3 789 (- 588) 0) = 1000
   \<and> switchPhase (update (frameOf (1 / 2) []) moveGame) = MOVE
   \<and> viewDir (update (frameOf (1 / 4) []) (update (frameOf (1 / 2) []) moveGame))
       = viewDir (update (frameOf (1 / 2) []) moveGame)"
proof -
  have ap: "bodyPosition (moveGame\<lparr>switchTime := s\<rparr>) (getFocusedBody (moveGame\<lparr>switchTime := s\<rparr>))
            \<noteq> moveSourcePos (moveGame\<lparr>switchTime := s\<rparr>)" for s
    by (simp add: moveGame_bodies moveGame_positions moveGame_source)
  note m0 = move_holds_aim [where g = moveGame and dt = "1 / 2"]
  note m1 = move_holds_aim [where g = "moveGame\<lparr>switchTime := 1\<rparr>" and dt = "1 / 2"]
  have a: "viewPos (updateMove (1 / 2) moveGame) = Vec3 5 0 0"
    using m0 [THEN conjunct2, THEN conjunct2, THEN conjunct2, THEN conjunct2, THEN conjunct2, THEN conjunct2, THEN conjunct2, THEN conjunct2, THEN conjunct1] moveGame_source [of 0]
    by (simp add: moveGame_fields moveGame_same)
  have b: "viewPos (updateMove (1 / 2) (moveGame\<lparr>switchTime := 1\<rparr>)) = Vec3 789 (- 588) 0"
    using m1 [THEN conjunct2, THEN conjunct2, THEN conjunct2, THEN conjunct2, THEN conjunct2, THEN conjunct2, THEN conjunct2, THEN conjunct2, THEN conjunct2, THEN conjunct1] by (simp add: moveGame_target)
  have h: "forward (viewDir (updateMove (1 / 2) moveGame)) = moveDirection moveGame
           \<and> length3 (bodyPosition moveGame (getFocusedBody moveGame) - moveTargetPos moveGame)
               = max (4 * bodyRadius moveGame (getFocusedBody moveGame)) 1000"
    using m0 [THEN conjunct2, THEN conjunct2, THEN conjunct2, THEN conjunct2, THEN conjunct2, THEN conjunct2, THEN conjunct1] ap [of 0] by (simp add: moveGame_same)
  have c: "forward (viewDir (updateMove (1 / 2) moveGame)) = Vec3 (- (4 / 5)) (3 / 5) 0"
    using h moveGame_direction [of 0] by (simp add: moveGame_same)
  have d: "length3 (Vec3 (- 11) 12 0 - Vec3 789 (- 588) 0) = 1000"
    using h moveGame_target [of 0] moveGame_positions [of 0] moveGame_bodies
    by (simp add: moveGame_same)
  have e: "switchPhase (update (frameOf (1 / 2) []) moveGame) = MOVE
         \<and> viewDir (update (frameOf (1 / 4) []) (update (frameOf (1 / 2) []) moveGame))
             = viewDir (update (frameOf (1 / 2) []) moveGame)"
  proof -
    have pre: "switchPhase moveGame = MOVE \<and> switchTime moveGame + frameDt (frameOf (1 / 2) []) \<le> 1"
      by (simp add: moveGame_fields)
    have eq: "framePosition (frameOf (1 / 4) []) (getFocusedBody moveGame)
                - framePosition (frameOf (1 / 4) []) (getPreviousBody moveGame)
              = framePosition (frameOf (1 / 2) []) (getFocusedBody moveGame)
                - framePosition (frameOf (1 / 2) []) (getPreviousBody moveGame)"
      by (simp add: moveGame_bodies framePosition_frames)
    from m0 [THEN conjunct2, THEN conjunct2, THEN conjunct2, THEN conjunct2, THEN conjunct2, THEN conjunct2, THEN conjunct2, THEN conjunct2, THEN conjunct2, THEN conjunct2, THEN spec, THEN spec, THEN mp, OF pre] eq
    show ?thesis by blast
  qed
  from a b c d e show ?thesis by simp
qed

text \<open>
  Claim C6 as stated fails when a body moves during the phase: the epoch advances in
  every frame (line 521), the states are resolved again (lines 523-560), and lines 882-887
  recompute the source and the direction from the current positions of the two bodies
  (only the polar offset is captured). With the second body at (-11, 12, 0) in one MOVE
  frame and at (-11, -12, 0) in the next, the aim turns from (-4/5, 3/5, 0) to
  (-4/5, -3/5, 0) while the phase is still MOVE.
\<close>

theorem move_aim_drifts:
  "switchPhase moveGame = MOVE
   \<and> switchPhase (update (frameOf (1 / 2) []) moveGame) = MOVE
   \<and> forward (viewDir (update (frameOf (1 / 2) []) moveGame)) = Vec3 (- (4 / 5)) (3 / 5) 0
   \<and> forward (viewDir (update (mirroredFrame (1 / 4)) (update (frameOf (1 / 2) []) moveGame)))
       = Vec3 (- (4 / 5)) (- (3 / 5)) 0
   \<and> viewDir (update (mirroredFrame (1 / 4)) (update (frameOf (1 / 2) []) moveGame))
       \<noteq> viewDir (update (frameOf (1 / 2) []) moveGame)"
proof -
  have p: "switchPhase moveGame = MOVE" and le: "switchTime moveGame + frameDt (frameOf (1 / 2) []) \<le> 1"
    by (simp_all add: moveGame_fields)
  note k = update_MOVE_kept [OF p le]
  have d1: "moveDirection (frameStart (frameOf (1 / 2) []) moveGame) = Vec3 (- (4 / 5)) (3 / 5) 0"
    by (simp add: moveDirection_frameStart moveGame_bodies framePosition_frames moveGame_fields
        vec2_of_def polarToCartesian_origin smul_def minus_vec3_def normalize_16_12)
  have d2: "moveDirection (frameStart (mirroredFrame (1 / 4)) (update (frameOf (1 / 2) []) moveGame))
            = Vec3 (- (4 / 5)) (- (3 / 5)) 0"
    by (simp add: moveDirection_frameStart k moveGame_bodies framePosition_frames moveGame_fields
        vec2_of_def polarToCartesian_origin smul_def minus_vec3_def normalize_16_12)
  have n1: "normalize (Vec3 (- (4 / 5)) (3 / 5) 0) = Vec3 (- (4 / 5)) (3 / 5) 0"
    "normalize (Vec3 (- (4 / 5)) (- (3 / 5)) 0) = Vec3 (- (4 / 5)) (- (3 / 5)) 0"
    by (simp_all add: normalize_def dot_def smul_def)
  have f1: "forward (viewDir (update (frameOf (1 / 2) []) moveGame)) = Vec3 (- (4 / 5)) (3 / 5) 0"
    by (simp add: update_MOVE_viewDir [OF p] d1 forward_lookAt n1)
  have f2: "forward (viewDir (update (mirroredFrame (1 / 4)) (update (frameOf (1 / 2) []) moveGame)))
            = Vec3 (- (4 / 5)) (- (3 / 5)) 0"
    by (simp add: update_MOVE_viewDir [OF k(1)] d2 forward_lookAt n1)
  have ne: "viewDir (update (mirroredFrame (1 / 4)) (update (frameOf (1 / 2) []) moveGame))
       \<noteq> viewDir (update (frameOf (1 / 2) []) moveGame)"
  proof
    assume "viewDir (update (mirroredFrame (1 / 4)) (update (frameOf (1 / 2) []) moveGame))
       = viewDir (update (frameOf (1 / 2) []) moveGame)"
    then have "forward (viewDir (update (mirroredFrame (1 / 4)) (update (frameOf (1 / 2) []) moveGame)))
       = forward (viewDir (update (frameOf (1 / 2) []) moveGame))" by simp
    then show False unfolding f1 f2 by simp
  qed
  from p k(1) f1 f2 ne show ?thesis by simp
qed

subsection \<open>The whole cycle\<close>

lemma cycle_state:
  fixes g0 :: Game and fr0 tl :: Frame and ts ms :: "Frame list"
  defines "g2 \<equiv> runFrames (fr0 # ts) g0"
    and "g4 \<equiv> runFrames (fr0 # ts @ [tl] @ ms) g0"
  assumes idle: "switchPhase g0 = IDLE"
    and tab: "glfwGetKey (frameWindow fr0) GLFW_KEY_TAB" "\<not> keysHeld g0 GLFW_KEY_TAB"
    and nonneg: "\<forall>fr\<in>set (ts @ ms). 0 \<le> frameDt fr"
    and track: "switchTime g0 + elapsed ts \<le> 1" "1 < switchTime g0 + elapsed ts + frameDt tl"
    and move: "elapsed ms \<le> 1"
  shows "switchPhase g2 = TRACK"
    and "switchTime g2 = switchTime g0 + elapsed ts"
    and "viewPolar g2 = viewPolar (update fr0 g0)"
    and "switchNewViewPolar g2 = switchNewViewPolar (update fr0 g0)"
    and "switchPhase g4 = MOVE"
    and "switchTime g4 = elapsed ms"
    and "focusedBodyId g4 = chooseNextBody (\<not> glfwGetKey (frameWindow fr0) GLFW_KEY_LEFT_SHIFT) g0"
    and "switchPreviousBodyId g4 = focusedBodyId g0"
    and "viewPolar g4 = trackInterpPolar (frameStart tl g2)"
    and "getBodies (entityCollection g4) = getBodies (entityCollection g0)"
proof -
  let ?g1 = "update fr0 g0"
  let ?g3 = "update tl g2"
  note trig = update_trigger [OF idle tab] update_trigger_more [OF idle tab]
  have p1: "switchPhase ?g1 = TRACK" and t1: "switchTime ?g1 = switchTime g0"
    using trig by simp_all
  have nts: "\<forall>fr\<in>set ts. 0 \<le> frameDt fr" and nms: "\<forall>fr\<in>set ms. 0 \<le> frameDt fr"
    using nonneg by simp_all
  have g2: "g2 = runFrames ts ?g1" by (simp add: g2_def)
  from runFrames_TRACK [OF p1 nts] track(1) t1
  have p2: "switchPhase g2 = TRACK" and t2: "switchTime g2 = switchTime g0 + elapsed ts"
    and f2: "focusedBodyId g2 = focusedBodyId ?g1"
    and b2: "switchPreviousBodyId g2 = switchPreviousBodyId ?g1"
    and v2: "viewPolar g2 = viewPolar ?g1"
    and n2: "switchNewViewPolar g2 = switchNewViewPolar ?g1"
    and c2: "getBodies (entityCollection g2) = getBodies (entityCollection ?g1)"
    unfolding g2 by simp_all
  have u3: "?g3 = frameEnd tl (updateTrack (frameDt tl) (frameStart tl g2))"
    using p2 by (rule update_TRACK)
  have over: "switchTime (frameStart tl g2) + frameDt tl > 1" using track(2) t2 by simp
  have p3: "switchPhase ?g3 = MOVE" and t3: "switchTime ?g3 = 0"
    and f3: "focusedBodyId ?g3 = focusedBodyId ?g1"
    and b3: "switchPreviousBodyId ?g3 = switchPreviousBodyId ?g1"
    and v3: "viewPolar ?g3 = trackInterpPolar (frameStart tl g2)"
    and c3: "getBodies (entityCollection ?g3) = getBodies (entityCollection ?g1)"
    unfolding u3 using over f2 b2 c2 by (simp_all add: updateTrack_phase)
  have g4: "g4 = runFrames ms ?g3" by (simp add: g4_def g2_def runFrames_append)
  from runFrames_MOVE [OF p3 nms] move t3
  have p4: "switchPhase g4 = MOVE" and t4: "switchTime g4 = elapsed ms"
    and f4: "focusedBodyId g4 = focusedBodyId ?g3"
    and b4: "switchPreviousBodyId g4 = switchPreviousBodyId ?g3"
    and v4: "viewPolar g4 = viewPolar ?g3"
    and c4: "getBodies (entityCollection g4) = getBodies (entityCollection ?g3)"
    unfolding g4 by simp_all
  show "switchPhase g2 = TRACK" by (rule p2)
  show "switchTime g2 = switchTime g0 + elapsed ts" by (rule t2)
  show "viewPolar g2 = viewPolar (update fr0 g0)" by (rule v2)
  show "switchNewViewPolar g2 = switchNewViewPolar (update fr0 g0)" by (rule n2)
  show "switchPhase g4 = MOVE" by (rule p4)
  show "switchTime g4 = elapsed ms" by (rule t4)
  show "focusedBodyId g4 = chooseNextBody (\<not> glfwGetKey (frameWindow fr0) GLFW_KEY_LEFT_SHIFT) g0"
    using f4 f3 trig by simp
  show "switchPreviousBodyId g4 = focusedBodyId g0" using b4 b3 trig by simp
  show "viewPolar g4 = trackInterpPolar (frameStart tl g2)" using v4 v3 by simp
  show "getBodies (entityCollection g4) = getBodies (entityCollection g0)" using c4 c3 trig by simp
qed

text \<open>
  Claim C4, as amended. A switch is triggered from IDLE by the frame \<open>fr0\<close> (TAB down and
  not recorded as held). Let the frames that follow be \<open>ts\<close>, \<open>tl\<close>, \<open>ms\<close>, \<open>ml\<close>, with elapsed
  times that are not negative, where \<open>tl\<close> is the first frame at which the TRACK timer
  passes 1 (the timer of the state plus the elapsed times of \<open>ts\<close> is at most 1, and
  exceeds 1 with \<open>tl\<close>) and \<open>ml\<close> is the first frame at which the MOVE timer, restarted
  from 0, passes 1. Then the machine is in TRACK up to \<open>tl\<close>, in MOVE up to \<open>ml\<close>, and after
  \<open>ml\<close> it is in IDLE with the timer, the pan offset and the drag velocity zero, the focus
  on the body chosen at the trigger, and the polar distance \<open>max (4 \<cdot> radius) 1000\<close>. Unless
  the source position of the last MOVE frame coincides with the centre of the new focused
  body (where the direction of line 886 is undefined), the new focused body lies straight
  ahead of the camera, and the orientation is the one IDLE rebuilds from the new polar
  coordinates.
\<close>

theorem switch_cycle_completes:
  fixes g0 :: Game and fr0 tl ml :: Frame and ts ms :: "Frame list"
  defines "gm \<equiv> frameStart ml (runFrames (fr0 # ts @ [tl] @ ms) g0)"
    and "g' \<equiv> runFrames (fr0 # ts @ [tl] @ ms @ [ml]) g0"
  assumes idle: "switchPhase g0 = IDLE"
    and tab: "glfwGetKey (frameWindow fr0) GLFW_KEY_TAB" "\<not> keysHeld g0 GLFW_KEY_TAB"
    and nonneg: "\<forall>fr\<in>set (ts @ ms). 0 \<le> frameDt fr"
    and track: "switchTime g0 + elapsed ts \<le> 1" "1 < switchTime g0 + elapsed ts + frameDt tl"
    and move: "elapsed ms \<le> 1" "1 < elapsed ms + frameDt ml"
  shows "switchPhase (runFrames (fr0 # ts) g0) = TRACK
       \<and> switchPhase (runFrames (fr0 # ts @ [tl] @ ms) g0) = MOVE
       \<and> switchPhase g' = IDLE \<and> switchTime g' = 0 \<and> panPolar g' = 0 \<and> viewSpeed g' = 0
       \<and> focusedBodyId g' = chooseNextBody (\<not> glfwGetKey (frameWindow fr0) GLFW_KEY_LEFT_SHIFT) g0
       \<and> vz (viewPolar g') = max (4 * bodyRadius g' (getFocusedBody g')) 1000
       \<and> (bodyPosition gm (getFocusedBody gm) \<noteq> moveSourcePos gm \<longrightarrow>
            (\<exists>c>0. bodyPosition g' (getFocusedBody g') - viewPos g' = smul c (forward (viewDir g')))
            \<and> - polarToCartesian (vec2_of (viewPolar g') + panPolar g') = forward (viewDir g'))"
proof -
  let ?g4 = "runFrames (fr0 # ts @ [tl] @ ms) g0"
  note cs = cycle_state [OF idle tab nonneg track move(1)]
  have p2: "switchPhase (runFrames (fr0 # ts) g0) = TRACK" by (rule cs(1))
  have p4: "switchPhase ?g4 = MOVE" by (rule cs(5))
  have gm: "gm = frameStart ml ?g4" by (simp only: gm_def)
  have g': "g' = frameEnd ml (updateMove (frameDt ml) gm)"
    using update_MOVE [OF p4, of ml] by (simp add: g'_def gm runFrames_append)
  have tm: "switchTime gm = elapsed ms"
    and fm: "focusedBodyId gm = chooseNextBody (\<not> glfwGetKey (frameWindow fr0) GLFW_KEY_LEFT_SHIFT) g0"
    using cs(6) cs(7) by (simp_all add: gm)
  have over: "switchTime gm + frameDt ml > 1" using move(2) by (simp add: tm)
  have a: "switchPhase g' = IDLE" "switchTime g' = 0" "panPolar g' = 0" "viewSpeed g' = 0"
    unfolding g' using over by (simp_all add: updateMove_phase)
  have b: "focusedBodyId g' = chooseNextBody (\<not> glfwGetKey (frameWindow fr0) GLFW_KEY_LEFT_SHIFT) g0"
    unfolding g' by (simp add: fm)
  have foc: "bodyPosition g' (getFocusedBody g') = bodyPosition gm (getFocusedBody gm)"
    and rad: "bodyRadius g' (getFocusedBody g') = bodyRadius gm (getFocusedBody gm)"
    unfolding g' by (simp_all add: bodyPosition_def bodyRadius_def getFocusedBody_def)
  have pos: "viewPos g' = smul (ease2 (min 1 (switchTime gm)) 4) (moveTargetPos gm)
     + smul (1 - ease2 (min 1 (switchTime gm)) 4) (moveSourcePos gm)"
    unfolding g' by (simp add: updateMove_phase)
  have vp: "viewPolar g' = Vec3 (atan2 (- vy (moveDirection gm)) (- vx (moveDirection gm)))
                (arcsin (- vz (moveDirection gm))) (moveTargetDist gm)"
    unfolding g' using over by (simp add: updateMove_phase)
  have e: "vz (viewPolar g') = max (4 * bodyRadius g' (getFocusedBody g')) 1000"
    by (simp add: vp rad moveTargetDist_def)
  have cd: "(\<exists>c>0. bodyPosition g' (getFocusedBody g') - viewPos g' = smul c (forward (viewDir g')))
            \<and> - polarToCartesian (vec2_of (viewPolar g') + panPolar g') = forward (viewDir g')"
    if apart: "bodyPosition gm (getFocusedBody gm) \<noteq> moveSourcePos gm"
  proof -
    have dir: "forward (viewDir g') = moveDirection gm"
      unfolding g' using apart
      by (simp add: updateMove_phase forward_lookAt moveDirection_def normalize_unit)
    have c: "\<exists>c>0. bodyPosition g' (getFocusedBody g') - viewPos g' = smul c (forward (viewDir g'))"
      unfolding foc pos dir using move_aimed [OF apart] ease2_range by blast
    have d: "- polarToCartesian (vec2_of (viewPolar g') + panPolar g') = forward (viewDir g')"
      using move_polar [OF apart] by (simp add: dir a(3) vp vec2_of_def plus_vec2_def zero_vec2_def)
    from c d show ?thesis by simp
  qed
  from p2 p4 a b e cd show ?thesis by blast
qed

subsection \<open>The ray test\<close>

lemma rayTest_geometric:
  "rayTest vp r rel target =
     (if 0 < closestParam rel target \<and> closestApproach rel target < r * 1.1
      then cartesianToPolar
             (smul (vz vp) (polarToCartesian (vec2_of vp))
              + smul (thalesCoef rel target (r * 1.1)) (normalize (closestPoint rel target)))
      else vp)"
proof -
  have cp: "rel - smul (dot rel (normalize (target - rel))) (normalize (target - rel))
            = closestPoint rel target"
    by (simp add: closestPoint_def closestParam_def vec3.expand)
  show ?thesis
    unfolding rayTest_def Let_def cp
    by (simp add: closestParam_def closestApproach_def thalesCoef_def cartesianToPolar_def)
qed

lemma updateIdle_newViewPolar_quiet:
  assumes "\<not> (glfwGetKey win GLFW_KEY_TAB \<and> \<not> keysHeld g GLFW_KEY_TAB)"
  shows "switchNewViewPolar (updateIdle win dt posX posY g) = switchNewViewPolar g"
proof -
  define g1 where "g1 = dragView win posX posY g"
  define r where "r = bodyRadius g1 (getFocusedBody g1)"
  define g2 where "g2 = moveView r g1"
  define g4 where "g4 = (timeWarping win g2)\<lparr>bodyNameId := focusedBodyId (timeWarping win g2),
                                                bodyNameFade := 1\<rparr>"
  define rel where "rel = smul (vz (viewPolar g2)) (polarToCartesian (vec2_of (viewPolar g2)))"
  have u: "updateIdle win dt posX posY g = switching win r rel g4"
    unfolding updateIdle_def Let_def g1_def r_def g2_def g4_def rel_def ..
  have k: "\<not> (glfwGetKey win GLFW_KEY_TAB \<and> \<not> keysHeld g4 GLFW_KEY_TAB)"
    using assms by (simp add: g4_def g2_def g1_def)
  have f4: "switchNewViewPolar g4 = switchNewViewPolar g"
    by (simp add: g4_def g2_def g1_def)
  show ?thesis unfolding u switching_idle [OF k] by (simp add: f4)
qed

text \<open>
  Claim C2, as amended. Let \<open>rel\<close> be the camera position and \<open>target\<close> the position of the
  new focused body, both relative to the centre of the previously focused body, and
  \<open>rmin\<close> 1.1 times the radius of the previously focused body (the radius read at line 700,
  before the focus changes). When the switch fires, the target polar coordinates are
  the polar form of \<open>rel\<close> shifted along the direction of the closest point by the
  similar-triangles amount \<open>thalesCoef\<close>, exactly when the point of the line of sight to
  the new body that is closest to the centre of the previous body is in front of the
  camera and closer to that centre than \<open>rmin\<close>; otherwise they are the current polar
  coordinates. \<open>rel\<close> is the polar position of the camera, the previous body is the body
  that was focused and the focus is the body \<open>chooseNextBody\<close> gives. When the switch does
  not fire the target polar coordinates are left alone. The last conjunct says that
  \<open>closestApproach\<close> is the least distance from the centre of the previous body to a point
  of the line of sight.
\<close>

theorem switch_target_polar:
  fixes g :: Game and win :: Window and dt posX posY :: real
  defines "g' \<equiv> updateIdle win dt posX posY g"
    and "fired \<equiv> glfwGetKey win GLFW_KEY_TAB \<and> \<not> keysHeld g GLFW_KEY_TAB"
  defines "rel \<equiv> viewPos g' - bodyPosition g' (getPreviousBody g')"
    and "target \<equiv> bodyPosition g' (getFocusedBody g') - bodyPosition g' (getPreviousBody g')"
    and "rmin \<equiv> bodyRadius g' (getPreviousBody g') * 1.1"
  shows "(fired \<longrightarrow>
            switchNewViewPolar g' =
              (if 0 < closestParam rel target \<and> closestApproach rel target < rmin
               then cartesianToPolar
                      (rel + smul (thalesCoef rel target rmin) (normalize (closestPoint rel target)))
               else viewPolar g')
            \<and> rel = smul (vz (viewPolar g')) (polarToCartesian (vec2_of (viewPolar g')))
            \<and> getPreviousBody g' = getFocusedBody g
            \<and> focusedBodyId g' = chooseNextBody (\<not> glfwGetKey win GLFW_KEY_LEFT_SHIFT) g)
       \<and> (\<not> fired \<longrightarrow> switchNewViewPolar g' = switchNewViewPolar g)
       \<and> (target \<noteq> rel \<longrightarrow>
            (\<forall>t. closestApproach rel target \<le> length3 (rel + smul t (normalize (target - rel)))))"
proof -
  have a: "switchNewViewPolar g' =
              (if 0 < closestParam rel target \<and> closestApproach rel target < rmin
               then cartesianToPolar
                      (rel + smul (thalesCoef rel target rmin) (normalize (closestPoint rel target)))
               else viewPolar g')
            \<and> rel = smul (vz (viewPolar g')) (polarToCartesian (vec2_of (viewPolar g')))
            \<and> getPreviousBody g' = getFocusedBody g
            \<and> focusedBodyId g' = chooseNextBody (\<not> glfwGetKey win GLFW_KEY_LEFT_SHIFT) g" if fired
  proof -
    from that have t: "glfwGetKey win GLFW_KEY_TAB" and h: "\<not> keysHeld g GLFW_KEY_TAB"
      by (simp_all add: fired_def)
    note s = updateIdle_switch [OF t h, of dt posX posY, folded g'_def]
    have bp: "bodyPosition g' h = bodyPosition g h" for h
      by (simp add: bodyPosition_def s(4))
    have br: "bodyRadius g' h = bodyRadius g h" for h
      by (simp add: bodyRadius_def s(4))
    have rel: "rel = smul (vz (viewPolar g')) (polarToCartesian (vec2_of (viewPolar g')))"
      by (simp add: rel_def s(2,3) bp vec3.expand)
    have tg: "target = bodyPosition g (getFocusedBody g') - bodyPosition g (getFocusedBody g)"
      by (simp add: target_def bp s(3))
    have rm: "rmin = bodyRadius g (getFocusedBody g) * 1.1"
      by (simp add: rmin_def br s(3))
    have n: "switchNewViewPolar g' =
           (if 0 < closestParam rel target \<and> closestApproach rel target < rmin
            then cartesianToPolar
                   (rel + smul (thalesCoef rel target rmin) (normalize (closestPoint rel target)))
            else viewPolar g')"
      unfolding s(1) rayTest_geometric tg [symmetric] rm [symmetric] rel [symmetric] ..
    from switch_resets_timeWarp_aux [OF t h, of dt posX posY]
    have f: "focusedBodyId g' = chooseNextBody (\<not> glfwGetKey win GLFW_KEY_LEFT_SHIFT) g"
      by (simp add: g'_def)
    from n rel s(3) f show ?thesis by simp
  qed
  have b: "switchNewViewPolar g' = switchNewViewPolar g" if "\<not> fired"
    using that unfolding fired_def g'_def by (rule updateIdle_newViewPolar_quiet)
  have c: "\<forall>t. closestApproach rel target \<le> length3 (rel + smul t (normalize (target - rel)))"
    if "target \<noteq> rel"
    using closestApproach_minimal [OF that] by simp
  from a b c show ?thesis by blast
qed

subsection \<open>The resting camera at the trigger\<close>

lemma moveView_still:
  assumes "viewSpeed g = 0" "\<bar>vy (viewPolar g)\<bar> \<le> maxVerticalAngle" "r \<le> vz (viewPolar g)"
  shows "viewPolar (moveView r g) = viewPolar g"
proof -
  have a: "viewPolar (advanceView r g) = viewPolar g"
    using assms(1) by (simp add: advanceView_def vec3.expand)
  have b: "viewPolar (clampElevationDown (clampElevationUp (advanceView r g))) = viewPolar g"
    using assms(2) a by (auto simp: clampElevationDown_def clampElevationUp_def)
  have c: "viewPolar (clampDistance r (clampElevationDown (clampElevationUp (advanceView r g)))) = viewPolar g"
    using assms(3) b by (simp add: clampDistance_def)
  show ?thesis by (simp add: moveView_def c)
qed

lemma idle_trigger_eval:
  fixes g :: Game and d d' :: real
  defines "g' \<equiv> updateIdle (frameWindow (frameOf d' [GLFW_KEY_TAB])) d 0 0 g"
  assumes vp: "viewPolar g = Vec3 0 0 5" and vs: "viewSpeed g = 0" and dr: "\<not> dragging g"
    and held: "\<not> keysHeld g GLFW_KEY_TAB"
    and bodies: "getBodies (entityCollection g) = [Some 0, Some 1]" and foc: "focusedBodyId g = 0"
    and rad: "bodyRadius g (Some 0) = r" "r \<le> 5"
    and pos: "bodyPosition g (Some 0) = Vec3 0 0 0" "bodyPosition g (Some (Suc 0)) = Vec3 (- 11) 12 0"
  shows "viewPolar g' = Vec3 0 0 5"
    and "focusedBodyId g' = 1"
    and "getFocusedBody g' = Some 1"
    and "getPreviousBody g' = Some 0"
    and "entityCollection g' = entityCollection g"
    and "viewPos g' = Vec3 5 0 0"
    and "switchNewViewPolar g' = rayTest (Vec3 0 0 5) r (Vec3 5 0 0) (Vec3 (- 11) 12 0)"
proof -
  let ?W = "frameWindow (frameOf d' [GLFW_KEY_TAB])"
  have t: "glfwGetKey ?W GLFW_KEY_TAB" and sh: "\<not> glfwGetKey ?W GLFW_KEY_LEFT_SHIFT"
    by (simp_all add: frameOf_def GLFW_KEY_TAB_def GLFW_KEY_LEFT_SHIFT_def)
  note s = updateIdle_switch [OF t held, of d 0 0, folded g'_def]
  have f0: "getFocusedBody g = Some 0" by (simp add: getFocusedBody_def bodies foc)
  have dv: "dragView ?W 0 0 g = g" using dr by (rule dragView_released)
  have "viewPolar g' = viewPolar (moveView r g)" using s(5) by (simp add: f0 rad dv)
  also have "\<dots> = viewPolar g"
    using maxVerticalAngle_pos rad(2) by (intro moveView_still) (simp_all add: vs vp)
  finally show v: "viewPolar g' = Vec3 0 0 5" by (simp add: vp)
  from switch_resets_timeWarp_aux [OF t held, of d 0 0]
  have "focusedBodyId g' = chooseNextBody (\<not> glfwGetKey ?W GLFW_KEY_LEFT_SHIFT) g"
    by (simp add: g'_def)
  then show f: "focusedBodyId g' = 1"
    using sh by (simp add: chooseNextBody_def Let_def bodies foc)
  show ec: "entityCollection g' = entityCollection g" by (rule s(4))
  show f1: "getFocusedBody g' = Some 1" by (simp add: getFocusedBody_def ec bodies f)
  show p0: "getPreviousBody g' = Some 0" using s(3) f0 by simp
  have rel: "smul (vz (viewPolar g')) (polarToCartesian (vec2_of (viewPolar g'))) = Vec3 5 0 0"
    by (simp add: v vec2_of_def polarToCartesian_origin smul_def)
  show "viewPos g' = Vec3 5 0 0"
    unfolding s(2) rel f0 pos by (simp add: plus_vec3_def)
  show "switchNewViewPolar g' = rayTest (Vec3 0 0 5) r (Vec3 5 0 0) (Vec3 (- 11) 12 0)"
    unfolding s(1) rel unfolding f0 f1 v rad(1) by (simp add: pos minus_vec3_def)
qed

lemma sqrt_9: "sqrt 9 = 3"
  by (rule real_sqrt_unique) simp_all

lemma sight_line:
  "closestParam (Vec3 5 0 0) (Vec3 (- 11) 12 0) = 4"
  "closestPoint (Vec3 5 0 0) (Vec3 (- 11) 12 0) = Vec3 (9 / 5) (12 / 5) 0"
  "closestApproach (Vec3 5 0 0) (Vec3 (- 11) 12 0) = 3"
  "normalize (closestPoint (Vec3 5 0 0) (Vec3 (- 11) 12 0)) = Vec3 (3 / 5) (4 / 5) 0"
proof -
  have n: "normalize (Vec3 (- 11) 12 0 - Vec3 5 0 0) = Vec3 (- (4 / 5)) (3 / 5) 0"
    by (simp add: minus_vec3_def normalize_16_12)
  show p: "closestParam (Vec3 5 0 0) (Vec3 (- 11) 12 0) = 4"
    by (simp add: closestParam_def n dot_def)
  show c: "closestPoint (Vec3 5 0 0) (Vec3 (- 11) 12 0) = Vec3 (9 / 5) (12 / 5) 0"
    by (simp add: closestPoint_def p n smul_def plus_vec3_def)
  have d: "dot (Vec3 (9 / 5) (12 / 5) 0) (Vec3 (9 / 5) (12 / 5) 0) = 9"
    by (simp add: dot_def)
  show "closestApproach (Vec3 5 0 0) (Vec3 (- 11) 12 0) = 3"
    by (simp add: closestApproach_def c length3_def d sqrt_9)
  show "normalize (closestPoint (Vec3 5 0 0) (Vec3 (- 11) 12 0)) = Vec3 (3 / 5) (4 / 5) 0"
    by (simp add: c normalize_def d sqrt_9 smul_def)
qed

lemma normalize_9_12: "normalize (Vec3 (9 / 5) (12 / 5) 0) = Vec3 (3 / 5) (4 / 5) 0"
  using sight_line(4) by (simp add: sight_line(2))

lemma rayTest_clear:
  "r * 1.1 \<le> 3 \<Longrightarrow> rayTest (Vec3 0 0 5) r (Vec3 5 0 0) (Vec3 (- 11) 12 0) = Vec3 0 0 5"
  by (simp add: rayTest_geometric sight_line)

lemma rayTest_shift:
  "3 < r * 1.1 \<Longrightarrow> rayTest (Vec3 0 0 5) r (Vec3 5 0 0) (Vec3 (- 11) 12 0) =
     cartesianToPolar (Vec3 5 0 0
        + smul (thalesCoef (Vec3 5 0 0) (Vec3 (- 11) 12 0) (r * 1.1)) (Vec3 (3 / 5) (4 / 5) 0))"
  by (simp add: rayTest_geometric sight_line normalize_9_12 vec2_of_def polarToCartesian_origin smul_def)

lemma restGame_fields:
  "viewPolar restGame = Vec3 0 0 5" "viewSpeed restGame = 0" "\<not> dragging restGame"
  "\<not> keysHeld restGame GLFW_KEY_TAB" "focusedBodyId restGame = 0" "switchPhase restGame = IDLE"
  "switchTime restGame = 0" "switchNewViewPolar restGame = Vec3 0 0 5"
  "entityCollection restGame = twoBodies"
  by (simp_all add: restGame_def)

lemma twoBodies_eval:
  "bodyRadius restGame (Some 0) = 1" "bodyRadius restGame (Some (Suc 0)) = 3"
  "bodyPosition restGame (Some 0) = Vec3 0 0 0" "bodyPosition restGame (Some (Suc 0)) = Vec3 (- 11) 12 0"
  by (simp_all add: bodyRadius_def bodyPosition_def restGame_def getParam_def getState_def
      twoBodies_def twoBodiesState_def entityOf_def zero_vec3_def)

text \<open>The positions of the two bodies as lines 523-543 resolve them: the first stays at
  the origin and the second is where \<^verbatim>\<open>computePosition\<close> puts it at the epoch of the
  frame. The states of the frames used below are those of a \<^verbatim>\<open>computePosition\<close> that
  returns the position the frame gives the second body.\<close>

lemma twoBodies_resolved:
  "absPosition cp twoBodies e (Some 0) = Some 0"
  "absPosition cp twoBodies e (Some 1) = Some (cp (orbitOf 20 100) e)"
proof -
  have c0: "ancestorChain twoBodies (Some 0) []"
    by (intro ancestorChain.intros) (simp add: getParent_def twoBodies_def)
  have c1: "ancestorChain twoBodies (Some 1) [Some 0]"
    by (intro ancestorChain.intros) (simp_all add: getParent_def twoBodies_def)
  have r0: "relativePositions cp twoBodies e (Some 0) = 0"
    by (simp add: relativePositions_def getParent_def twoBodies_def handleExists_def)
  have r1: "relativePositions cp twoBodies e (Some (Suc 0)) = cp (orbitOf 20 100) e"
    by (simp add: relativePositions_def getParent_def getParam_def twoBodies_def handleExists_def
        entityOf_def)
  show "absPosition cp twoBodies e (Some 0) = Some 0"
    using absPositionLoop_chain [OF c0, of cp e] by (simp add: absPosition_def r0)
  show "absPosition cp twoBodies e (Some 1) = Some (cp (orbitOf 20 100) e)"
    using absPositionLoop_chain [OF c1, of cp e] by (simp add: absPosition_def r0 r1)
qed

lemma getBodies_wideBodies: "getBodies wideBodies = [Some 0, Some 1]"
  by (simp add: getBodies_def getAll_def wideBodies_def entityOf_def getParam_def handleExists_def upt_rec)

lemma wideGame_fields:
  "viewPolar wideGame = Vec3 0 0 5" "viewSpeed wideGame = 0" "\<not> dragging wideGame"
  "\<not> keysHeld wideGame GLFW_KEY_TAB" "focusedBodyId wideGame = 0" "switchPhase wideGame = IDLE"
  "switchNewViewPolar wideGame = Vec3 0 0 5" "entityCollection wideGame = wideBodies"
  by (simp_all add: wideGame_def restGame_def)

lemma wideBodies_eval:
  "bodyRadius wideGame (Some 0) = 4" "bodyRadius wideGame (Some (Suc 0)) = 3"
  "bodyPosition wideGame (Some 0) = Vec3 0 0 0" "bodyPosition wideGame (Some (Suc 0)) = Vec3 (- 11) 12 0"
  by (simp_all add: bodyRadius_def bodyPosition_def wideGame_def restGame_def getParam_def getState_def
      wideBodies_def twoBodiesState_def entityOf_def zero_vec3_def)

lemma restGame_trigger:
  fixes d :: real
  defines "g' \<equiv> updateIdle (frameWindow (frameOf d [GLFW_KEY_TAB])) d 0 0 restGame"
  shows "viewPolar g' = Vec3 0 0 5" "focusedBodyId g' = 1" "getFocusedBody g' = Some 1"
    "getPreviousBody g' = Some 0" "entityCollection g' = twoBodies" "viewPos g' = Vec3 5 0 0"
    "switchNewViewPolar g' = Vec3 0 0 5"
proof -
  note e = idle_trigger_eval [of restGame 1 d d, folded g'_def,
      OF restGame_fields(1) restGame_fields(2) restGame_fields(3) restGame_fields(4) _
         restGame_fields(5) twoBodies_eval(1) _ twoBodies_eval(3) twoBodies_eval(4)]
  have b: "getBodies (entityCollection restGame) = [Some 0, Some 1]"
    by (simp add: restGame_fields getBodies_twoBodies)
  show "viewPolar g' = Vec3 0 0 5" by (rule e(1) [OF b]) simp
  show "focusedBodyId g' = 1" by (rule e(2) [OF b]) simp
  show "getFocusedBody g' = Some 1" by (rule e(3) [OF b]) simp
  show "getPreviousBody g' = Some 0" by (rule e(4) [OF b]) simp
  show "entityCollection g' = twoBodies" using e(5) [OF b] by (simp add: restGame_fields)
  show "viewPos g' = Vec3 5 0 0" by (rule e(6) [OF b]) simp
  show "switchNewViewPolar g' = Vec3 0 0 5" using e(7) [OF b] by (simp add: rayTest_clear)
qed

lemma wideGame_trigger:
  fixes d :: real
  defines "g' \<equiv> updateIdle (frameWindow (frameOf d [GLFW_KEY_TAB])) d 0 0 wideGame"
  shows "viewPolar g' = Vec3 0 0 5" "getFocusedBody g' = Some 1"
    "getPreviousBody g' = Some 0" "entityCollection g' = wideBodies" "viewPos g' = Vec3 5 0 0"
proof -
  note e = idle_trigger_eval [of wideGame 4 d d, folded g'_def,
      OF wideGame_fields(1) wideGame_fields(2) wideGame_fields(3) wideGame_fields(4) _
         wideGame_fields(5) wideBodies_eval(1) _ wideBodies_eval(3) wideBodies_eval(4)]
  have b: "getBodies (entityCollection wideGame) = [Some 0, Some 1]"
    by (simp add: wideGame_fields getBodies_wideBodies)
  show "viewPolar g' = Vec3 0 0 5" by (rule e(1) [OF b]) simp
  show "getFocusedBody g' = Some 1" by (rule e(3) [OF b]) simp
  show "getPreviousBody g' = Some 0" by (rule e(4) [OF b]) simp
  show "entityCollection g' = wideBodies" using e(5) [OF b] by (simp add: wideGame_fields)
  show "viewPos g' = Vec3 5 0 0" by (rule e(6) [OF b]) simp
qed

lemma thalesCoef_pos: "0 < thalesCoef (Vec3 5 0 0) (Vec3 (- 11) 12 0) (4 * 1.1)"
proof -
  have n: "length3 (Vec3 (- 11) 12 0 - Vec3 5 0 0) = 20"
    by (simp add: minus_vec3_def length3_def dot_def sqrt_400)
  have "Vec3 (- 11) 12 0 - smul (4 * 1.1) (Vec3 (3 / 5) (4 / 5) 0) \<noteq> 0"
    by (simp add: minus_vec3_def smul_def zero_vec3_def)
  then have d: "0 < length3 (Vec3 (- 11) 12 0 - smul (4 * 1.1) (Vec3 (3 / 5) (4 / 5) 0))"
    by (rule length3_pos)
  have "thalesCoef (Vec3 5 0 0) (Vec3 (- 11) 12 0) (4 * 1.1)
          = 28 / length3 (Vec3 (- 11) 12 0 - smul (4 * 1.1) (Vec3 (3 / 5) (4 / 5) 0))"
    unfolding thalesCoef_def sight_line n by (simp add: normalize_9_12)
  with d show ?thesis by simp
qed

lemma shifted_farther:
  assumes "0 < c"
  shows "5 < length3 (Vec3 5 0 0 + smul c (Vec3 (3 / 5) (4 / 5) 0))"
proof -
  have d: "dot (Vec3 5 0 0 + smul c (Vec3 (3 / 5) (4 / 5) 0)) (Vec3 5 0 0 + smul c (Vec3 (3 / 5) (4 / 5) 0))
          = 25 + 6 * c + c * c"
    by (simp add: dot_def plus_vec3_def smul_def algebra_simps)
  have "0 < 6 * c + c * c" using assms by (intro add_pos_pos mult_pos_pos) simp_all
  then have "(5::real)\<^sup>2 < 25 + 6 * c + c * c" by simp
  then show ?thesis
    unfolding length3_def d by (intro real_less_rsqrt)
qed

text \<open>
  A previous body of radius 4 (clearance 4.4) and a line of sight that passes its centre
  at distance 3, four units in front of the camera: the target polar coordinates are the
  polar form of the shifted position, farther from the centre than the camera's 5. With
  no key down the target polar coordinates keep their value.
\<close>

theorem switch_target_polar_witness:
  "switchNewViewPolar (updateIdle (frameWindow (frameOf (1 / 60) [GLFW_KEY_TAB])) (1 / 60) 0 0 wideGame)
     = cartesianToPolar (Vec3 5 0 0
         + smul (thalesCoef (Vec3 5 0 0) (Vec3 (- 11) 12 0) (4 * 1.1)) (Vec3 (3 / 5) (4 / 5) 0))
   \<and> 5 < vz (switchNewViewPolar
               (updateIdle (frameWindow (frameOf (1 / 60) [GLFW_KEY_TAB])) (1 / 60) 0 0 wideGame))
   \<and> vz (viewPolar (updateIdle (frameWindow (frameOf (1 / 60) [GLFW_KEY_TAB])) (1 / 60) 0 0 wideGame)) = 5
   \<and> switchNewViewPolar (updateIdle (frameWindow (frameOf (1 / 60) [])) (1 / 60) 0 0 wideGame)
       = Vec3 0 0 5
   \<and> (\<forall>t. 3 \<le> length3 (Vec3 5 0 0 + smul t (Vec3 (- (4 / 5)) (3 / 5) 0)))"
proof -
  define W where "W = frameWindow (frameOf (1 / 60) [GLFW_KEY_TAB])"
  define g' where "g' = updateIdle W (1 / 60) 0 0 wideGame"
  note e = wideGame_trigger [of "1 / 60", folded W_def, folded g'_def]
  have fired: "glfwGetKey W GLFW_KEY_TAB \<and> \<not> keysHeld wideGame GLFW_KEY_TAB"
    by (simp add: W_def frameOf_def wideGame_fields)
  have quiet: "\<not> (glfwGetKey (frameWindow (frameOf (1 / 60) [])) GLFW_KEY_TAB
                  \<and> \<not> keysHeld wideGame GLFW_KEY_TAB)"
    by (simp add: frameOf_def)
  have bp: "bodyPosition g' h = bodyPosition wideGame h" for h
    by (simp add: bodyPosition_def e(4) wideGame_fields)
  have br: "bodyRadius g' h = bodyRadius wideGame h" for h
    by (simp add: bodyRadius_def e(4) wideGame_fields)
  have rel: "viewPos g' - bodyPosition g' (getPreviousBody g') = Vec3 5 0 0"
    by (simp add: e bp wideBodies_eval minus_vec3_def)
  have tg: "bodyPosition g' (getFocusedBody g') - bodyPosition g' (getPreviousBody g') = Vec3 (- 11) 12 0"
    by (simp add: e bp wideBodies_eval minus_vec3_def)
  have rm: "bodyRadius g' (getPreviousBody g') * 1.1 = 4 * 1.1"
    by (simp add: e br wideBodies_eval)
  note th = switch_target_polar [where g = wideGame and win = W and dt = "1 / 60" and posX = 0 and posY = 0,
      folded g'_def, unfolded rel tg rm]
  from th [THEN conjunct1, THEN mp, OF fired, THEN conjunct1]
  have a: "switchNewViewPolar g' = cartesianToPolar (Vec3 5 0 0
         + smul (thalesCoef (Vec3 5 0 0) (Vec3 (- 11) 12 0) (4 * 1.1)) (Vec3 (3 / 5) (4 / 5) 0))"
    by (simp add: sight_line normalize_9_12)
  have b: "5 < vz (switchNewViewPolar g')"
    unfolding a cartesianToPolar_def vec3.sel by (rule shifted_farther [OF thalesCoef_pos])
  have c: "vz (viewPolar g') = 5" by (simp add: e)
  from th [THEN conjunct2, THEN conjunct2]
  have d: "\<forall>t. 3 \<le> length3 (Vec3 5 0 0 + smul t (Vec3 (- (4 / 5)) (3 / 5) 0))"
    by (simp add: sight_line minus_vec3_def normalize_16_12)
  from switch_target_polar [where g = wideGame and win = "frameWindow (frameOf (1 / 60) [])"
      and dt = "1 / 60" and posX = 0 and posY = 0, THEN conjunct2, THEN conjunct1, THEN mp, OF quiet]
  have f: "switchNewViewPolar (updateIdle (frameWindow (frameOf (1 / 60) [])) (1 / 60) 0 0 wideGame)
       = Vec3 0 0 5"
    by (simp add: wideGame_fields)
  from a b c d f show ?thesis unfolding g'_def W_def by simp
qed

text \<open>
  Claim C2 as stated compares with the radius of the new body. From the resting camera
  the previous body has radius 1 and the new body radius 3; the line of sight passes the
  centre of the previous body at distance 3, four units in front of the camera. That is
  within 1.1 times the radius of the new body (3.3), so the claim asks for a shift; the
  code compares with 1.1 times the radius of the previous body (1.1) and leaves the
  target polar coordinates equal to the current ones.
\<close>

theorem switch_target_old_radius:
  "switchPhase (updateIdle (frameWindow (frameOf (1 / 60) [GLFW_KEY_TAB])) (1 / 60) 0 0 restGame) = TRACK
   \<and> getPreviousBody (updateIdle (frameWindow (frameOf (1 / 60) [GLFW_KEY_TAB])) (1 / 60) 0 0 restGame) = Some 0
   \<and> getFocusedBody (updateIdle (frameWindow (frameOf (1 / 60) [GLFW_KEY_TAB])) (1 / 60) 0 0 restGame) = Some 1
   \<and> bodyRadius restGame (Some 0) = 1 \<and> bodyRadius restGame (Some 1) = 3
   \<and> viewPos (updateIdle (frameWindow (frameOf (1 / 60) [GLFW_KEY_TAB])) (1 / 60) 0 0 restGame)
       - bodyPosition restGame (Some 0) = Vec3 5 0 0
   \<and> bodyPosition restGame (Some 1) - bodyPosition restGame (Some 0) = Vec3 (- 11) 12 0
   \<and> closestParam (Vec3 5 0 0) (Vec3 (- 11) 12 0) = 4
   \<and> closestApproach (Vec3 5 0 0) (Vec3 (- 11) 12 0) = 3
   \<and> closestApproach (Vec3 5 0 0) (Vec3 (- 11) 12 0) < 1.1 * bodyRadius restGame (Some 1)
   \<and> switchNewViewPolar (updateIdle (frameWindow (frameOf (1 / 60) [GLFW_KEY_TAB])) (1 / 60) 0 0 restGame)
       = viewPolar (updateIdle (frameWindow (frameOf (1 / 60) [GLFW_KEY_TAB])) (1 / 60) 0 0 restGame)"
proof -
  note e = restGame_trigger [of "1 / 60"]
  have p: "switchPhase (updateIdle (frameWindow (frameOf (1 / 60) [GLFW_KEY_TAB])) (1 / 60) 0 0 restGame) = TRACK"
    by (simp add: updateIdle_phase frameOf_def restGame_fields)
  show ?thesis
    by (simp add: p e twoBodies_eval sight_line minus_vec3_def)
qed

subsection \<open>The cycle from the resting camera\<close>

lemma trackInterp_same:
  assumes "switchNewViewPolar g = viewPolar g"
  shows "trackInterpPolar g = viewPolar g"
proof -
  have w: "wrapAngle 0 0 = 0" using pi_gt_zero by (simp add: wrapAngle_def)
  show ?thesis
    by (simp add: trackInterpPolar_def Let_def assms w vec3.expand algebra_simps)
qed

lemma frameOf_fields:
  "frameDt (frameOf d keys) = d" "framePosX (frameOf d keys) = 0" "framePosY (frameOf d keys) = 0"
  "frameStates (frameOf d keys) = twoBodiesState"
  "glfwGetKey (frameWindow (frameOf d keys)) k = (k \<in> set keys)"
  by (simp_all add: frameOf_def)

lemma setState_twoBodies: "setState twoBodies twoBodiesState = twoBodies"
  by (simp add: setState_def twoBodies_def)

lemma restGame_started:
  fixes d :: real
  defines "g \<equiv> frameStart (frameOf d [GLFW_KEY_TAB]) restGame"
  shows "viewPolar g = Vec3 0 0 5" "viewSpeed g = 0" "\<not> dragging g" "\<not> keysHeld g GLFW_KEY_TAB"
    "getBodies (entityCollection g) = [Some 0, Some 1]" "focusedBodyId g = 0"
    "bodyRadius g (Some 0) = 1"
    "bodyPosition g (Some 0) = Vec3 0 0 0" "bodyPosition g (Some (Suc 0)) = Vec3 (- 11) 12 0"
  unfolding g_def
  by (simp_all add: restGame_fields getBodies_twoBodies twoBodies_eval framePosition_frames)

lemma restGame_update_trigger:
  fixes d :: real
  defines "g1 \<equiv> update (frameOf d [GLFW_KEY_TAB]) restGame"
  shows "viewPolar g1 = Vec3 0 0 5" "switchNewViewPolar g1 = Vec3 0 0 5"
proof -
  let ?fr = "frameOf d [GLFW_KEY_TAB]"
  have u: "g1 = frameEnd ?fr (updateIdle (frameWindow ?fr) d 0 0 (frameStart ?fr restGame))"
    unfolding g1_def using update_IDLE [OF restGame_fields(6), of ?fr] by (simp add: frameOf_fields)
  note s = restGame_started [of d]
  note e = idle_trigger_eval [of "frameStart ?fr restGame" 1 d d,
      OF s(1) s(2) s(3) s(4) s(5) s(6) s(7) _ s(8) s(9)]
  show "viewPolar g1 = Vec3 0 0 5" unfolding u using e(1) by simp
  show "switchNewViewPolar g1 = Vec3 0 0 5" unfolding u using e(7) by (simp add: rayTest_clear)
qed

text \<open>
  From the resting camera: the trigger frame, then four frames of three quarters of a
  time unit. TRACK ends on the second, MOVE on the fourth; the machine is back in IDLE
  with the second body focused, straight ahead of the camera, and pan and velocity zero.
\<close>

theorem switch_cycle_completes_witness:
  "switchPhase (runFrames [frameOf (1 / 60) [GLFW_KEY_TAB], frameOf (3 / 4) [], frameOf (3 / 4) [],
       frameOf (3 / 4) [], frameOf (3 / 4) []] restGame) = IDLE
   \<and> focusedBodyId (runFrames [frameOf (1 / 60) [GLFW_KEY_TAB], frameOf (3 / 4) [], frameOf (3 / 4) [],
       frameOf (3 / 4) [], frameOf (3 / 4) []] restGame) = 1
   \<and> panPolar (runFrames [frameOf (1 / 60) [GLFW_KEY_TAB], frameOf (3 / 4) [], frameOf (3 / 4) [],
       frameOf (3 / 4) [], frameOf (3 / 4) []] restGame) = 0
   \<and> viewSpeed (runFrames [frameOf (1 / 60) [GLFW_KEY_TAB], frameOf (3 / 4) [], frameOf (3 / 4) [],
       frameOf (3 / 4) [], frameOf (3 / 4) []] restGame) = 0
   \<and> switchPhase (runFrames [frameOf (1 / 60) [GLFW_KEY_TAB], frameOf (3 / 4) [], frameOf (3 / 4) [],
       frameOf (3 / 4) []] restGame) = MOVE
   \<and> (\<exists>c>0. Vec3 (- 11) 12 0
             - viewPos (runFrames [frameOf (1 / 60) [GLFW_KEY_TAB], frameOf (3 / 4) [], frameOf (3 / 4) [],
                 frameOf (3 / 4) [], frameOf (3 / 4) []] restGame)
           = smul c (forward (viewDir (runFrames [frameOf (1 / 60) [GLFW_KEY_TAB], frameOf (3 / 4) [],
                 frameOf (3 / 4) [], frameOf (3 / 4) [], frameOf (3 / 4) []] restGame))))"
proof -
  define fr0 where "fr0 = frameOf (1 / 60) [GLFW_KEY_TAB]"
  define f where "f = frameOf (3 / 4) []"
  define g2 where "g2 = runFrames (fr0 # [f]) restGame"
  define g4 where "g4 = runFrames (fr0 # [f] @ [f] @ [f]) restGame"
  define gm where "gm = frameStart f g4"
  define g' where "g' = runFrames (fr0 # [f] @ [f] @ [f] @ [f]) restGame"
  have idle: "switchPhase restGame = IDLE" by (rule restGame_fields)
  have tab: "glfwGetKey (frameWindow fr0) GLFW_KEY_TAB" "\<not> keysHeld restGame GLFW_KEY_TAB"
    by (simp_all add: fr0_def frameOf_fields restGame_fields)
  have sh: "\<not> glfwGetKey (frameWindow fr0) GLFW_KEY_LEFT_SHIFT"
    by (simp add: fr0_def frameOf_fields GLFW_KEY_TAB_def GLFW_KEY_LEFT_SHIFT_def)
  have nonneg: "\<forall>fr\<in>set ([f] @ [f]). 0 \<le> frameDt fr" by (simp add: f_def frameOf_fields)
  have track: "switchTime restGame + elapsed [f] \<le> 1"
    "1 < switchTime restGame + elapsed [f] + frameDt f"
    by (simp_all add: restGame_fields f_def frameOf_fields)
  have move: "elapsed [f] \<le> 1" "1 < elapsed [f] + frameDt f"
    by (simp_all add: f_def frameOf_fields)
  note cs = cycle_state [OF idle tab nonneg track move(1), folded g2_def g4_def]
  have v2: "viewPolar g2 = Vec3 0 0 5" and n2: "switchNewViewPolar g2 = Vec3 0 0 5"
    using cs(3) cs(4) restGame_update_trigger [of "1 / 60"] by (simp_all add: fr0_def)
  have v4: "viewPolar g4 = Vec3 0 0 5"
    unfolding cs(9) using trackInterp_same [of "frameStart f g2"] by (simp add: v2 n2)
  have f4: "focusedBodyId g4 = 1"
    unfolding cs(7) using sh by (simp add: chooseNextBody_restGame)
  have b4: "getBodies (entityCollection g4) = [Some 0, Some 1]"
    unfolding cs(10) by (simp add: restGame_fields getBodies_twoBodies)
  have fo: "getFocusedBody gm = Some 1" and pr: "getPreviousBody gm = Some 0"
    by (simp_all add: gm_def getFocusedBody_def getPreviousBody_def b4 f4 cs(8) restGame_fields)
  have fp: "bodyPosition gm (Some (Suc 0)) = Vec3 (- 11) 12 0" "bodyPosition gm (Some 0) = Vec3 0 0 0"
    by (simp_all add: gm_def f_def framePosition_frames)
  have src: "moveSourcePos gm = Vec3 5 0 0"
    by (simp add: moveSourcePos_def pr fp)
      (simp add: gm_def v4 vec2_of_def polarToCartesian_origin smul_def plus_vec3_def)
  have apart: "bodyPosition gm (getFocusedBody gm) \<noteq> moveSourcePos gm"
    by (simp add: fo fp src)
  note th = switch_cycle_completes [OF idle tab nonneg track move, folded g4_def, folded gm_def g'_def]
  have p: "switchPhase g' = IDLE" and fi: "focusedBodyId g' = 1" and pa: "panPolar g' = 0"
    and sp: "viewSpeed g' = 0" and m: "switchPhase g4 = MOVE"
    using th sh by (simp_all add: chooseNextBody_restGame)
  from th apart
  have aim: "\<exists>c>0. bodyPosition g' (getFocusedBody g') - viewPos g' = smul c (forward (viewDir g'))"
    by blast
  have u: "g' = update f g4" by (simp add: g'_def g4_def runFrames_append)
  have "g' = frameEnd f (updateMove (frameDt f) gm)"
    unfolding u gm_def using m by (rule update_MOVE)
  then have "bodyPosition g' (getFocusedBody g') = bodyPosition gm (getFocusedBody gm)"
    by (simp add: bodyPosition_def getFocusedBody_def)
  then have bf: "bodyPosition g' (getFocusedBody g') = Vec3 (- 11) 12 0" by (simp add: fo fp)
  have l: "[frameOf (1 / 60) [GLFW_KEY_TAB], frameOf (3 / 4) [], frameOf (3 / 4) [],
       frameOf (3 / 4) [], frameOf (3 / 4) []]
       = fr0 # [f] @ [f] @ [f] @ [f]"
    "[frameOf (1 / 60) [GLFW_KEY_TAB], frameOf (3 / 4) [], frameOf (3 / 4) [], frameOf (3 / 4) []]
       = fr0 # [f] @ [f] @ [f]"
    by (simp_all add: fr0_def f_def)
  show ?thesis
    unfolding l g'_def [symmetric] g4_def [symmetric]
    using p fi pa sp m aim unfolding bf by blast
qed

text \<open>
  Claim C4 as stated fails: after the trigger, three frames of three quarters of a time
  unit (2.25 time units in all) leave the machine in MOVE. TRACK ends on the second frame,
  when its timer is at 1.5; line 866 restarts the timer from 0, so the half unit by which
  the frame overshot is dropped, and after the third frame the MOVE timer is at 0.75.
\<close>

theorem switch_cycle_unfinished:
  "switchPhase restGame = IDLE
   \<and> elapsed [frameOf (3 / 4) [], frameOf (3 / 4) [], frameOf (3 / 4) []] = 9 / 4
   \<and> switchPhase (runFrames [frameOf (1 / 60) [GLFW_KEY_TAB]] restGame) = TRACK
   \<and> switchPhase (runFrames [frameOf (1 / 60) [GLFW_KEY_TAB], frameOf (3 / 4) [], frameOf (3 / 4) [],
        frameOf (3 / 4) []] restGame) = MOVE
   \<and> switchTime (runFrames [frameOf (1 / 60) [GLFW_KEY_TAB], frameOf (3 / 4) [], frameOf (3 / 4) [],
        frameOf (3 / 4) []] restGame) = 3 / 4"
proof -
  define fr0 where "fr0 = frameOf (1 / 60) [GLFW_KEY_TAB]"
  define f where "f = frameOf (3 / 4) []"
  have idle: "switchPhase restGame = IDLE" by (rule restGame_fields)
  have tab: "glfwGetKey (frameWindow fr0) GLFW_KEY_TAB" "\<not> keysHeld restGame GLFW_KEY_TAB"
    by (simp_all add: fr0_def frameOf_fields restGame_fields)
  have nonneg: "\<forall>fr\<in>set ([f] @ [f]). 0 \<le> frameDt fr" by (simp add: f_def frameOf_fields)
  have track: "switchTime restGame + elapsed [f] \<le> 1"
    "1 < switchTime restGame + elapsed [f] + frameDt f"
    by (simp_all add: restGame_fields f_def frameOf_fields)
  have move: "elapsed [f] \<le> 1" by (simp add: f_def frameOf_fields)
  note cs = cycle_state [OF idle tab nonneg track move]
  have a: "switchPhase (runFrames (fr0 # [f] @ [f] @ [f]) restGame) = MOVE" by (rule cs(5))
  have t: "switchTime (runFrames (fr0 # [f] @ [f] @ [f]) restGame) = 3 / 4"
    using cs(6) by (simp add: f_def frameOf_fields)
  have b: "switchPhase (runFrames [fr0] restGame) = TRACK"
    using update_trigger(1) [OF idle tab] by simp
  have e: "elapsed [f, f, f] = 9 / 4" by (simp add: f_def frameOf_fields)
  from idle a b e t show ?thesis by (simp add: fr0_def f_def)
qed

end
